(* ===== verification/Go_Prelude.thy ===== *)
theory Go_Prelude
  imports Main "HOL-Library.Word" "HOL-Library.Sublist" "HOL-Library.Char_ord"
begin

section \<open>Go values the components share: errors, strings, numbers\<close>

text \<open>
  The part of Go's language and standard library that every component uses: error values
  and their wrapping, the functions of package strings on byte strings, the number parsers
  and printers of package strconv, and the association-list reading of a map literal as a
  locale. A Go string is a HOL \<^typ>\<open>string\<close>: a list of bytes.
\<close>

subsection \<open>Collections of rewrite rules\<close>

named_theorems err_simps \<open>evaluation of the error plumbing\<close>
named_theorems path_simps \<open>cleaned absolute paths\<close>
named_theorems table_simps \<open>lookups in constant tables\<close>

subsection \<open>Errors\<close>

text \<open>
  Linux errno values the program tests by name; every other one is \<open>EOTHER\<close>.
\<close>

datatype errno = EPERM | ENOENT | ESRCH | EEXIST | EINVAL | ENOTDIR | EOTHER nat

text \<open>
  \<open>Errorf f args\<close> is \<^verbatim>\<open>fmt.Errorf\<close> without a wrapped error, \<open>Wrapf f args e\<close> is the form
  with \<^verbatim>\<open>%w\<close>, \<open>Errno n\<close> a raw system error.
\<close>

datatype goerr =
    Errorf string "string list"
  | Wrapf string "string list" goerr
  | Errno errno

type_synonym 'a result = "goerr + 'a"

text \<open>\<^verbatim>\<open>if err != nil { return err }\<close> after a call.\<close>

definition ebind :: "'a result \<Rightarrow> ('a \<Rightarrow> 'b result) \<Rightarrow> 'b result" where
  "ebind m f = (case m of Inl e \<Rightarrow> Inl e | Inr x \<Rightarrow> f x)"

text \<open>\<^verbatim>\<open>if err != nil { return fmt.Errorf("...: %w", err) }\<close> after a call.\<close>

definition ewrap :: "string \<Rightarrow> string list \<Rightarrow> 'a result \<Rightarrow> 'a result" where
  "ewrap f args m = (case m of Inl e \<Rightarrow> Inl (Wrapf f args e) | Inr x \<Rightarrow> Inr x)"

definition is_ok :: "'a result \<Rightarrow> bool" where
  "is_ok m = (case m of Inl _ \<Rightarrow> False | Inr _ \<Rightarrow> True)"

lemma ebind_Inl [simp, err_simps]: "ebind (Inl e) f = Inl e"
  and ebind_Inr [simp, err_simps]: "ebind (Inr x) f = f x"
  by (simp_all add: ebind_def)

lemma ewrap_Inl [simp, err_simps]: "ewrap s a (Inl e) = Inl (Wrapf s a e)"
  and ewrap_Inr [simp, err_simps]: "ewrap s a (Inr x) = Inr x"
  by (simp_all add: ewrap_def)

lemma is_ok_Inl [simp]: "is_ok (Inl e) = False"
  and is_ok_Inr [simp]: "is_ok (Inr x) = True"
  by (simp_all add: is_ok_def)

lemma ebind_eq_Inr: "ebind m f = Inr y \<longleftrightarrow> (\<exists>x. m = Inr x \<and> f x = Inr y)"
  by (cases m) simp_all

lemma ebind_eq_Inl:
  "ebind m f = Inl e \<longleftrightarrow> m = Inl e \<or> (\<exists>x. m = Inr x \<and> f x = Inl e)"
  by (cases m) simp_all

lemma ewrap_eq_Inr: "ewrap s a m = Inr y \<longleftrightarrow> m = Inr y"
  by (cases m) simp_all

lemma ewrap_eq_Inl: "ewrap s a m = Inl e \<longleftrightarrow> (\<exists>e'. m = Inl e' \<and> e = Wrapf s a e')"
  by (cases m) auto

lemma is_ok_iff: "is_ok m \<longleftrightarrow> (\<exists>x. m = Inr x)"
  by (cases m) simp_all

lemmas result_iffs = ebind_eq_Inr ebind_eq_Inl ewrap_eq_Inr ewrap_eq_Inl

lemma ebind_cong [fundef_cong]:
  "m = m' \<Longrightarrow> (\<And>x. m' = Inr x \<Longrightarrow> f x = g x) \<Longrightarrow> ebind m f = ebind m' g"
  by (cases m') simp_all

text \<open>A \<^verbatim>\<open>for\<close> loop whose body may return an error early.\<close>

fun each :: "('a \<Rightarrow> 's \<Rightarrow> 's result) \<Rightarrow> 'a list \<Rightarrow> 's \<Rightarrow> 's result" where
  "each f [] s = Inr s"
| "each f (x # xs) s = ebind (f x s) (each f xs)"

lemma each_append: "each f (xs @ ys) s = ebind (each f xs s) (each f ys)"
  by (induction xs arbitrary: s) (auto simp: ebind_def split: sum.splits)

lemma each_invariant:
  assumes "each f xs s = Inr t" and "P s"
    and "\<And>x s t. x \<in> set xs \<Longrightarrow> P s \<Longrightarrow> f x s = Inr t \<Longrightarrow> P t"
  shows "P t"
  using assms
proof (induction xs arbitrary: s)
  case (Cons x xs)
  then obtain u where u: "f x s = Inr u" "each f xs u = Inr t"
    by (auto simp: ebind_eq_Inr)
  then have "P u" using Cons.prems by auto
  then show ?case using Cons.IH [OF u(2)] Cons.prems(3) by auto
qed simp

subsection \<open>Package strings\<close>

abbreviation has_prefix :: "string \<Rightarrow> string \<Rightarrow> bool" where
  "has_prefix s p \<equiv> prefix p s"

abbreviation has_suffix :: "string \<Rightarrow> string \<Rightarrow> bool" where
  "has_suffix s p \<equiv> suffix p s"

definition trim_prefix :: "string \<Rightarrow> string \<Rightarrow> string" where
  "trim_prefix s p = (if has_prefix s p then drop (length p) s else s)"

definition cut_prefix :: "string \<Rightarrow> string \<Rightarrow> string option" where
  "cut_prefix s p = (if has_prefix s p then Some (drop (length p) s) else None)"

definition contains_any :: "string \<Rightarrow> string \<Rightarrow> bool" where
  "contains_any s cs = list_ex (\<lambda>c. c \<in> set cs) s"

text \<open>\<^verbatim>\<open>strings.Split\<close> at a separator of one byte.\<close>

fun split_on :: "char \<Rightarrow> string \<Rightarrow> string list" where
  "split_on c [] = [[]]"
| "split_on c (x # xs) =
     (if x = c then [] # split_on c xs
      else case split_on c xs of [] \<Rightarrow> [[x]] | y # ys \<Rightarrow> (x # y) # ys)"

text \<open>\<^verbatim>\<open>strings.Join\<close>.\<close>

fun join_with :: "string \<Rightarrow> string list \<Rightarrow> string" where
  "join_with sep [] = []"
| "join_with sep [x] = x"
| "join_with sep (x # y # ys) = x @ sep @ join_with sep (y # ys)"

text \<open>\<^verbatim>\<open>strings.Cut\<close> at a separator of one byte: before, after, found.\<close>

fun cut :: "char \<Rightarrow> string \<Rightarrow> string \<times> string \<times> bool" where
  "cut c [] = ([], [], False)"
| "cut c (x # xs) =
     (if x = c then ([], xs, True)
      else case cut c xs of (b, a, f) \<Rightarrow> (if f then (x # b, a, True) else (x # xs, [], False)))"

text \<open>\<^verbatim>\<open>strings.Index\<close>: the offset of the first occurrence.\<close>

fun index_of :: "string \<Rightarrow> string \<Rightarrow> nat option" where
  "index_of sub [] = (if sub = [] then Some 0 else None)"
| "index_of sub (x # xs) =
     (if prefix sub (x # xs) then Some 0 else map_option Suc (index_of sub xs))"

definition replace_char :: "char \<Rightarrow> char \<Rightarrow> string \<Rightarrow> string" where
  "replace_char a b s = map (\<lambda>c. if c = a then b else c) s"

text \<open>White space as \<^verbatim>\<open>strings.Fields\<close> and \<^verbatim>\<open>strings.TrimSpace\<close> see it in ASCII text.\<close>

definition is_space :: "char \<Rightarrow> bool" where
  "is_space c \<longleftrightarrow> c \<in> {CHR '' '', CHR 0x09, CHR 0x0A, CHR 0x0B, CHR 0x0C, CHR 0x0D}"

definition trim_space :: "string \<Rightarrow> string" where
  "trim_space s = rev (dropWhile is_space (rev (dropWhile is_space s)))"

definition trim_right :: "string \<Rightarrow> string \<Rightarrow> string" where
  "trim_right s cs = rev (dropWhile (\<lambda>c. c \<in> set cs) (rev s))"

fun fields_acc :: "string \<Rightarrow> string \<Rightarrow> string list" where
  "fields_acc cur [] = (if cur = [] then [] else [rev cur])"
| "fields_acc cur (x # xs) =
     (if is_space x then (if cur = [] then fields_acc [] xs else rev cur # fields_acc [] xs)
      else fields_acc (x # cur) xs)"

definition fields :: "string \<Rightarrow> string list" where
  "fields s = fields_acc [] s"

text \<open>
  \<^verbatim>\<open>strings.ToUpper\<close> and \<^verbatim>\<open>strings.ToLower\<close>. They are Unicode functions: besides the ASCII
  letters two runes have an ASCII upper case (U+0131 gives I, U+017F gives S) and two an
  ASCII lower case (U+0130 gives i, U+212A gives k). All other non-ASCII runes map to
  non-ASCII runes; those bytes are left as they are, which no comparison with the ASCII
  names and suffixes of this program can tell apart.
\<close>

definition upper_char :: "char \<Rightarrow> char" where
  "upper_char c = (if CHR ''a'' \<le> c \<and> c \<le> CHR ''z'' then char_of (of_char c - (32::nat)) else c)"

definition lower_char :: "char \<Rightarrow> char" where
  "lower_char c = (if CHR ''A'' \<le> c \<and> c \<le> CHR ''Z'' then char_of (of_char c + (32::nat)) else c)"

fun to_upper :: "string \<Rightarrow> string" where
  "to_upper [] = []"
| "to_upper [c] = [upper_char c]"
| "to_upper (c # d # s) =
     (if c = CHR 0xC4 \<and> d = CHR 0xB1 then CHR ''I'' # to_upper s
      else if c = CHR 0xC5 \<and> d = CHR 0xBF then CHR ''S'' # to_upper s
      else upper_char c # to_upper (d # s))"

fun to_lower :: "string \<Rightarrow> string" where
  "to_lower [] = []"
| "to_lower [c] = [lower_char c]"
| "to_lower [c, d] =
     (if c = CHR 0xC4 \<and> d = CHR 0xB0 then ''i'' else [lower_char c, lower_char d])"
| "to_lower (c # d # e # s) =
     (if c = CHR 0xE2 \<and> d = CHR 0x84 \<and> e = CHR 0xAA then CHR ''k'' # to_lower s
      else if c = CHR 0xC4 \<and> d = CHR 0xB0 then CHR ''i'' # to_lower (e # s)
      else lower_char c # to_lower (d # e # s))"

subsection \<open>Package strconv\<close>

definition digit_val :: "char \<Rightarrow> nat option" where
  "digit_val c = (if CHR ''0'' \<le> c \<and> c \<le> CHR ''9'' then Some (of_char c - 48) else None)"

fun digits_val :: "nat \<Rightarrow> string \<Rightarrow> nat option" where
  "digits_val acc [] = Some acc"
| "digits_val acc (c # cs) =
     (case digit_val c of None \<Rightarrow> None | Some d \<Rightarrow> digits_val (10 * acc + d) cs)"

text \<open>\<^verbatim>\<open>strconv.ParseUint(s, 10, bits)\<close>: decimal digits only, in range.\<close>

definition parse_uint :: "nat \<Rightarrow> string \<Rightarrow> nat result" where
  "parse_uint bits s =
     (if s = [] then Inl (Errorf ''strconv.ParseUint: parsing %q: invalid syntax'' [s])
      else case digits_val 0 s of
             None \<Rightarrow> Inl (Errorf ''strconv.ParseUint: parsing %q: invalid syntax'' [s])
           | Some n \<Rightarrow> if n < 2 ^ bits then Inr n
                       else Inl (Errorf ''strconv.ParseUint: parsing %q: value out of range'' [s]))"

text \<open>\<^verbatim>\<open>strconv.ParseInt(s, 10, bits)\<close> and \<^verbatim>\<open>strconv.Atoi\<close> (64 bits): an optional sign, then digits.\<close>

definition parse_int :: "nat \<Rightarrow> string \<Rightarrow> int result" where
  "parse_int bits s =
     (let neg = has_prefix s ''-'';
          ds = (if neg \<or> has_prefix s ''+'' then drop 1 s else s)
      in if ds = [] then Inl (Errorf ''strconv.ParseInt: parsing %q: invalid syntax'' [s])
         else case digits_val 0 ds of
             None \<Rightarrow> Inl (Errorf ''strconv.ParseInt: parsing %q: invalid syntax'' [s])
           | Some n \<Rightarrow>
               if neg then
                 (if n \<le> 2 ^ (bits - 1) then Inr (- int n)
                  else Inl (Errorf ''strconv.ParseInt: parsing %q: value out of range'' [s]))
               else
                 (if n < 2 ^ (bits - 1) then Inr (int n)
                  else Inl (Errorf ''strconv.ParseInt: parsing %q: value out of range'' [s])))"

definition atoi :: "string \<Rightarrow> int result" where
  "atoi s = parse_int 64 s"

definition digit_char :: "nat \<Rightarrow> char" where
  "digit_char d = char_of (48 + d)"

fun format_nat :: "nat \<Rightarrow> string" where
  "format_nat n = (if n < 10 then [digit_char n] else format_nat (n div 10) @ [digit_char (n mod 10)])"

declare format_nat.simps [simp del]

definition format_int :: "int \<Rightarrow> string" where
  "format_int i = (if i < 0 then CHR ''-'' # format_nat (nat (- i)) else format_nat (nat i))"


subsection \<open>Facts about the string and number functions\<close>

lemma split_on_not_Nil [simp]: "split_on c s \<noteq> []"
  by (cases "(c, s)" rule: split_on.cases) (auto split: list.splits)

lemma split_on_no_sep: "c \<notin> set s \<Longrightarrow> split_on c s = [s]"
  by (induction s) auto

lemma split_on_append_sep: "c \<notin> set x \<Longrightarrow> split_on c (x @ c # s) = x # split_on c s"
  by (induction x) auto

lemma split_on_parts: "x \<in> set (split_on c s) \<Longrightarrow> c \<notin> set x"
proof (induction s arbitrary: x)
  case (Cons a s)
  then show ?case by (cases "split_on c s") (auto split: if_splits)
qed simp

lemma split_on_chars: "x \<in> set (split_on c s) \<Longrightarrow> set x \<subseteq> set s"
proof (induction s arbitrary: x)
  case (Cons a s)
  then show ?case by (cases "split_on c s") (fastforce split: if_splits)+
qed simp

lemma join_split_on: "join_with [c] (split_on c s) = s"
proof (induction s)
  case (Cons a s)
  then show ?case by (cases "split_on c s"; cases "tl (split_on c s)") auto
qed simp

lemma cut_found: "c \<notin> set x \<Longrightarrow> cut c (x @ c # s) = (x, s, True)"
  by (induction x) auto

lemma cut_none: "c \<notin> set s \<Longrightarrow> cut c s = (s, [], False)"
  by (induction s) auto

lemma cut_cases:
  obtains (found) x y where "s = x @ c # y" and "c \<notin> set x" and "cut c s = (x, y, True)"
  | (none) "c \<notin> set s" and "cut c s = (s, [], False)"
proof (cases "c \<in> set s")
  case True
  then obtain x y where "s = x @ c # y" "c \<notin> set x"
    by (meson split_list_first)
  then show ?thesis using found cut_found by blast
next
  case False
  then show ?thesis using none cut_none by blast
qed

lemma trim_prefix_slash: "trim_prefix (CHR ''/'' # s) ''/'' = s"
  by (simp add: trim_prefix_def)

lemma digit_val_digit_char: "d < 10 \<Longrightarrow> digit_val (digit_char d) = Some d"
proof -
  assume "d < 10"
  then have "d \<in> {0, 1, 2, 3, 4, 5, 6, 7, 8, 9}" by auto
  then show ?thesis
    by (auto simp: digit_val_def digit_char_def less_eq_char_def)
qed

lemma digits_val_append:
  "digits_val a (xs @ ys) = (case digits_val a xs of None \<Rightarrow> None | Some b \<Rightarrow> digits_val b ys)"
  by (induction xs arbitrary: a) (auto split: option.splits)

lemma digits_val_format_nat: "digits_val 0 (format_nat n) = Some n"
proof (induction n rule: format_nat.induct)
  case (1 n)
  show ?case
  proof (cases "n < 10")
    case True
    then show ?thesis by (subst format_nat.simps) (simp add: digit_val_digit_char)
  next
    case False
    with 1 have "digits_val 0 (format_nat (n div 10)) = Some (n div 10)" by simp
    with False show ?thesis
      by (subst format_nat.simps) (simp add: digits_val_append digit_val_digit_char)
  qed
qed

lemma format_nat_not_Nil [simp]: "format_nat n \<noteq> []"
  by (subst format_nat.simps) simp

lemma parse_uint_format: "n < 2 ^ bits \<Longrightarrow> parse_uint bits (format_nat n) = Inr n"
  by (simp add: parse_uint_def digits_val_format_nat)

lemma digits_val_chars: "digits_val a s = Some n \<Longrightarrow> c \<in> set s \<Longrightarrow> digit_val c \<noteq> None"
  by (induction s arbitrary: a) (auto split: option.splits)

lemma format_nat_chars: "c \<in> set (format_nat n) \<Longrightarrow> digit_val c \<noteq> None"
  using digits_val_chars digits_val_format_nat by blast

lemma format_nat_no_sign:
  "\<not> has_prefix (format_nat n) ''-''" "\<not> has_prefix (format_nat n) ''+''"
proof -
  have "CHR ''-'' \<notin> set (format_nat n)" "CHR ''+'' \<notin> set (format_nat n)"
    using format_nat_chars by (fastforce simp: digit_val_def less_eq_char_def)+
  then show "\<not> has_prefix (format_nat n) ''-''" "\<not> has_prefix (format_nat n) ''+''"
    by (auto simp: prefix_def)
qed

lemma parse_int_format:
  "- (2 ^ (bits - 1)) \<le> i \<Longrightarrow> i < 2 ^ (bits - 1) \<Longrightarrow> parse_int bits (format_int i) = Inr i"
proof -
  assume lo: "- (2 ^ (bits - 1)) \<le> i" and hi: "i < 2 ^ (bits - 1)"
  show ?thesis
  proof (cases "i < 0")
    case True
    have "int (nat (- i)) \<le> int (2 ^ (bits - 1))" using lo True by simp
    then have "nat (- i) \<le> 2 ^ (bits - 1)" by (simp only: of_nat_le_iff)
    with True show ?thesis
      by (simp add: parse_int_def format_int_def digits_val_format_nat)
  next
    case False
    have "int (nat i) < int (2 ^ (bits - 1))" using hi False by simp
    then have "nat i < 2 ^ (bits - 1)" by (simp only: of_nat_less_iff)
    with False show ?thesis
      by (simp add: parse_int_def format_int_def digits_val_format_nat format_nat_no_sign Let_def)
  qed
qed

lemma of_nat_pow2_iffs:
  "int n \<le> 2 ^ k \<longleftrightarrow> n \<le> 2 ^ k" "int n < 2 ^ k \<longleftrightarrow> n < 2 ^ k"
  by (metis of_nat_le_iff of_nat_numeral of_nat_power)
    (metis of_nat_less_iff of_nat_numeral of_nat_power)

lemma parse_int_range:
  assumes "parse_int bits s = Inr i"
  shows "- (2 ^ (bits - 1)) \<le> i \<and> i < 2 ^ (bits - 1)"
proof -
  from assms obtain n where
    "(i = - int n \<and> n \<le> 2 ^ (bits - 1)) \<or> (i = int n \<and> n < 2 ^ (bits - 1))"
    by (auto simp: parse_int_def Let_def split: if_splits option.splits)
  then show ?thesis
  proof
    assume n: "i = - int n \<and> n \<le> 2 ^ (bits - 1)"
    then have "int n \<le> 2 ^ (bits - 1)" by (simp add: of_nat_pow2_iffs)
    moreover have "- int n < 2 ^ (bits - 1)"
      by (rule order.strict_trans1 [where b = 0]) simp_all
    ultimately show ?thesis using n by simp
  next
    assume n: "i = int n \<and> n < 2 ^ (bits - 1)"
    then have "int n < 2 ^ (bits - 1)" by (simp add: of_nat_pow2_iffs)
    moreover have "- (2 ^ (bits - 1)) \<le> int n"
      by (rule order.trans [where b = 0]) simp_all
    ultimately show ?thesis using n by simp
  qed
qed

lemma parse_uint_range: "parse_uint bits s = Inr n \<Longrightarrow> n < 2 ^ bits"
  by (auto simp: parse_uint_def split: if_splits option.splits)

subsection \<open>Constant tables\<close>

text \<open>
  A Go map literal with string keys is an association list; the compiler rejects duplicate
  keys, so its reading as a map is the whole story. A table whose values are distinct too
  can be read backwards.
\<close>

locale name_table =
  fixes tbl :: "(string \<times> 'v) list"
  assumes keys_distinct: "distinct (map fst tbl)"
begin

lemma lookup_iff: "map_of tbl k = Some v \<longleftrightarrow> (k, v) \<in> set tbl"
  using keys_distinct by simp

lemma lookup_None_iff: "map_of tbl k = None \<longleftrightarrow> k \<notin> fst ` set tbl"
  by (simp add: map_of_eq_None_iff)

lemma lookup_Some_value: "map_of tbl k = Some v \<Longrightarrow> v \<in> snd ` set tbl"
  by (force simp: lookup_iff)

end

text \<open>
  A table whose numbers are strictly increasing, as the generated ones are written, gives no
  number two names; the check is linear in the table.
\<close>

fun increasing :: "(string \<times> nat) list \<Rightarrow> bool" where
  "increasing ((a, m) # (b, n) # t) = (m < n \<and> increasing ((b, n) # t))"
| "increasing t = True"

lemma increasing_sorted: "increasing t \<Longrightarrow> sorted_wrt (<) (map snd t)"
proof (induction t rule: increasing.induct)
  case (1 a m b n t)
  then show ?case by (auto intro: order.strict_trans)
qed simp_all

lemma increasing_distinct: "increasing t \<Longrightarrow> distinct (map snd t)"
  by (drule increasing_sorted) (simp add: strict_sorted_iff)

locale numbered_table =
  fixes tbl :: "(string \<times> 'v) list"
  assumes values_distinct: "distinct (map snd tbl)"
begin

lemma lookup_inj: "map_of tbl k = Some v \<Longrightarrow> map_of tbl k' = Some v \<Longrightarrow> k = k'"
proof -
  assume "map_of tbl k = Some v" "map_of tbl k' = Some v"
  then have "(k, v) \<in> set tbl" "(k', v) \<in> set tbl" by (simp_all add: map_of_SomeD)
  moreover have "inj_on snd (set tbl)"
    using values_distinct by (simp add: distinct_map)
  ultimately have "(k, v) = (k', v)"
    by (intro inj_onD [of snd "set tbl"]) simp_all
  then show "k = k'" by simp
qed

end

locale injective_table = name_table tbl + numbered_table tbl for tbl :: "(string \<times> 'v) list"
begin

lemma lookup_iff_name: "map_of tbl k = Some v \<Longrightarrow> (k', v) \<in> set tbl \<longleftrightarrow> k' = k"
  using lookup_inj [of k v k'] lookup_iff by auto

end

end
