(* ===== verification/Effects.thy ===== *)
theory Effects
  imports Go_Prelude
begin

section \<open>Programs that call the operating system\<close>

text \<open>
  The operating system is a parameter: a \<open>world\<close> answers each call in a state of its own. A step
  of the code is a \<open>prog\<close>, a function from the state of the world and the log of the calls made so
  far with their answers to a result or an error and the new state and log. A theorem about all
  worlds holds whatever the system answers, and the log lets it speak of the order of the calls.
\<close>

type_synonym ('c, 'v, 'k) world = "'c \<Rightarrow> 'k \<Rightarrow> (errno + 'v) \<times> 'k"
type_synonym ('c, 'v, 'k) run = "'k \<times> ('c \<times> (errno + 'v)) list"
type_synonym ('c, 'v, 'k, 'a) prog = "('c, 'v, 'k) run \<Rightarrow> 'a result \<times> ('c, 'v, 'k) run"

definition sys ::
  "('c, 'v, 'k) world \<Rightarrow> 'c \<Rightarrow> ('c, 'v, 'k) run \<Rightarrow> (errno + 'v) \<times> ('c, 'v, 'k) run" where
  "sys K c p = (case p of (k, log) \<Rightarrow> case K c k of (r, k') \<Rightarrow> (r, (k', log @ [(c, r)])))"

subsection \<open>Sequencing\<close>

definition ret :: "'a \<Rightarrow> ('c, 'v, 'k, 'a) prog" where
  "ret x p = (Inr x, p)"

definition fail :: "goerr \<Rightarrow> ('c, 'v, 'k, 'a) prog" where
  "fail e p = (Inl e, p)"

definition lift :: "'a result \<Rightarrow> ('c, 'v, 'k, 'a) prog" where
  "lift r p = (r, p)"

definition andthen :: "('c, 'v, 'k, 'a) prog \<Rightarrow> ('a \<Rightarrow> ('c, 'v, 'k, 'b) prog) \<Rightarrow> ('c, 'v, 'k, 'b) prog" where
  "andthen m f p = (case m p of (Inl e, p') \<Rightarrow> (Inl e, p') | (Inr x, p') \<Rightarrow> f x p')"

definition wrap_eff :: "string \<Rightarrow> string list \<Rightarrow> ('c, 'v, 'k, 'a) prog \<Rightarrow> ('c, 'v, 'k, 'a) prog" where
  "wrap_eff s args m p = (case m p of (r, p') \<Rightarrow> (ewrap s args r, p'))"

text \<open>A call whose errno becomes the Go error.\<close>

definition syscall :: "('c, 'v, 'k) world \<Rightarrow> 'c \<Rightarrow> ('c, 'v, 'k, 'v) prog" where
  "syscall K c p = (case sys K c p of (Inl n, p') \<Rightarrow> (Inl (Errno n), p') | (Inr v, p') \<Rightarrow> (Inr v, p'))"

fun for_each :: "('a \<Rightarrow> ('c, 'v, 'k, unit) prog) \<Rightarrow> 'a list \<Rightarrow> ('c, 'v, 'k, unit) prog" where
  "for_each f [] = ret ()"
| "for_each f (x # xs) = andthen (f x) (\<lambda>_. for_each f xs)"

subsection \<open>Which calls a step makes, and in which order\<close>

text \<open>
  \<open>emits ph lo hi m\<close>: whatever the kernel answers, the calls \<open>m\<close> makes have non-decreasing
  phases between \<open>lo\<close> and \<open>hi\<close>.
\<close>

definition emits :: "('c \<Rightarrow> nat) \<Rightarrow> nat \<Rightarrow> nat \<Rightarrow> ('c, 'v, 'k, 'a) prog \<Rightarrow> bool" where
  "emits ph lo hi m \<longleftrightarrow>
     (\<forall>p. \<exists>new. snd (snd (m p)) = snd p @ new \<and> sorted (map (ph \<circ> fst) new) \<and>
        (\<forall>c \<in> set new. lo \<le> ph (fst c) \<and> ph (fst c) \<le> hi))"

named_theorems emits_intros \<open>ordering of the calls of compound steps\<close>

lemma emits_weaken: "emits ph lo hi m \<Longrightarrow> lo' \<le> lo \<Longrightarrow> hi \<le> hi' \<Longrightarrow> emits ph lo' hi' m"
  unfolding emits_def by (meson order.trans)

lemma emits_ret [emits_intros]: "emits ph lo hi (ret x)"
  and emits_fail [emits_intros]: "emits ph lo hi (fail e)"
  and emits_lift [emits_intros]: "emits ph lo hi (lift r)"
  by (simp_all add: emits_def ret_def fail_def lift_def)

lemma emits_syscall [emits_intros]: "lo \<le> ph c \<Longrightarrow> ph c \<le> hi \<Longrightarrow> emits ph lo hi (syscall K c)"
  by (auto simp: emits_def syscall_def sys_def split: prod.split sum.split)

lemma snd_wrap_eff [simp]: "snd (wrap_eff s a m p) = snd (m p)"
  by (simp add: wrap_eff_def case_prod_beta)

lemma emits_wrap [emits_intros]: "emits ph lo hi m \<Longrightarrow> emits ph lo hi (wrap_eff s a m)"
  by (simp add: emits_def)

lemma emits_andthen:
  assumes m: "emits ph lo mid m" and f: "\<And>x. emits ph mid hi (f x)" and "lo \<le> mid" and "mid \<le> hi"
  shows "emits ph lo hi (andthen m f)"
  unfolding emits_def
proof
  fix p
  obtain r q where mp: "m p = (r, q)" by (cases "m p")
  obtain new where new: "snd q = snd p @ new" "sorted (map (ph \<circ> fst) new)"
    "\<forall>c \<in> set new. lo \<le> ph (fst c) \<and> ph (fst c) \<le> mid"
    using m mp unfolding emits_def by (metis snd_conv)
  show "\<exists>new. snd (snd (andthen m f p)) = snd p @ new \<and> sorted (map (ph \<circ> fst) new) \<and>
      (\<forall>c \<in> set new. lo \<le> ph (fst c) \<and> ph (fst c) \<le> hi)"
  proof (cases r)
    case (Inl e)
    then show ?thesis using new mp assms(4) by (fastforce simp: andthen_def)
  next
    case (Inr x)
    obtain new' where new': "snd (snd (f x q)) = snd q @ new'" "sorted (map (ph \<circ> fst) new')"
      "\<forall>c \<in> set new'. mid \<le> ph (fst c) \<and> ph (fst c) \<le> hi"
      using f unfolding emits_def by blast
    then have "snd (snd (andthen m f p)) = snd p @ (new @ new')"
      using Inr mp new(1) by (simp add: andthen_def)
    moreover have "sorted (map (ph \<circ> fst) (new @ new'))"
      using new new' by (auto simp: sorted_append intro: order.trans)
    moreover have "\<forall>c \<in> set (new @ new'). lo \<le> ph (fst c) \<and> ph (fst c) \<le> hi"
      using new(3) new'(3) assms(3,4) by (auto intro: order.trans)
    ultimately show ?thesis by blast
  qed
qed

lemma emits_then:
  assumes "emits ph a b m" and "\<And>x. emits ph c d (f x)" and "a \<le> b" and "b \<le> c" and "c \<le> d"
  shows "emits ph a d (andthen m f)"
proof (rule emits_andthen [where mid = b])
  show "emits ph b d (f x)" for x using assms(2,4) by (rule emits_weaken) simp
qed (use assms in auto)

lemma emits_for_each [emits_intros]:
  "(\<And>x. x \<in> set xs \<Longrightarrow> emits ph n n (f x)) \<Longrightarrow> emits ph n n (for_each f xs)"
  by (induction xs) (auto intro!: emits_andthen emits_ret)

lemma andthen_Inr:
  "andthen m f p = (Inr y, q) \<longleftrightarrow> (\<exists>x p'. m p = (Inr x, p') \<and> f x p' = (Inr y, q))"
  by (auto simp: andthen_def split: prod.splits sum.splits)

lemma wrap_eff_Inr: "wrap_eff s a m p = (Inr y, q) \<longleftrightarrow> m p = (Inr y, q)"
  by (auto simp: wrap_eff_def ewrap_eq_Inr split: prod.splits)

lemma ret_Inr: "ret x p = (Inr y, q) \<longleftrightarrow> y = x \<and> q = p"
  by (auto simp: ret_def)

lemma fail_Inr: "fail e p = (Inr y, q) \<longleftrightarrow> False"
  by (simp add: fail_def)

lemma lift_Inr: "lift r p = (Inr y, q) \<longleftrightarrow> r = Inr y \<and> q = p"
  by (auto simp: lift_def)

lemma syscall_Inr:
  "syscall K c (k, log) = (Inr v, q) \<longleftrightarrow> (\<exists>k'. K c k = (Inr v, k') \<and> q = (k', log @ [(c, Inr v)]))"
  by (auto simp: syscall_def sys_def split: prod.splits sum.splits)

lemma syscall_log:
  assumes "syscall K c p = (r, q)"
  shows "(\<exists>v. r = Inr v \<and> snd q = snd p @ [(c, Inr v)]) \<or>
    (\<exists>n. r = Inl (Errno n) \<and> snd q = snd p @ [(c, Inl n)])"
  using assms by (auto simp: syscall_def sys_def split: prod.splits sum.splits)

lemma syscall_Inr_log: "syscall K c p = (Inr v, q) \<Longrightarrow> snd q = snd p @ [(c, Inr v)]"
  using syscall_log by fastforce

text \<open>Running a program step by step.\<close>

lemma run_then: "m p = (Inr x, q) \<Longrightarrow> f x q = r \<Longrightarrow> andthen m f p = r"
  by (simp only: andthen_def prod.case sum.case)

lemma wrap_run: "m p = (Inr x, q) \<Longrightarrow> wrap_eff s a m p = (Inr x, q)"
  by (simp only: wrap_eff_def prod.case ewrap_Inr)

lemma lift_run: "v = Inr x \<Longrightarrow> lift v p = (Inr x, p)"
  by (simp only: lift_def)

lemma ret_run: "ret x p = (Inr x, p)"
  by (simp only: ret_def)

lemmas eff_Inr = andthen_Inr wrap_eff_Inr ret_Inr fail_Inr lift_Inr syscall_Inr

subsection \<open>Which calls a step may make, and what it may return\<close>

text \<open>A step whose error the code looks at instead of passing it on.\<close>

definition attempt :: "('c, 'v, 'k, 'a) prog \<Rightarrow> ('c, 'v, 'k, 'a result) prog" where
  "attempt m p = (case m p of (r, p') \<Rightarrow> (Inr r, p'))"

lemma ex_unit: "(\<exists>x. P (x :: unit)) \<longleftrightarrow> P ()"
  by auto

lemma attempt_Inr: "attempt m p = (Inr r, q) \<longleftrightarrow> m p = (r, q)"
  by (auto simp: attempt_def split: prod.splits)

lemma if_eff_Inr:
  "(if b then fail e else m) p = (Inr y, q) \<longleftrightarrow> \<not> b \<and> m p = (Inr y, q)"
  "(if b then m else fail e) p = (Inr y, q) \<longleftrightarrow> b \<and> m p = (Inr y, q)"
  by (simp_all add: fail_def)

lemma sum_eff_Inr:
  "(case r of Inl e \<Rightarrow> fail (g e) | Inr x \<Rightarrow> f x) p = (Inr y, q) \<longleftrightarrow> (\<exists>x. r = Inr x \<and> f x p = (Inr y, q))"
  by (cases r) (simp_all add: fail_def)

text \<open>
  \<open>only P m\<close>: whatever the world answers, \<open>m\<close> makes only calls with \<open>P\<close>.
  \<open>yields Q m\<close>: whatever the world answers, a result of \<open>m\<close> has \<open>Q\<close>.
\<close>

definition only :: "('c \<Rightarrow> bool) \<Rightarrow> ('c, 'v, 'k, 'a) prog \<Rightarrow> bool" where
  "only P m \<longleftrightarrow> (\<forall>p. \<exists>new. snd (snd (m p)) = snd p @ new \<and> list_all (P \<circ> fst) new)"

definition yields :: "('a \<Rightarrow> bool) \<Rightarrow> ('c, 'v, 'k, 'a) prog \<Rightarrow> bool" where
  "yields Q m \<longleftrightarrow> (\<forall>p x q. m p = (Inr x, q) \<longrightarrow> Q x)"

named_theorems only_intros \<open>calls of compound steps\<close>

lemma onlyE:
  assumes "only P m"
  obtains new where "snd (snd (m p)) = snd p @ new" "list_all (P \<circ> fst) new"
  using assms unfolding only_def by blast

lemma yieldsD: "yields Q m \<Longrightarrow> m p = (Inr x, q) \<Longrightarrow> Q x"
  unfolding yields_def by blast

lemma only_ret [only_intros]: "only P (ret x)"
  and only_fail [only_intros]: "only P (fail e)"
  and only_lift [only_intros]: "only P (lift r)"
  by (simp_all add: only_def ret_def fail_def lift_def)

lemma only_syscall [only_intros]: "P c \<Longrightarrow> only P (syscall K c)"
  by (auto simp: only_def syscall_def sys_def split: prod.split sum.split)

lemma only_wrap [only_intros]: "only P m \<Longrightarrow> only P (wrap_eff s a m)"
  by (simp add: only_def)

lemma only_attempt [only_intros]: "only P m \<Longrightarrow> only P (attempt m)"
  by (simp add: only_def attempt_def case_prod_beta)

lemma only_bind:
  assumes m: "only P m" and "yields Q m" and f: "\<And>x. Q x \<Longrightarrow> only P (f x)"
  shows "only P (andthen m f)"
  unfolding only_def
proof
  fix p
  obtain new where new: "snd (snd (m p)) = snd p @ new" "list_all (P \<circ> fst) new"
    using m by (rule onlyE)
  obtain r q where mp: "m p = (r, q)" by (cases "m p")
  show "\<exists>new. snd (snd (andthen m f p)) = snd p @ new \<and> list_all (P \<circ> fst) new"
  proof (cases r)
    case (Inl e)
    then show ?thesis using mp new by (auto simp: andthen_def)
  next
    case (Inr x)
    then have "only P (f x)" using mp assms(2) by (intro f) (auto dest: yieldsD)
    then obtain new' where "snd (snd (f x q)) = snd q @ new'" "list_all (P \<circ> fst) new'"
      by (rule onlyE)
    then show ?thesis using Inr mp new by (intro exI [of _ "new @ new'"]) (auto simp: andthen_def)
  qed
qed

lemma only_andthen [only_intros]:
  "only P m \<Longrightarrow> (\<And>x. only P (f x)) \<Longrightarrow> only P (andthen m f)"
  by (rule only_bind [where Q = "\<lambda>_. True"]) (auto simp: yields_def)

lemma only_for_each [only_intros]:
  "(\<And>x. x \<in> set xs \<Longrightarrow> only P (f x)) \<Longrightarrow> only P (for_each f xs)"
  by (induction xs) (auto intro!: only_intros)

lemma only_if [only_intros]: "(b \<Longrightarrow> only P m) \<Longrightarrow> (\<not> b \<Longrightarrow> only P n) \<Longrightarrow> only P (if b then m else n)"
  by simp

lemma only_option [only_intros]:
  "(x = None \<Longrightarrow> only P m) \<Longrightarrow> (\<And>y. x = Some y \<Longrightarrow> only P (f y)) \<Longrightarrow>
   only P (case x of None \<Rightarrow> m | Some y \<Rightarrow> f y)"
  by (cases x) simp_all

lemma only_sum [only_intros]:
  "(\<And>e. x = Inl e \<Longrightarrow> only P (f e)) \<Longrightarrow> (\<And>y. x = Inr y \<Longrightarrow> only P (g y)) \<Longrightarrow>
   only P (case x of Inl e \<Rightarrow> f e | Inr y \<Rightarrow> g y)"
  by (cases x) simp_all

lemma only_mono: "only P m \<Longrightarrow> (\<And>c. P c \<Longrightarrow> P' c) \<Longrightarrow> only P' m"
  unfolding only_def by (metis comp_apply list.pred_mono_strong)

lemma only_log: "only P m \<Longrightarrow> m p = (r, q) \<Longrightarrow> \<exists>new. snd q = snd p @ new \<and> list_all (P \<circ> fst) new"
  unfolding only_def by (metis snd_conv)

lemma log_grows: "only P m \<Longrightarrow> m p = (r, q) \<Longrightarrow> set (snd p) \<subseteq> set (snd q)"
  using only_log by fastforce

text \<open>A loop that ran to its end ran every round to its end.\<close>

lemma for_each_done:
  assumes "for_each f xs p = (Inr (), q)" and "\<And>x. only P (f x)" and "x \<in> set xs"
  shows "\<exists>p1 q1. f x p1 = (Inr (), q1) \<and> set (snd q1) \<subseteq> set (snd q)"
  using assms(1,3)
proof (induction xs arbitrary: p)
  case (Cons y ys)
  then obtain p1 where p1: "f y p = (Inr (), p1)" "for_each f ys p1 = (Inr (), q)"
    by (auto simp: andthen_Inr simp del: split_paired_Ex)
  have "set (snd p1) \<subseteq> set (snd q)"
    by (rule log_grows [OF only_for_each p1(2)]) (rule assms(2))
  then show ?case
    using p1 Cons.IH [OF p1(2)] Cons.prems(2) by (cases "x = y") (blast, simp del: split_paired_Ex)
qed simp

end
