(* ===== verification/Go_Paths.thy ===== *)
theory Go_Paths
  imports Go_Prelude
begin

section \<open>Package path/filepath on Linux\<close>

text \<open>
  \<^verbatim>\<open>filepath.Clean\<close>, \<^verbatim>\<open>Join\<close>, \<^verbatim>\<open>Dir\<close>, \<^verbatim>\<open>IsAbs\<close>, \<^verbatim>\<open>Abs\<close> and \<^verbatim>\<open>Rel\<close> as documented: purely
  lexical functions on strings with \<open>/\<close> as the separator. The lemmas describe them on cleaned
  absolute paths, which are \<open>path_of cs\<close> for a list \<open>cs\<close> of normal components.
\<close>

text \<open>One component at a time; \<open>acc\<close> is the output so far, last component first.\<close>

fun clean_comps :: "bool \<Rightarrow> string list \<Rightarrow> string list \<Rightarrow> string list" where
  "clean_comps rooted acc [] = rev acc"
| "clean_comps rooted acc (c # cs) =
     (if c = [] \<or> c = ''.'' then clean_comps rooted acc cs
      else if c = ''..'' then
        (case acc of
           [] \<Rightarrow> if rooted then clean_comps rooted [] cs else clean_comps rooted [''..''] cs
         | a # as \<Rightarrow> if a = ''..'' then clean_comps rooted (''..'' # acc) cs
                     else clean_comps rooted as cs)
      else clean_comps rooted (c # acc) cs)"

definition clean :: "string \<Rightarrow> string" where
  "clean s =
     (if s = [] then ''.''
      else
        let rooted = has_prefix s ''/'';
            body = join_with ''/'' (clean_comps rooted [] (split_on CHR ''/'' s))
        in if rooted then ''/'' @ body else if body = [] then ''.'' else body)"

definition is_abs :: "string \<Rightarrow> bool" where
  "is_abs s = has_prefix s ''/''"

text \<open>\<^verbatim>\<open>filepath.Join\<close>: leading empty elements are dropped, the rest joined and cleaned.\<close>

definition join_path :: "string list \<Rightarrow> string" where
  "join_path elems =
     (case dropWhile (\<lambda>e. e = []) elems of [] \<Rightarrow> [] | es \<Rightarrow> clean (join_with ''/'' es))"

text \<open>\<^verbatim>\<open>filepath.Dir\<close>: everything up to the last separator, cleaned.\<close>

definition dir_of :: "string \<Rightarrow> string" where
  "dir_of s = clean (rev (dropWhile (\<lambda>c. c \<noteq> CHR ''/'') (rev s)))"

text \<open>\<^verbatim>\<open>filepath.Abs\<close> in a process whose working directory is \<open>cwd\<close>.\<close>

definition abs_path :: "string \<Rightarrow> string \<Rightarrow> string" where
  "abs_path cwd s = (if is_abs s then clean s else join_path [cwd, s])"

text \<open>\<^verbatim>\<open>filepath.Rel\<close> of two paths that are both absolute (or both relative).\<close>

fun drop_common :: "string list \<Rightarrow> string list \<Rightarrow> string list \<times> string list" where
  "drop_common (b # bs) (t # ts) = (if b = t then drop_common bs ts else (b # bs, t # ts))"
| "drop_common bs ts = (bs, ts)"

definition rel_path :: "string \<Rightarrow> string \<Rightarrow> string result" where
  "rel_path base targ =
     (if is_abs base \<noteq> is_abs targ
      then Inl (Errorf ''Rel: can't make %s relative to %s'' [targ, base])
      else
        let comps = (\<lambda>s. filter (\<lambda>c. c \<noteq> [] \<and> c \<noteq> ''.'') (split_on CHR ''/'' (clean s)));
            (bs, ts) = drop_common (comps base) (comps targ);
            up = replicate (length bs) ''..'' @ ts
        in if ''..'' \<in> set bs then Inl (Errorf ''Rel: can't make %s relative to %s'' [targ, base])
           else Inr (if up = [] then ''.'' else join_with ''/'' up))"

subsection \<open>Cleaned absolute paths as component lists\<close>

definition normal :: "string \<Rightarrow> bool" where
  "normal c \<longleftrightarrow> c \<noteq> [] \<and> c \<noteq> ''.'' \<and> c \<noteq> ''..'' \<and> CHR ''/'' \<notin> set c"

fun path_of :: "string list \<Rightarrow> string" where
  "path_of [] = []"
| "path_of (c # cs) = CHR ''/'' # c @ path_of cs"

lemma normalD:
  "normal c \<Longrightarrow> c \<noteq> []" "normal c \<Longrightarrow> c \<noteq> ''.''" "normal c \<Longrightarrow> c \<noteq> ''..''"
  "normal c \<Longrightarrow> CHR ''/'' \<notin> set c"
  by (simp_all add: normal_def)

lemma normalI:
  "c \<noteq> [] \<Longrightarrow> c \<noteq> ''.'' \<Longrightarrow> c \<noteq> ''..'' \<Longrightarrow> CHR ''/'' \<notin> set c \<Longrightarrow> normal c"
  by (simp add: normal_def)

lemma path_of_append [path_simps]: "path_of (as @ bs) = path_of as @ path_of bs"
  by (induction as) auto

lemma path_of_join: "cs \<noteq> [] \<Longrightarrow> path_of cs = ''/'' @ join_with ''/'' cs"
proof (induction cs)
  case (Cons c cs)
  then show ?case by (cases cs) auto
qed simp

lemma split_path_of:
  "(\<And>c. c \<in> set cs \<Longrightarrow> CHR ''/'' \<notin> set c) \<Longrightarrow> split_on CHR ''/'' (path_of cs) = [] # cs"
proof (induction cs)
  case (Cons c cs)
  show ?case
  proof (cases cs)
    case Nil
    then show ?thesis using Cons.prems by (simp add: split_on_no_sep)
  next
    case (Cons d ds)
    then obtain s where s: "path_of cs = CHR ''/'' # s" by auto
    have "split_on CHR ''/'' (c @ path_of cs) = c # split_on CHR ''/'' s"
      using Cons.prems s by (simp add: split_on_append_sep)
    moreover have "split_on CHR ''/'' (path_of cs) = [] # split_on CHR ''/'' s" by (simp add: s)
    moreover have "split_on CHR ''/'' (path_of cs) = [] # cs"
      using Cons.prems by (intro Cons.IH) simp
    ultimately have "split_on CHR ''/'' (c @ path_of cs) = c # cs" by simp
    then show ?thesis by simp
  qed
qed simp

lemma path_of_inject:
  assumes "\<And>c. c \<in> set as \<union> set bs \<Longrightarrow> CHR ''/'' \<notin> set c" and "path_of as = path_of bs"
  shows "as = bs"
proof -
  have "split_on CHR ''/'' (path_of as) = [] # as" "split_on CHR ''/'' (path_of bs) = [] # bs"
    by (rule split_path_of, use assms(1) in blast)+
  then have "[] # as = [] # bs" by (simp only: assms(2))
  then show ?thesis by (simp only: list.inject)
qed

lemma clean_comps_normal:
  "list_all normal cs \<Longrightarrow> clean_comps r acc cs = rev acc @ cs"
proof (induction cs arbitrary: acc)
  case (Cons c cs)
  then have "normal c" and cs: "list_all normal cs" by simp_all
  then show ?case using Cons.IH [OF cs, of "c # acc"] by (simp add: normalD)
qed simp

text \<open>A rooted clean leaves normal components only, whatever it is given.\<close>

lemma clean_comps_rooted:
  "list_all normal acc \<Longrightarrow> \<forall>c \<in> set cs. CHR ''/'' \<notin> set c \<Longrightarrow>
   list_all normal (clean_comps True acc cs)"
proof (induction cs arbitrary: acc)
  case (Cons c cs)
  then have cs: "\<forall>c \<in> set cs. CHR ''/'' \<notin> set c" and c: "CHR ''/'' \<notin> set c" by simp_all
  show ?case
  proof (cases "c = [] \<or> c = ''.'' \<or> c = ''..''")
    case True
    have "list_all normal (tl acc)" using Cons.prems(1) by (cases acc) simp_all
    then show ?thesis
      using True Cons.IH [OF _ cs] Cons.prems(1) by (cases acc) (auto dest: normalD)
  next
    case False
    then have "list_all normal (c # acc)" using Cons.prems(1) c by (simp add: normalI)
    then show ?thesis using False Cons.IH [OF _ cs] by simp
  qed
qed (simp add: list_all_rev)

definition clean_abs_comps :: "string \<Rightarrow> string list" where
  "clean_abs_comps s = clean_comps True [] (split_on CHR ''/'' s)"

lemma clean_abs_comps_normal: "list_all normal (clean_abs_comps s)"
  unfolding clean_abs_comps_def
  by (rule clean_comps_rooted) (auto dest: split_on_parts)

lemma clean_rooted:
  "clean (CHR ''/'' # s) =
     (if clean_abs_comps s = [] then ''/'' else path_of (clean_abs_comps s))"
proof -
  have "clean_comps True [] (split_on CHR ''/'' (CHR ''/'' # s)) = clean_abs_comps s"
    by (simp add: clean_abs_comps_def)
  then show ?thesis
    by (auto simp: clean_def path_of_join)
qed

lemma clean_abs_comps_path_of:
  assumes "list_all normal cs" and "path_of cs = CHR ''/'' # s"
  shows "clean_abs_comps s = cs"
proof -
  have "split_on CHR ''/'' (path_of cs) = [] # cs"
    using assms(1) by (intro split_path_of) (auto simp: list_all_iff normal_def)
  then have "split_on CHR ''/'' s = cs" using assms(2) by simp
  then show ?thesis
    using assms(1) by (simp add: clean_abs_comps_def clean_comps_normal)
qed

lemma clean_path_of [path_simps]:
  assumes "list_all normal cs" and "cs \<noteq> []"
  shows "clean (path_of cs) = path_of cs"
proof -
  obtain s where s: "path_of cs = CHR ''/'' # s" using assms(2) by (cases cs) auto
  then show ?thesis
    using clean_abs_comps_path_of [OF assms(1) s] assms(2) by (simp add: clean_rooted s)
qed

lemma is_abs_path_of [path_simps]: "cs \<noteq> [] \<Longrightarrow> is_abs (path_of cs)"
  by (cases cs) (auto simp: is_abs_def)

lemma path_of_not_root: "list_all normal cs \<Longrightarrow> path_of cs \<noteq> ''/''"
  by (cases cs) (auto dest: normalD)

lemma path_of_eq_Nil [simp]: "path_of cs = [] \<longleftrightarrow> cs = []"
  by (cases cs) auto

lemma join_path_Nil_tail: "p \<noteq> [] \<Longrightarrow> join_path [p, q] = clean (p @ ''/'' @ q)"
  by (simp add: join_path_def)

text \<open>Cleaning an absolute path that goes on past a cleaned prefix.\<close>

lemma clean_comps_prefix:
  "list_all normal cs \<Longrightarrow> clean_comps True [] (cs @ ds) = clean_comps True (rev cs) ds"
proof -
  have "list_all normal cs \<Longrightarrow> clean_comps True acc (cs @ ds) = clean_comps True (rev cs @ acc) ds" for acc
  proof (induction cs arbitrary: acc)
    case (Cons c cs)
    then have "normal c" and cs: "list_all normal cs" by simp_all
    then show ?case using Cons.IH [OF cs, of "c # acc"] by (simp add: normalD)
  qed simp
  then show "list_all normal cs \<Longrightarrow> clean_comps True [] (cs @ ds) = clean_comps True (rev cs) ds"
    by simp
qed

lemma split_on_slash_append:
  "split_on CHR ''/'' (a @ CHR ''/'' # b) = split_on CHR ''/'' a @ split_on CHR ''/'' b"
proof (induction a)
  case (Cons x a)
  then show ?case by (cases "split_on CHR ''/'' a") auto
qed simp

lemma clean_path_of_join:
  assumes "list_all normal cs" and "cs \<noteq> []"
  shows "clean (path_of cs @ CHR ''/'' # s) =
    (let ds = clean_comps True (rev cs) (split_on CHR ''/'' s)
     in if ds = [] then ''/'' else path_of ds)"
proof -
  obtain t where t: "path_of cs = CHR ''/'' # t" using assms(2) by (cases cs) auto
  have "split_on CHR ''/'' (path_of cs) = [] # cs"
    using assms(1) by (intro split_path_of) (auto simp: list_all_iff normal_def)
  then have "split_on CHR ''/'' t = cs" by (simp add: t)
  then have "clean_abs_comps (t @ CHR ''/'' # s) = clean_comps True (rev cs) (split_on CHR ''/'' s)"
    using assms(1) by (simp add: clean_abs_comps_def split_on_slash_append clean_comps_prefix)
  then show ?thesis by (simp add: t clean_rooted Let_def)
qed

lemma join_path_normal [path_simps]:
  assumes "list_all normal cs" and "cs \<noteq> []" and "normal c"
  shows "join_path [path_of cs, c] = path_of (cs @ [c])"
proof -
  have "clean_comps True (rev cs) [c] = cs @ [c]"
    using assms(3) by (simp add: normalD)
  then show ?thesis
    using assms by (simp add: join_path_Nil_tail clean_path_of_join split_on_no_sep normalD)
qed

text \<open>A path whose components are all normal cannot leave the directory it is joined to.\<close>

lemma join_path_normals:
  assumes "list_all normal cs" and "cs \<noteq> []" and "list_all normal ds"
  shows "join_path [path_of cs, join_with ''/'' ds] = path_of (cs @ ds)"
proof (cases ds)
  case Nil
  then show ?thesis
    using assms by (simp add: join_path_Nil_tail clean_path_of_join)
next
  case (Cons d ds')
  have "path_of ds = CHR ''/'' # join_with ''/'' ds" using Cons path_of_join [of ds] by simp
  moreover have "split_on CHR ''/'' (path_of ds) = [] # ds"
    using assms(3) by (intro split_path_of) (auto simp: list_all_iff normal_def)
  ultimately have "split_on CHR ''/'' (join_with ''/'' ds) = ds" by simp
  then have "clean_comps True (rev cs) (split_on CHR ''/'' (join_with ''/'' ds)) = cs @ ds"
    using assms(3) by (simp add: clean_comps_normal)
  then show ?thesis
    using assms by (simp add: join_path_Nil_tail clean_path_of_join)
qed

lemma dir_of_path_of [path_simps]:
  assumes "list_all normal cs" and "cs \<noteq> []" and "CHR ''/'' \<notin> set c"
  shows "dir_of (path_of (cs @ [c])) = path_of cs"
proof -
  have "dropWhile (\<lambda>x. x \<noteq> CHR ''/'') (rev c @ CHR ''/'' # rev (path_of cs)) =
      CHR ''/'' # rev (path_of cs)"
    using assms(3) by (subst dropWhile_append2) auto
  then have "dir_of (path_of (cs @ [c])) = clean (path_of cs @ CHR ''/'' # [])"
    by (simp add: dir_of_def path_of_append)
  then show ?thesis
    using assms by (simp add: clean_path_of_join)
qed

end
