(* ===== verification/Oci_Spec.thy ===== *)
theory Oci_Spec
  imports Go_Paths "HOL-Library.List_Lexorder"
begin

section \<open>The OCI runtime-spec types (pkg/oci)\<close>

text \<open>
  The Go structs of \<^verbatim>\<open>pkg/oci/runtime_spec.go\<close> and \<^verbatim>\<open>pkg/oci/state.go\<close> as records, field by
  field. A pointer is an \<open>option\<close>, a slice a list, a \<^verbatim>\<open>map[string]string\<close> an association list;
  fixed-width integers keep their width, and \<^verbatim>\<open>int64\<close> and \<^verbatim>\<open>uint64\<close> are both \<^typ>\<open>64 word\<close>, read
  with \<^const>\<open>sint\<close> and \<^const>\<open>uint\<close>.
\<close>

type_synonym int64 = "64 word"
type_synonym uint64 = "64 word"
type_synonym uint32 = "32 word"
type_synonym uintptr = "64 word"

record box =
  box_height :: uint64
  box_width :: uint64

record user =
  user_uid :: uint32
  user_gid :: uint32
  user_umask :: "uint32 option"
  user_additional_gids :: "uint32 list"
  user_username :: string

record linux_capabilities =
  caps_bounding :: "string list"
  caps_effective :: "string list"
  caps_inheritable :: "string list"
  caps_permitted :: "string list"
  caps_ambient :: "string list"

record posix_rlimit =
  rl_type :: string
  rl_hard :: uint64
  rl_soft :: uint64

record process =
  proc_terminal :: bool
  proc_console_size :: "box option"
  proc_user :: user
  proc_args :: "string list"
  proc_command_line :: string
  proc_env :: "string list option"
  proc_cwd :: string
  proc_capabilities :: "linux_capabilities option"
  proc_rlimits :: "posix_rlimit list"
  proc_no_new_privileges :: bool
  proc_apparmor_profile :: string
  proc_oom_score_adj :: "int64 option"
  proc_selinux_label :: string

record rootfs_spec =
  root_path :: string
  root_readonly :: bool

record id_mapping =
  map_container_id :: uint32
  map_host_id :: uint32
  map_size :: uint32

record mount =
  mnt_destination :: string
  mnt_type :: string
  mnt_source :: string
  mnt_options :: "string list"
  mnt_uid_mappings :: "id_mapping list"
  mnt_gid_mappings :: "id_mapping list"

record hook =
  hook_path :: string
  hook_args :: "string list"
  hook_env :: "string list option"
  hook_timeout :: "int64 option"

record hooks =
  hooks_prestart :: "hook list"
  hooks_create_runtime :: "hook list"
  hooks_create_container :: "hook list"
  hooks_start_container :: "hook list"
  hooks_poststart :: "hook list"
  hooks_poststop :: "hook list"

text \<open>
  The namespace kind is a string type in Go, with eight named constants.
\<close>

type_synonym namespace_type = string

abbreviation PIDNamespace :: namespace_type where "PIDNamespace \<equiv> ''pid''"
abbreviation NetworkNamespace :: namespace_type where "NetworkNamespace \<equiv> ''network''"
abbreviation MountNamespace :: namespace_type where "MountNamespace \<equiv> ''mount''"
abbreviation IPCNamespace :: namespace_type where "IPCNamespace \<equiv> ''ipc''"
abbreviation UTSNamespace :: namespace_type where "UTSNamespace \<equiv> ''uts''"
abbreviation UserNamespace :: namespace_type where "UserNamespace \<equiv> ''user''"
abbreviation CgroupNamespace :: namespace_type where "CgroupNamespace \<equiv> ''cgroup''"
abbreviation TimeNamespace :: namespace_type where "TimeNamespace \<equiv> ''time''"

record namespace =
  ns_type :: namespace_type
  ns_path :: string

record linux_device =
  dev_path :: string
  dev_type :: string
  dev_major :: int64
  dev_minor :: int64
  dev_file_mode :: "uint32 option"
  dev_uid :: "uint32 option"
  dev_gid :: "uint32 option"

record device_cgroup =
  dcg_allow :: bool
  dcg_type :: string
  dcg_major :: "int64 option"
  dcg_minor :: "int64 option"
  dcg_access :: string

record linux_memory =
  mem_limit :: "int64 option"
  mem_reservation :: "int64 option"
  mem_swap :: "int64 option"
  mem_swappiness :: "uint64 option"
  mem_disable_oom_killer :: "bool option"

record linux_cpu =
  cpu_shares :: "uint64 option"
  cpu_quota :: "int64 option"
  cpu_period :: "uint64 option"
  cpu_cpus :: string
  cpu_mems :: string

record linux_pids =
  pids_limit :: int64

record linux_resources =
  res_devices :: "device_cgroup list"
  res_memory :: "linux_memory option"
  res_cpu :: "linux_cpu option"
  res_pids :: "linux_pids option"

type_synonym seccomp_action = string

abbreviation ActKill :: seccomp_action where "ActKill \<equiv> ''SCMP_ACT_KILL''"
abbreviation ActKillProcess :: seccomp_action where "ActKillProcess \<equiv> ''SCMP_ACT_KILL_PROCESS''"
abbreviation ActTrap :: seccomp_action where "ActTrap \<equiv> ''SCMP_ACT_TRAP''"
abbreviation ActErrno :: seccomp_action where "ActErrno \<equiv> ''SCMP_ACT_ERRNO''"
abbreviation ActTrace :: seccomp_action where "ActTrace \<equiv> ''SCMP_ACT_TRACE''"
abbreviation ActAllow :: seccomp_action where "ActAllow \<equiv> ''SCMP_ACT_ALLOW''"
abbreviation ActLog :: seccomp_action where "ActLog \<equiv> ''SCMP_ACT_LOG''"

record seccomp_arg =
  sarg_index :: uint64
  sarg_value :: uint64
  sarg_value_two :: uint64
  sarg_op :: string

record linux_syscall =
  sys_names :: "string list"
  sys_action :: seccomp_action
  sys_errno_ret :: "uint64 option"
  sys_args :: "seccomp_arg list"

record linux_seccomp =
  sc_default_action :: seccomp_action
  sc_default_errno_ret :: "uint64 option"
  sc_architectures :: "string list"
  sc_flags :: "string list"
  sc_syscalls :: "linux_syscall list"

record linux =
  lx_uid_mappings :: "id_mapping list"
  lx_gid_mappings :: "id_mapping list"
  lx_sysctl :: "(string \<times> string) list"
  lx_resources :: "linux_resources option"
  lx_cgroups_path :: string
  lx_namespaces :: "namespace list"
  lx_devices :: "linux_device list"
  lx_seccomp :: "linux_seccomp option"
  lx_rootfs_propagation :: string
  lx_masked_paths :: "string list"
  lx_readonly_paths :: "string list"
  lx_mount_label :: string

record spec =
  spec_version :: string
  spec_process :: "process option"
  spec_root :: "rootfs_spec option"
  spec_hostname :: string
  spec_domainname :: string
  spec_mounts :: "mount list"
  spec_hooks :: "hooks option"
  spec_annotations :: "(string \<times> string) list"
  spec_linux :: "linux option"

text \<open>
  The lifecycle state of \<^verbatim>\<open>pkg/oci/state.go\<close>: a string type with four constants. Nothing stops
  a state file from holding another string, which is \<open>StatusOther\<close>.
\<close>

datatype container_status =
    StatusCreating | StatusCreated | StatusRunning | StatusStopped | StatusOther string

record oci_state =
  st_version :: string
  st_id :: string
  st_status :: container_status
  st_pid :: int
  st_bundle :: string
  st_annotations :: "(string \<times> string) list"

text \<open>The zero values that \<^verbatim>\<open>&oci.Linux{}\<close> and its like denote.\<close>

definition empty_linux :: linux where
  "empty_linux = \<lparr>lx_uid_mappings = [], lx_gid_mappings = [], lx_sysctl = [], lx_resources = None,
     lx_cgroups_path = [], lx_namespaces = [], lx_devices = [], lx_seccomp = None,
     lx_rootfs_propagation = [], lx_masked_paths = [], lx_readonly_paths = [], lx_mount_label = []\<rparr>"

definition empty_resources :: linux_resources where
  "empty_resources = \<lparr>res_devices = [], res_memory = None, res_cpu = None, res_pids = None\<rparr>"

definition empty_capabilities :: linux_capabilities where
  "empty_capabilities = \<lparr>caps_bounding = [], caps_effective = [], caps_inheritable = [],
     caps_permitted = [], caps_ambient = []\<rparr>"

definition empty_hooks :: hooks where
  "empty_hooks = \<lparr>hooks_prestart = [], hooks_create_runtime = [], hooks_create_container = [],
     hooks_start_container = [], hooks_poststart = [], hooks_poststop = []\<rparr>"

text \<open>The lifecycle order: creating, created, running, stopped, then the unknown ones.\<close>

fun status_rank :: "container_status \<Rightarrow> nat" where
  "status_rank StatusCreating = 0"
| "status_rank StatusCreated = 1"
| "status_rank StatusRunning = 2"
| "status_rank StatusStopped = 3"
| "status_rank (StatusOther s) = 4"

fun status_text :: "container_status \<Rightarrow> string" where
  "status_text StatusCreating = ''creating''"
| "status_text StatusCreated = ''created''"
| "status_text StatusRunning = ''running''"
| "status_text StatusStopped = ''stopped''"
| "status_text (StatusOther s) = s"

instantiation container_status :: linorder
begin

definition less_eq_container_status :: "container_status \<Rightarrow> container_status \<Rightarrow> bool" where
  "less_eq_container_status a b \<longleftrightarrow>
     status_rank a < status_rank b \<or> (status_rank a = status_rank b \<and> status_text a \<le> status_text b)"

definition less_container_status :: "container_status \<Rightarrow> container_status \<Rightarrow> bool" where
  "less_container_status a b \<longleftrightarrow> a \<le> b \<and> \<not> b \<le> (a :: container_status)"

instance
proof
  fix x y z :: container_status
  show "x < y \<longleftrightarrow> x \<le> y \<and> \<not> y \<le> x" by (simp add: less_container_status_def)
  show "x \<le> x" by (simp add: less_eq_container_status_def)
  show "x \<le> y \<Longrightarrow> y \<le> z \<Longrightarrow> x \<le> z" by (auto simp: less_eq_container_status_def)
  show "x \<le> y \<Longrightarrow> y \<le> x \<Longrightarrow> x = y"
    by (cases x; cases y) (simp_all add: less_eq_container_status_def)
  show "x \<le> y \<or> y \<le> x" by (auto simp: less_eq_container_status_def)
qed

end

text \<open>The status a string stands for: the four constants are recognised, any other is kept.\<close>

definition status_of_text :: "string \<Rightarrow> container_status" where
  "status_of_text s =
     (if s = ''creating'' then StatusCreating
      else if s = ''created'' then StatusCreated
      else if s = ''running'' then StatusRunning
      else if s = ''stopped'' then StatusStopped
      else StatusOther s)"

lemma status_text_of_text [simp]: "status_text (status_of_text s) = s"
  by (simp add: status_of_text_def)

end
