(* ===== verification/Seccomp.thy ===== *)
theory Seccomp
  imports Oci_Spec Syscalls_Amd64 Syscalls_Arm64 Syscalls_Arm
begin

section \<open>The seccomp compiler (pkg/security/seccomp.go)\<close>

text \<open>
  \<^verbatim>\<open>CompileSeccomp\<close> turns an OCI profile into a classic BPF program. This theory holds the
  compiler, the part of the classic BPF machine its output uses (as bpf(4) documents it), the
  decision a profile stands for, and the proof that running the program gives that decision.
\<close>

unbundle bit_operations_syntax

subsection \<open>Instructions and constants\<close>

record sock_filter =
  sf_code :: "16 word"
  sf_jt :: "8 word"
  sf_jf :: "8 word"
  sf_k :: uint32

definition opLoadAbsWord :: "16 word" where "opLoadAbsWord = 0x00 OR 0x00 OR 0x20"
definition opJumpEqual :: "16 word" where "opJumpEqual = 0x05 OR 0x10 OR 0x00"
definition opJumpGE :: "16 word" where "opJumpGE = 0x05 OR 0x30 OR 0x00"
definition opReturn :: "16 word" where "opReturn = 0x06 OR 0x00"

definition offsetNr :: uint32 where "offsetNr = 0"
definition offsetArch :: uint32 where "offsetArch = 4"

definition retKillProcess :: uint32 where "retKillProcess = 0x80000000"
definition retTrap :: uint32 where "retTrap = 0x00030000"
definition retErrno :: uint32 where "retErrno = 0x00050000"
definition retTrace :: uint32 where "retTrace = 0x7ff00000"
definition retLog :: uint32 where "retLog = 0x7ffc0000"
definition retAllow :: uint32 where "retAllow = 0x7fff0000"
definition retKillThread :: uint32 where "retKillThread = 0x00000000"
definition errnoMask :: uint32 where "errnoMask = 0x0000ffff"

definition maxFilterInstructions :: nat where "maxFilterInstructions = 4096"
definition x32SyscallBit :: uint32 where "x32SyscallBit = 0x40000000"

lemmas opcode_defs = opLoadAbsWord_def opJumpEqual_def opJumpGE_def opReturn_def

text \<open>What differs between the builds for each architecture.\<close>

record arch =
  audit_arch :: uint32
  guard_x32 :: bool
  syscall_numbers :: "(string \<times> nat) list"

definition amd64 :: arch where
  "amd64 = \<lparr>audit_arch = 0xc000003e, guard_x32 = True, syscall_numbers = syscall_numbers_amd64\<rparr>"

definition arm64 :: arch where
  "arm64 = \<lparr>audit_arch = 0xc00000b7, guard_x32 = False, syscall_numbers = syscall_numbers_arm64\<rparr>"

definition arm :: arch where
  "arm = \<lparr>audit_arch = 0x40000028, guard_x32 = False, syscall_numbers = syscall_numbers_arm\<rparr>"

definition other_arch :: arch where
  "other_arch = \<lparr>audit_arch = 0, guard_x32 = False, syscall_numbers = []\<rparr>"

definition errUnsupportedArch :: goerr where
  "errUnsupportedArch = Errorf ''seccomp: this architecture is not supported by lightpod'' []"

subsection \<open>The compiler\<close>

definition action_value :: "seccomp_action \<Rightarrow> uint64 option \<Rightarrow> uint32 result" where
  "action_value action errno_ret =
     (if action = ActAllow then Inr retAllow
      else if action = ActErrno then
        (let errno = (case errno_ret of None \<Rightarrow> 1 | Some r \<Rightarrow> ucast r)
         in Inr (retErrno OR (errno AND errnoMask)))
      else if action = ActKillProcess then Inr retKillProcess
      else if action = ActKill then Inr retKillThread
      else if action = ActTrap then Inr retTrap
      else if action = ActTrace then Inr retTrace
      else if action = ActLog then Inr retLog
      else if action = [] then Inl (Errorf ''action is empty'' [])
      else Inl (Errorf ''unknown action %q'' [action]))"

definition load_instr :: "uint32 \<Rightarrow> sock_filter" where
  "load_instr k = \<lparr>sf_code = opLoadAbsWord, sf_jt = 0, sf_jf = 0, sf_k = k\<rparr>"

definition ret_instr :: "uint32 \<Rightarrow> sock_filter" where
  "ret_instr k = \<lparr>sf_code = opReturn, sf_jt = 0, sf_jf = 0, sf_k = k\<rparr>"

definition jeq_instr :: "8 word \<Rightarrow> 8 word \<Rightarrow> uint32 \<Rightarrow> sock_filter" where
  "jeq_instr jt jf k = \<lparr>sf_code = opJumpEqual, sf_jt = jt, sf_jf = jf, sf_k = k\<rparr>"

definition jge_instr :: "8 word \<Rightarrow> 8 word \<Rightarrow> uint32 \<Rightarrow> sock_filter" where
  "jge_instr jt jf k = \<lparr>sf_code = opJumpGE, sf_jt = jt, sf_jf = jf, sf_k = k\<rparr>"

text \<open>The fixed head: pin the architecture, load the number, and guard against x32.\<close>

definition filter_head :: "arch \<Rightarrow> sock_filter list" where
  "filter_head A =
     [load_instr offsetArch,
      jeq_instr 1 0 (audit_arch A),
      ret_instr retKillProcess,
      load_instr offsetNr] @
     (if guard_x32 A then [jge_instr 0 1 x32SyscallBit, ret_instr retKillProcess] else [])"

text \<open>One rule's inner loop over its names: unknown names are skipped.\<close>

fun compile_names :: "arch \<Rightarrow> uint32 \<Rightarrow> string list \<Rightarrow> sock_filter list" where
  "compile_names A action [] = []"
| "compile_names A action (name # names) =
     (case map_of (syscall_numbers A) name of
        None \<Rightarrow> compile_names A action names
      | Some nr \<Rightarrow> jeq_instr 0 1 (of_nat nr) # ret_instr action # compile_names A action names)"

definition compile_rule ::
  "arch \<Rightarrow> nat \<times> linux_syscall \<Rightarrow> sock_filter list \<Rightarrow> sock_filter list result" where
  "compile_rule A ir flt =
     (let i = fst ir; rule = snd ir
      in if sys_args rule \<noteq> [] then
           Inl (Errorf ''syscalls[%d]: argument-conditional rules are not supported yet'' [format_nat i])
         else
           ebind (ewrap ''syscalls[%d]: %w'' [format_nat i]
                   (action_value (sys_action rule) (sys_errno_ret rule)))
             (\<lambda>action. Inr (flt @ compile_names A action (sys_names rule))))"

definition compile_seccomp :: "arch \<Rightarrow> linux_seccomp \<Rightarrow> sock_filter list result" where
  "compile_seccomp A profile =
     (if audit_arch A = 0 then Inl errUnsupportedArch
      else
        ebind (ewrap ''defaultAction: %w'' []
                (action_value (sc_default_action profile) (sc_default_errno_ret profile)))
          (\<lambda>default_action.
        ebind (each (compile_rule A) (enumerate 0 (sc_syscalls profile)) (filter_head A))
          (\<lambda>body.
        let flt = body @ [ret_instr default_action]
        in if maxFilterInstructions < length flt then
             Inl (Errorf ''seccomp filter is %d instructions, kernel limit is %d''
                    [format_nat (length flt), format_nat maxFilterInstructions])
           else Inr flt)))"

subsection \<open>The classic BPF machine\<close>

text \<open>
  What the kernel shows a filter: \<^verbatim>\<open>struct seccomp_data\<close> with the number and the architecture;
  the instruction pointer and the arguments are the other words of the struct, 64 bytes in all.
\<close>

record seccomp_data =
  sd_nr :: uint32
  sd_arch :: uint32
  sd_rest :: "nat \<Rightarrow> uint32"

definition data_word :: "seccomp_data \<Rightarrow> uint32 \<Rightarrow> uint32 option" where
  "data_word d k =
     (if k = 0 then Some (sd_nr d)
      else if k = 4 then Some (sd_arch d)
      else if k < 64 \<and> 4 dvd unat k then Some (sd_rest d (unat k))
      else None)"

text \<open>
  Execution of the rest of a program with accumulator \<open>a\<close>; jumps go forward only. Leaving the
  program, a bad load or an unknown opcode is \<^const>\<open>None\<close> (the kernel refuses to load these).
\<close>

function bpf_run :: "seccomp_data \<Rightarrow> sock_filter list \<Rightarrow> uint32 \<Rightarrow> uint32 option" where
  "bpf_run d [] a = None"
| "bpf_run d (i # is) a =
     (if sf_code i = opLoadAbsWord then
        (case data_word d (sf_k i) of None \<Rightarrow> None | Some w \<Rightarrow> bpf_run d is w)
      else if sf_code i = opJumpEqual then
        bpf_run d (drop (unat (if a = sf_k i then sf_jt i else sf_jf i)) is) a
      else if sf_code i = opJumpGE then
        bpf_run d (drop (unat (if sf_k i \<le> a then sf_jt i else sf_jf i)) is) a
      else if sf_code i = opReturn then Some (sf_k i)
      else None)"
  by pat_completeness auto
termination
  by (relation "measure (\<lambda>(d, is, a). length is)") auto

declare bpf_run.simps(2) [simp del]

lemma opcode_distinct [simp]:
  "opJumpEqual \<noteq> opLoadAbsWord" "opJumpGE \<noteq> opLoadAbsWord" "opReturn \<noteq> opLoadAbsWord"
  "opJumpGE \<noteq> opJumpEqual" "opReturn \<noteq> opJumpEqual" "opReturn \<noteq> opJumpGE"
  by (simp_all add: opcode_defs)

lemma run_load [simp]:
  "bpf_run d (load_instr offsetArch # is) a = bpf_run d is (sd_arch d)"
  "bpf_run d (load_instr offsetNr # is) a = bpf_run d is (sd_nr d)"
  by (simp_all add: bpf_run.simps(2) load_instr_def offsetArch_def offsetNr_def data_word_def)

lemma run_ret [simp]: "bpf_run d (ret_instr k # is) a = Some k"
  by (simp add: bpf_run.simps(2) ret_instr_def)

lemma run_jeq [simp]:
  "bpf_run d (jeq_instr jt jf k # is) a = bpf_run d (drop (unat (if a = k then jt else jf)) is) a"
  by (simp add: bpf_run.simps(2) jeq_instr_def)

lemma run_jge [simp]:
  "bpf_run d (jge_instr jt jf k # is) a = bpf_run d (drop (unat (if k \<le> a then jt else jf)) is) a"
  by (simp add: bpf_run.simps(2) jge_instr_def)


subsection \<open>The decision a profile stands for\<close>

text \<open>
  Reference semantics: the first listed name that this architecture resolves to the number of
  the call decides, and the default action covers everything else. A foreign architecture, and
  an x32 number where that ABI exists, is killed before any rule is looked at.
\<close>

definition action_known :: "seccomp_action \<Rightarrow> bool" where
  "action_known a \<longleftrightarrow> a \<in> {ActAllow, ActErrno, ActKillProcess, ActKill, ActTrap, ActTrace, ActLog}"

definition action_ret :: "seccomp_action \<Rightarrow> uint64 option \<Rightarrow> uint32" where
  "action_ret a e = (case action_value a e of Inl _ \<Rightarrow> 0 | Inr v \<Rightarrow> v)"

definition rule_ret :: "linux_syscall \<Rightarrow> uint32" where
  "rule_ret r = action_ret (sys_action r) (sys_errno_ret r)"

definition resolves :: "arch \<Rightarrow> uint32 \<Rightarrow> string \<Rightarrow> bool" where
  "resolves A nr name = (case map_of (syscall_numbers A) name of None \<Rightarrow> False | Some n \<Rightarrow> of_nat n = nr)"

definition rule_matches :: "arch \<Rightarrow> uint32 \<Rightarrow> linux_syscall \<Rightarrow> bool" where
  "rule_matches A nr r = list_ex (resolves A nr) (sys_names r)"

definition decision :: "arch \<Rightarrow> linux_seccomp \<Rightarrow> seccomp_data \<Rightarrow> uint32" where
  "decision A p d =
     (if sd_arch d \<noteq> audit_arch A then retKillProcess
      else if guard_x32 A \<and> x32SyscallBit \<le> sd_nr d then retKillProcess
      else case find (rule_matches A (sd_nr d)) (sc_syscalls p) of
             Some r \<Rightarrow> rule_ret r
           | None \<Rightarrow> action_ret (sc_default_action p) (sc_default_errno_ret p))"

subsection \<open>Shape of the output\<close>

definition rules_code :: "arch \<Rightarrow> linux_syscall list \<Rightarrow> sock_filter list" where
  "rules_code A rs = concat (map (\<lambda>r. compile_names A (rule_ret r) (sys_names r)) rs)"

lemma rules_code_simps [simp]:
  "rules_code A [] = []"
  "rules_code A (r # rs) = compile_names A (rule_ret r) (sys_names r) @ rules_code A rs"
  by (simp_all add: rules_code_def)

lemma action_value_ok: "action_known a \<longleftrightarrow> (\<exists>v. action_value a e = Inr v)"
  by (auto simp: action_value_def action_known_def Let_def)

lemma action_value_known: "action_known a \<Longrightarrow> action_value a e = Inr (action_ret a e)"
  using action_value_ok [of a e] by (auto simp: action_ret_def)

lemma action_value_unknown: "\<not> action_known a \<Longrightarrow> \<exists>err. action_value a e = Inl err"
  using action_value_ok [of a e] by (cases "action_value a e") auto

definition rule_ok :: "linux_syscall \<Rightarrow> bool" where
  "rule_ok r \<longleftrightarrow> sys_args r = [] \<and> action_known (sys_action r)"

lemma compile_rule_ok:
  "rule_ok r \<Longrightarrow> compile_rule A (i, r) flt = Inr (flt @ compile_names A (rule_ret r) (sys_names r))"
  by (simp add: compile_rule_def rule_ok_def action_value_known rule_ret_def)

lemma compile_rule_bad: "\<not> rule_ok r \<Longrightarrow> \<exists>e. compile_rule A (i, r) flt = Inl e"
  using action_value_unknown [of "sys_action r" "sys_errno_ret r"]
  by (auto simp: compile_rule_def rule_ok_def)

lemma each_compile_rule:
  "each (compile_rule A) (enumerate i rs) flt = Inr body \<longleftrightarrow>
     list_all rule_ok rs \<and> body = flt @ rules_code A rs"
proof (induction rs arbitrary: i flt)
  case (Cons r rs)
  show ?case
  proof (cases "rule_ok r")
    case True
    then show ?thesis using Cons.IH by (simp add: compile_rule_ok)
  next
    case False
    then obtain e where "compile_rule A (i, r) flt = Inl e" using compile_rule_bad by blast
    then show ?thesis using False by simp
  qed
qed auto

definition compiled :: "arch \<Rightarrow> linux_seccomp \<Rightarrow> sock_filter list" where
  "compiled A p = filter_head A @ rules_code A (sc_syscalls p) @
     [ret_instr (action_ret (sc_default_action p) (sc_default_errno_ret p))]"

text \<open>Exactly when the compiler succeeds, and what it then returns.\<close>

lemma compile_seccomp_Inr:
  "compile_seccomp A p = Inr f \<longleftrightarrow>
     audit_arch A \<noteq> 0 \<and> action_known (sc_default_action p) \<and>
     list_all rule_ok (sc_syscalls p) \<and> length (compiled A p) \<le> maxFilterInstructions \<and>
     f = compiled A p"
proof (cases "action_known (sc_default_action p)")
  case True
  then show ?thesis
    by (auto simp: compile_seccomp_def action_value_known ebind_eq_Inr each_compile_rule
        compiled_def Let_def)
next
  case False
  then obtain e where "action_value (sc_default_action p) (sc_default_errno_ret p) = Inl e"
    using action_value_unknown by blast
  then show ?thesis using False by (simp add: compile_seccomp_def)
qed

subsection \<open>Running the output\<close>

lemma run_names:
  "bpf_run d (compile_names A k ns @ rest) nr =
     (if list_ex (resolves A nr) ns then Some k else bpf_run d rest nr)"
proof (induction ns)
  case (Cons n ns)
  then show ?case
    by (cases "map_of (syscall_numbers A) n") (auto simp: resolves_def)
qed simp

lemma run_rules:
  "bpf_run d (rules_code A rs @ rest) nr =
     (case find (rule_matches A nr) rs of Some r \<Rightarrow> Some (rule_ret r) | None \<Rightarrow> bpf_run d rest nr)"
  by (induction rs) (simp_all add: run_names rule_matches_def)

lemma run_head:
  "bpf_run d (filter_head A @ rest) a =
     (if sd_arch d \<noteq> audit_arch A then Some retKillProcess
      else if guard_x32 A \<and> x32SyscallBit \<le> sd_nr d then Some retKillProcess
      else bpf_run d rest (sd_nr d))"
  by (simp add: filter_head_def)

lemma run_compiled: "bpf_run d (compiled A p) a = Some (decision A p d)"
  by (simp add: compiled_def run_head run_rules decision_def split: option.split)


subsection \<open>What the kernel checks when the filter is loaded\<close>

text \<open>
  The kernel accepts a filter of 1 to 4096 known instructions whose loads are aligned and inside
  the data, whose jumps land inside the program, and whose last instruction returns.
\<close>

fun jumps_ok :: "sock_filter list \<Rightarrow> bool" where
  "jumps_ok [] = True"
| "jumps_ok (i # is) =
     ((sf_code i = opJumpEqual \<or> sf_code i = opJumpGE \<longrightarrow>
         unat (sf_jt i) < length is \<and> unat (sf_jf i) < length is) \<and> jumps_ok is)"

definition instr_ok :: "sock_filter \<Rightarrow> bool" where
  "instr_ok i \<longleftrightarrow>
     (if sf_code i = opLoadAbsWord then sf_k i \<in> {offsetNr, offsetArch}
      else sf_code i \<in> {opJumpEqual, opJumpGE, opReturn})"

definition loadable :: "sock_filter list \<Rightarrow> bool" where
  "loadable f \<longleftrightarrow> f \<noteq> [] \<and> length f \<le> maxFilterInstructions \<and> list_all instr_ok f \<and>
     jumps_ok f \<and> sf_code (last f) = opReturn"

lemma instr_ok_simps [simp]:
  "instr_ok (ret_instr k)" "instr_ok (jeq_instr a b k)" "instr_ok (jge_instr a b k)"
  "instr_ok (load_instr offsetNr)" "instr_ok (load_instr offsetArch)"
  by (simp_all add: instr_ok_def ret_instr_def jeq_instr_def jge_instr_def load_instr_def)

lemma instr_code_simps [simp]:
  "sf_code (ret_instr k) = opReturn" "sf_code (load_instr k) = opLoadAbsWord"
  "sf_code (jeq_instr a b k) = opJumpEqual" "sf_code (jge_instr a b k) = opJumpGE"
  "sf_jt (jeq_instr a b k) = a" "sf_jf (jeq_instr a b k) = b"
  "sf_jt (jge_instr a b k) = a" "sf_jf (jge_instr a b k) = b"
  by (simp_all add: ret_instr_def jeq_instr_def jge_instr_def load_instr_def)

lemma names_instrs_ok: "list_all instr_ok (compile_names A k ns)"
  by (induction ns) (auto split: option.split)

lemma names_jumps_ok:
  "jumps_ok rest \<Longrightarrow> rest \<noteq> [] \<Longrightarrow> jumps_ok (compile_names A k ns @ rest)"
  by (induction ns) (auto split: option.split simp: Suc_lessI)

lemma rules_instrs_ok: "list_all instr_ok (rules_code A rs)"
  by (induction rs) (simp_all add: names_instrs_ok)

lemma rules_jumps_ok: "jumps_ok rest \<Longrightarrow> rest \<noteq> [] \<Longrightarrow> jumps_ok (rules_code A rs @ rest)"
  by (induction rs) (simp_all add: names_jumps_ok)

lemma compiled_loadable:
  assumes "length (compiled A p) \<le> maxFilterInstructions"
  shows "loadable (compiled A p)"
proof -
  let ?rest = "rules_code A (sc_syscalls p) @
    [ret_instr (action_ret (sc_default_action p) (sc_default_errno_ret p))]"
  have "jumps_ok ?rest" by (rule rules_jumps_ok) simp_all
  then have "jumps_ok (compiled A p)"
    by (simp add: compiled_def filter_head_def opcode_distinct [symmetric])
  moreover have "list_all instr_ok (compiled A p)"
    by (simp add: compiled_def filter_head_def rules_instrs_ok)
  ultimately show ?thesis using assms by (simp add: loadable_def compiled_def)
qed

subsection \<open>Properties\<close>

text \<open>
  C1. A compiled filter, run by the kernel on any system call, returns exactly the decision the
  profile stands for: kill for a foreign architecture or an x32 number, otherwise the action of
  the first rule naming the call, otherwise the default action.
\<close>

theorem seccomp_compile_correct:
  assumes "compile_seccomp A p = Inr f"
  shows "bpf_run d f a = Some (decision A p d)"
  using assms run_compiled by (simp add: compile_seccomp_Inr)

definition profile_example :: linux_seccomp where
  "profile_example =
     \<lparr>sc_default_action = ActErrno, sc_default_errno_ret = None, sc_architectures = [], sc_flags = [],
      sc_syscalls = [\<lparr>sys_names = [''read'', ''no_such_call''], sys_action = ActAllow,
        sys_errno_ret = None, sys_args = []\<rparr>]\<rparr>"

definition arch_example :: arch where
  "arch_example = \<lparr>audit_arch = 0xc000003e, guard_x32 = True,
     syscall_numbers = [(''read'', 0), (''write'', 1)]\<rparr>"

lemma compile_example: "compile_seccomp arch_example profile_example = Inr (compiled arch_example profile_example)"
  by (simp add: compile_seccomp_Inr profile_example_def arch_example_def rule_ok_def action_known_def
      compiled_def filter_head_def maxFilterInstructions_def)

theorem seccomp_compile_correct_witness:
  "bpf_run \<lparr>sd_nr = 0, sd_arch = 0xc000003e, sd_rest = \<lambda>_. 0\<rparr>
     (compiled arch_example profile_example) 0 = Some retAllow"
proof -
  have "decision arch_example profile_example \<lparr>sd_nr = 0, sd_arch = 0xc000003e, sd_rest = \<lambda>_. 0\<rparr> = retAllow"
    by (simp add: decision_def arch_example_def profile_example_def rule_matches_def resolves_def
        rule_ret_def action_ret_def action_value_def x32SyscallBit_def)
  then show ?thesis using seccomp_compile_correct [OF compile_example] by simp
qed

text \<open>
  C16. The compiler refuses exactly the profiles it cannot honour: an unported architecture, an
  unknown default action, a rule with an argument condition or an unknown action, or a program
  over the kernel's limit. In every other case it returns a filter.
\<close>

theorem seccomp_compile_total:
  "is_ok (compile_seccomp A p) \<longleftrightarrow>
     audit_arch A \<noteq> 0 \<and> action_known (sc_default_action p) \<and>
     list_all (\<lambda>r. sys_args r = [] \<and> action_known (sys_action r)) (sc_syscalls p) \<and>
     length (filter_head A) +
       2 * length (filter (\<lambda>n. map_of (syscall_numbers A) n \<noteq> None) (concat (map sys_names (sc_syscalls p)))) + 1
       \<le> maxFilterInstructions"
proof -
  have names: "length (compile_names A k ns) =
      2 * length (filter (\<lambda>n. map_of (syscall_numbers A) n \<noteq> None) ns)" for k ns
    by (induction ns) (auto split: option.split)
  have "length (rules_code A rs) =
      2 * length (filter (\<lambda>n. map_of (syscall_numbers A) n \<noteq> None) (concat (map sys_names rs)))" for rs
    by (induction rs) (simp_all add: names)
  then have "length (compiled A p) = length (filter_head A) +
      2 * length (filter (\<lambda>n. map_of (syscall_numbers A) n \<noteq> None) (concat (map sys_names (sc_syscalls p)))) + 1"
    by (simp add: compiled_def)
  then show ?thesis
    by (simp add: is_ok_iff compile_seccomp_Inr rule_ok_def [abs_def])
qed

text \<open>
  C17. Every filter the compiler returns passes the kernel's checks at load time: between 1 and
  4096 known instructions, aligned loads, every jump inside the program, a return at the end.
\<close>

theorem seccomp_filter_loadable:
  assumes "compile_seccomp A p = Inr f"
  shows "loadable f"
  using assms compiled_loadable by (simp add: compile_seccomp_Inr)

theorem seccomp_filter_loadable_witness:
  "loadable (compiled arch_example profile_example) \<and> length (compiled arch_example profile_example) = 9"
  using seccomp_filter_loadable [OF compile_example]
  by (simp add: compiled_def profile_example_def arch_example_def filter_head_def)

end
