(* ===== verification/Capabilities.thy ===== *)
theory Capabilities
  imports Oci_Spec
begin

section \<open>Capability sets (pkg/security/capabilities.go)\<close>

text \<open>
  The name table, the 64-bit mask and its two 32-bit halves, the parser of the spec's five
  lists, and the rendering of a mask as names. Applying the policy to the process is in
  theory Privileges.
\<close>

type_synonym cap_set = "64 word"

definition CAP_CHECKPOINT_RESTORE :: nat where
  "CAP_CHECKPOINT_RESTORE = 40"

definition CAP_SETPCAP :: nat where
  "CAP_SETPCAP = 8"

definition capability_names :: "(string \<times> nat) list" where
  "capability_names = [
    (''CAP_CHOWN'', 0),
    (''CAP_DAC_OVERRIDE'', 1),
    (''CAP_DAC_READ_SEARCH'', 2),
    (''CAP_FOWNER'', 3),
    (''CAP_FSETID'', 4),
    (''CAP_KILL'', 5),
    (''CAP_SETGID'', 6),
    (''CAP_SETUID'', 7),
    (''CAP_SETPCAP'', 8),
    (''CAP_LINUX_IMMUTABLE'', 9),
    (''CAP_NET_BIND_SERVICE'', 10),
    (''CAP_NET_BROADCAST'', 11),
    (''CAP_NET_ADMIN'', 12),
    (''CAP_NET_RAW'', 13),
    (''CAP_IPC_LOCK'', 14),
    (''CAP_IPC_OWNER'', 15),
    (''CAP_SYS_MODULE'', 16),
    (''CAP_SYS_RAWIO'', 17),
    (''CAP_SYS_CHROOT'', 18),
    (''CAP_SYS_PTRACE'', 19),
    (''CAP_SYS_PACCT'', 20),
    (''CAP_SYS_ADMIN'', 21),
    (''CAP_SYS_BOOT'', 22),
    (''CAP_SYS_NICE'', 23),
    (''CAP_SYS_RESOURCE'', 24),
    (''CAP_SYS_TIME'', 25),
    (''CAP_SYS_TTY_CONFIG'', 26),
    (''CAP_MKNOD'', 27),
    (''CAP_LEASE'', 28),
    (''CAP_AUDIT_WRITE'', 29),
    (''CAP_AUDIT_CONTROL'', 30),
    (''CAP_SETFCAP'', 31),
    (''CAP_MAC_OVERRIDE'', 32),
    (''CAP_MAC_ADMIN'', 33),
    (''CAP_SYSLOG'', 34),
    (''CAP_WAKE_ALARM'', 35),
    (''CAP_BLOCK_SUSPEND'', 36),
    (''CAP_AUDIT_READ'', 37),
    (''CAP_PERFMON'', 38),
    (''CAP_BPF'', 39),
    (''CAP_CHECKPOINT_RESTORE'', 40)]"

interpretation cap_table: injective_table capability_names
  by unfold_locales (simp_all add: capability_names_def)

subsection \<open>The mask\<close>

definition cap_add :: "cap_set \<Rightarrow> nat \<Rightarrow> cap_set" where
  "cap_add s b = or s (push_bit b 1)"

definition cap_has :: "cap_set \<Rightarrow> nat \<Rightarrow> bool" where
  "cap_has s b \<longleftrightarrow> and s (push_bit b 1) \<noteq> 0"

definition cap_low :: "cap_set \<Rightarrow> 32 word" where
  "cap_low s = ucast (and s 0xffffffff)"

definition cap_high :: "cap_set \<Rightarrow> 32 word" where
  "cap_high s = ucast (drop_bit 32 s)"

definition cap_join :: "32 word \<Rightarrow> 32 word \<Rightarrow> cap_set" where
  "cap_join lo hi = or (ucast lo) (push_bit 32 (ucast hi))"

lemma and_push_bit_1: "and s (push_bit b 1 :: 'a::len word) \<noteq> 0 \<longleftrightarrow> bit s b"
  by (simp only: bit_iff_and_push_bit_not_eq_0)

lemma cap_has_bit: "cap_has s b \<longleftrightarrow> bit s b"
  by (simp only: cap_has_def and_push_bit_1)

lemma cap_has_zero [simp]: "\<not> cap_has 0 b"
  by (simp add: cap_has_bit)

lemma cap_has_add: "b < 64 \<Longrightarrow> cap_has (cap_add s b) c \<longleftrightarrow> cap_has s c \<or> c = b"
  by (auto simp: cap_has_bit cap_add_def bit_simps)

lemma cap_has_lt: "cap_has s b \<Longrightarrow> b < 64"
  using bit_imp_le_length by (fastforce simp: cap_has_bit)

lemma cap_set_eqI: "(\<And>b. b < 64 \<Longrightarrow> cap_has s b = cap_has t b) \<Longrightarrow> s = t"
  by (rule bit_word_eqI) (simp add: cap_has_bit)

lemma bit_cap_low: "bit (cap_low s) b \<longleftrightarrow> b < 32 \<and> cap_has s b"
proof -
  have "(0xffffffff :: 64 word) = mask 32" by (simp add: mask_eq_exp_minus_1)
  then have "cap_low s = ucast (and s (mask 32))" by (simp only: cap_low_def)
  then show ?thesis by (auto simp: cap_has_bit bit_simps simp del: mask_numeral)
qed

lemma bit_cap_high: "bit (cap_high s) b \<longleftrightarrow> b < 32 \<and> cap_has s (b + 32)"
  by (auto simp: cap_high_def cap_has_bit bit_simps ac_simps)

lemma cap_has_join:
  "cap_has (cap_join lo hi) b \<longleftrightarrow> (if b < 32 then bit lo b else b < 64 \<and> bit hi (b - 32))"
  by (auto simp: cap_join_def cap_has_bit bit_simps dest: bit_imp_le_length)

subsection \<open>Parsing\<close>

text \<open>\<^verbatim>\<open>parseCapabilities\<close>: the loop folds names into the mask and stops at an unknown one.\<close>

definition add_named :: "string \<Rightarrow> cap_set \<Rightarrow> cap_set result" where
  "add_named name s =
     (case map_of capability_names (to_upper name) of
        None \<Rightarrow> Inl (Errorf ''unknown capability %q'' [name])
      | Some b \<Rightarrow> Inr (cap_add s b))"

definition parse_capabilities :: "string list \<Rightarrow> cap_set result" where
  "parse_capabilities names = each add_named names 0"

record capability_policy =
  pol_bounding :: cap_set
  pol_effective :: cap_set
  pol_permitted :: cap_set
  pol_inheritable :: cap_set
  pol_ambient :: cap_set

definition empty_policy :: capability_policy where
  "empty_policy = \<lparr>pol_bounding = 0, pol_effective = 0, pol_permitted = 0,
     pol_inheritable = 0, pol_ambient = 0\<rparr>"

definition resolve_capabilities :: "linux_capabilities option \<Rightarrow> capability_policy result" where
  "resolve_capabilities caps =
     (case caps of
        None \<Rightarrow> Inr empty_policy
      | Some c \<Rightarrow>
          ebind (ewrap ''capabilities.bounding: %w'' [] (parse_capabilities (caps_bounding c))) (\<lambda>bnd.
          ebind (ewrap ''capabilities.effective: %w'' [] (parse_capabilities (caps_effective c))) (\<lambda>eff.
          ebind (ewrap ''capabilities.permitted: %w'' [] (parse_capabilities (caps_permitted c))) (\<lambda>prm.
          ebind (ewrap ''capabilities.inheritable: %w'' [] (parse_capabilities (caps_inheritable c))) (\<lambda>inh.
          ebind (ewrap ''capabilities.ambient: %w'' [] (parse_capabilities (caps_ambient c))) (\<lambda>amb.
          Inr \<lparr>pol_bounding = bnd, pol_effective = eff, pol_permitted = prm,
               pol_inheritable = inh, pol_ambient = amb\<rparr>))))))"

text \<open>\<^verbatim>\<open>capSet.Names\<close>: the names whose bit is set, sorted.\<close>

definition cap_set_names :: "cap_set \<Rightarrow> string list" where
  "cap_set_names s = sort (map fst (filter (\<lambda>(n, b). cap_has s b) capability_names))"

text \<open>
  \<^verbatim>\<open>lastCapability\<close>: the content of \<^verbatim>\<open>/proc/sys/kernel/cap_last_cap\<close>, when it can be read and
  is a non-negative number; the newest capability of the build otherwise.
\<close>

definition last_capability :: "string option \<Rightarrow> nat" where
  "last_capability data =
     (case data of
        None \<Rightarrow> CAP_CHECKPOINT_RESTORE
      | Some d \<Rightarrow>
          (case atoi (trim_space d) of
             Inl _ \<Rightarrow> CAP_CHECKPOINT_RESTORE
           | Inr v \<Rightarrow> if v < 0 then CAP_CHECKPOINT_RESTORE else nat v))"


subsection \<open>What the parser computes\<close>

lemma capability_bits: "(n, b) \<in> set capability_names \<Longrightarrow> b \<le> CAP_CHECKPOINT_RESTORE"
  by (auto simp: capability_names_def CAP_CHECKPOINT_RESTORE_def)

lemma capability_names_upper: "\<forall>n \<in> fst ` set capability_names. to_upper n = n"
proof -
  have "list_all (\<lambda>n. to_upper n = n) (map fst capability_names)" by code_simp
  then show ?thesis by (simp add: list_all_iff)
qed

lemma capability_of_bit: "b \<le> CAP_CHECKPOINT_RESTORE \<Longrightarrow> \<exists>n. (n, b) \<in> set capability_names"
proof -
  have "list_all (\<lambda>b. b \<in> set (map snd capability_names)) [0..<41]" by code_simp
  then have "\<forall>b < 41. b \<in> snd ` set capability_names" by (auto simp: list_all_iff)
  moreover assume "b \<le> CAP_CHECKPOINT_RESTORE"
  ultimately have "b \<in> snd ` set capability_names" by (simp add: CAP_CHECKPOINT_RESTORE_def)
  then show ?thesis by auto
qed

definition cap_lookup :: "string \<Rightarrow> nat option" where
  "cap_lookup n = map_of capability_names (to_upper n)"

lemma cap_lookup_lt: "cap_lookup n = Some b \<Longrightarrow> b < 64"
  using capability_bits by (fastforce simp: cap_lookup_def cap_table.lookup_iff CAP_CHECKPOINT_RESTORE_def)

lemma cap_lookup_table: "(n, b) \<in> set capability_names \<Longrightarrow> cap_lookup n = Some b"
  using capability_names_upper by (force simp: cap_lookup_def cap_table.lookup_iff)

lemma add_named_Some: "cap_lookup n = Some b \<Longrightarrow> add_named n s = Inr (cap_add s b)"
  and add_named_None:
    "cap_lookup n = None \<Longrightarrow> add_named n s = Inl (Errorf ''unknown capability %q'' [n])"
  by (simp_all add: add_named_def cap_lookup_def)

lemma each_add_named:
  "each add_named ns s =
     (case find (\<lambda>n. cap_lookup n = None) ns of
        Some n \<Rightarrow> Inl (Errorf ''unknown capability %q'' [n])
      | None \<Rightarrow> Inr (fold (\<lambda>n s. cap_add s (the (cap_lookup n))) ns s))"
proof (induction ns arbitrary: s)
  case (Cons n ns)
  then show ?case
    by (cases "cap_lookup n") (simp_all add: add_named_Some add_named_None cong: option.case_cong)
qed simp

lemma cap_has_fold_add:
  "\<forall>n \<in> set ns. cap_lookup n \<noteq> None \<Longrightarrow>
   cap_has (fold (\<lambda>n s. cap_add s (the (cap_lookup n))) ns s) b \<longleftrightarrow>
   cap_has s b \<or> (\<exists>n \<in> set ns. cap_lookup n = Some b)"
proof (induction ns arbitrary: s)
  case (Cons n ns)
  then obtain c where c: "cap_lookup n = Some c" by auto
  then have "c < 64" by (rule cap_lookup_lt)
  then show ?case using Cons c by (auto simp: cap_has_add)
qed simp

text \<open>
  The parser succeeds exactly when every name is known, and then a bit is set exactly when a
  name of the list stands for it.
\<close>

lemma parse_capabilities_Inr:
  "parse_capabilities ns = Inr s \<longleftrightarrow>
     (\<forall>n \<in> set ns. cap_lookup n \<noteq> None) \<and>
     (\<forall>b. cap_has s b \<longleftrightarrow> (\<exists>n \<in> set ns. cap_lookup n = Some b))"
proof (cases "\<forall>n \<in> set ns. cap_lookup n \<noteq> None")
  case True
  then have find: "find (\<lambda>n. cap_lookup n = None) ns = None" by (auto simp: find_None_iff)
  then show ?thesis
    using cap_has_fold_add [OF True, of 0] True
    by (auto simp: parse_capabilities_def each_add_named intro!: cap_set_eqI)
next
  case False
  then have "find (\<lambda>n. cap_lookup n = None) ns \<noteq> None" by (auto simp: find_None_iff)
  then show ?thesis using False by (auto simp: parse_capabilities_def each_add_named)
qed

lemma parse_capabilities_Inl:
  "parse_capabilities ns = Inl e \<longleftrightarrow>
     (\<exists>n. find (\<lambda>n. cap_lookup n = None) ns = Some n \<and> e = Errorf ''unknown capability %q'' [n])"
  by (auto simp: parse_capabilities_def each_add_named split: option.splits)

lemma parse_capabilities_Nil [simp]: "parse_capabilities [] = Inr 0"
  by (simp add: parse_capabilities_def)

lemma parse_capabilities_bound:
  "parse_capabilities ns = Inr s \<Longrightarrow> cap_has s b \<Longrightarrow> b \<le> CAP_CHECKPOINT_RESTORE"
  using capability_bits
  by (auto simp: parse_capabilities_Inr cap_lookup_def cap_table.lookup_iff)

text \<open>The two 32-bit words handed to capset(2) are the mask, no bit lost or moved.\<close>

lemma cap_join_halves: "cap_join (cap_low s) (cap_high s) = s"
  by (rule cap_set_eqI) (auto simp: cap_has_join bit_cap_low bit_cap_high)

lemma set_cap_set_names: "n \<in> set (cap_set_names s) \<longleftrightarrow> (\<exists>b. (n, b) \<in> set capability_names \<and> cap_has s b)"
  by (force simp: cap_set_names_def)

lemma parse_cap_set_names:
  assumes "\<And>b. cap_has s b \<Longrightarrow> b \<le> CAP_CHECKPOINT_RESTORE"
  shows "parse_capabilities (cap_set_names s) = Inr s"
  unfolding parse_capabilities_Inr
proof (intro conjI allI ballI iffI)
  fix n assume "n \<in> set (cap_set_names s)"
  then show "cap_lookup n \<noteq> None" by (auto simp: set_cap_set_names dest: cap_lookup_table)
next
  fix b assume b: "cap_has s b"
  then obtain n where "(n, b) \<in> set capability_names" using assms capability_of_bit by blast
  then show "\<exists>n \<in> set (cap_set_names s). cap_lookup n = Some b"
    using b cap_lookup_table set_cap_set_names by blast
next
  fix b assume "\<exists>n \<in> set (cap_set_names s). cap_lookup n = Some b"
  then show "cap_has s b" using cap_lookup_table by (fastforce simp: set_cap_set_names)
qed

subsection \<open>Properties\<close>

text \<open>
  C32. Parsing a list of capability names gives the mask in which a bit is set exactly when some name
  stands for it, in whatever case and order and however often the names are written; it fails
  exactly when a name is unknown, and the error names the first one.
\<close>

theorem parse_capabilities_correct:
  "case parse_capabilities ns of
     Inr s \<Rightarrow> find (\<lambda>n. cap_lookup n = None) ns = None \<and>
       {b. cap_has s b} = {b. \<exists>n \<in> set ns. cap_lookup n = Some b}
   | Inl e \<Rightarrow> (\<exists>n. find (\<lambda>n. cap_lookup n = None) ns = Some n \<and>
       e = Errorf ''unknown capability %q'' [n])"
proof (cases "parse_capabilities ns")
  case (Inr s)
  then have "\<forall>n \<in> set ns. cap_lookup n \<noteq> None"
    "\<forall>b. cap_has s b \<longleftrightarrow> (\<exists>n \<in> set ns. cap_lookup n = Some b)"
    by (simp_all add: parse_capabilities_Inr)
  then show ?thesis using Inr by (auto simp: find_None_iff)
next
  case (Inl e)
  then have "\<exists>n. find (\<lambda>n. cap_lookup n = None) ns = Some n \<and>
      e = Errorf ''unknown capability %q'' [n]"
    unfolding parse_capabilities_Inl .
  then show ?thesis using Inl by simp
qed

text \<open>
  The names of a mask without bits beyond the last known capability, parsed again, give the
  same mask: the table is a bijection and no bit is lost on the way.
\<close>

theorem capability_names_roundtrip:
  assumes "and s (not (mask (Suc CAP_CHECKPOINT_RESTORE))) = 0"
  shows "parse_capabilities (cap_set_names s) = Inr s"
proof (rule parse_cap_set_names)
  fix b assume "cap_has s b"
  then have b: "bit s b" by (simp add: cap_has_bit)
  from \<open>cap_has s b\<close> have "b < 64" by (rule cap_has_lt)
  have "\<not> bit (and s (not (mask (Suc CAP_CHECKPOINT_RESTORE)))) b" using assms by simp
  then show "b \<le> CAP_CHECKPOINT_RESTORE"
    using b \<open>b < 64\<close> by (auto simp: bit_and_iff bit_not_iff bit_mask_iff)
qed

theorem capability_names_roundtrip_witness:
  "parse_capabilities (cap_set_names 0x10000400021) = Inr 0x10000400021"
  by (rule capability_names_roundtrip) (simp add: CAP_CHECKPOINT_RESTORE_def mask_eq_exp_minus_1)

end
