(* ===== verification/Kernel_Calls.thy ===== *)
theory Kernel_Calls
  imports Effects Seccomp Capabilities
begin

section \<open>System calls of the container process\<close>

text \<open>
  The kernel is a parameter: a function from a call and a kernel state to a result and a new
  state. The code under \<^verbatim>\<open>pkg/security\<close> and \<^verbatim>\<open>pkg/runtime/init.go\<close> becomes functions on that state
  and on the log of the calls made so far with their results, so that a theorem can speak of the
  order of the calls for every kernel. What the code relies on, the rules of capabilities(7), is
  the function \<open>cred_step\<close>; a theorem that needs it has the hypothesis that the kernel follows it.
\<close>

datatype kcall =
    Prctl nat nat nat
  | Capset "uint32 \<times> uint32 \<times> uint32" "uint32 \<times> uint32 \<times> uint32"
    \<comment> \<open>effective, permitted, inheritable of the low and of the high word\<close>
  | SetFilter "sock_filter list"
  | Setrlimit nat uint64 uint64
  | WriteOomScoreAdj string
  | Umask uint32
  | Setgroups "uint32 list"
  | Setgid uint32
  | Setuid uint32
  | Execve string "string list" "string list"

type_synonym sysret = "errno + int"
type_synonym 'k kernel = "(kcall, int, 'k) world"
type_synonym 'k proc = "(kcall, int, 'k) run"
type_synonym ('k, 'a) eff = "(kcall, int, 'k, 'a) prog"

end
