(* ===== verification/Privileges.thy ===== *)
theory Privileges
  imports Kernel_Calls
begin

section \<open>Dropping privileges (pkg/security, execUserProcess in pkg/runtime/init.go)\<close>

text \<open>
  The last steps of the container side: resource limits, user switch, capability policy,
  no_new_privs, seccomp filter, execve. First the code, call by call; then the rules of
  capabilities(7) as a specification; then what the code achieves on a kernel that follows them.
\<close>

subsection \<open>The code\<close>

definition prSetKeepCaps :: nat where "prSetKeepCaps = 8"
definition prCapBSetRead :: nat where "prCapBSetRead = 23"
definition prCapBSetDrop :: nat where "prCapBSetDrop = 24"
definition prSetNoNewPrivs :: nat where "prSetNoNewPrivs = 38"
definition prCapAmbient :: nat where "prCapAmbient = 47"
definition prCapAmbientRaise :: nat where "prCapAmbientRaise = 2"
definition prCapAmbientClearAll :: nat where "prCapAmbientClearAll = 4"

lemmas pr_defs = prSetKeepCaps_def prCapBSetRead_def prCapBSetDrop_def prSetNoNewPrivs_def prCapAmbient_def
  prCapAmbientRaise_def prCapAmbientClearAll_def

text \<open>One round of the bounding-set loop: EINVAL means the kernel does not have the capability.\<close>

definition drop_bounding :: "'k kernel \<Rightarrow> cap_set \<Rightarrow> nat \<Rightarrow> ('k, unit) eff" where
  "drop_bounding K bounding b p =
     (if cap_has bounding b then (Inr (), p)
      else case sys K (Prctl prCapBSetDrop b 0) p of
             (Inr _, p') \<Rightarrow> (Inr (), p')
           | (Inl n, p') \<Rightarrow>
               if n = EINVAL then (Inr (), p')
               else (Inl (Wrapf ''dropping bounding capability %d: %w'' [format_nat b] (Errno n)), p'))"

definition raise_ambient :: "'k kernel \<Rightarrow> cap_set \<Rightarrow> nat \<Rightarrow> ('k, unit) eff" where
  "raise_ambient K ambient b =
     (if cap_has ambient b
      then wrap_eff ''raising ambient capability %d: %w'' [format_nat b]
             (andthen (syscall K (Prctl prCapAmbient prCapAmbientRaise b)) (\<lambda>_. ret ()))
      else ret ())"

definition capset_data :: "capability_policy \<Rightarrow> kcall" where
  "capset_data w =
     Capset (cap_low (pol_effective w), cap_low (pol_permitted w), cap_low (pol_inheritable w))
            (cap_high (pol_effective w), cap_high (pol_permitted w), cap_high (pol_inheritable w))"

definition apply_capabilities ::
  "'k kernel \<Rightarrow> nat \<Rightarrow> linux_capabilities option \<Rightarrow> ('k, unit) eff" where
  "apply_capabilities K lc caps =
     andthen (lift (resolve_capabilities caps)) (\<lambda>want.
     andthen (for_each (drop_bounding K (pol_bounding want)) [0..<Suc lc]) (\<lambda>_.
     andthen (wrap_eff ''clearing ambient capability set: %w'' []
               (syscall K (Prctl prCapAmbient prCapAmbientClearAll 0))) (\<lambda>_.
     andthen (wrap_eff ''capset: %w'' [] (syscall K (capset_data want))) (\<lambda>_.
     for_each (raise_ambient K (pol_ambient want)) [0..<Suc lc]))))"

definition set_keep_caps :: "'k kernel \<Rightarrow> bool \<Rightarrow> ('k, unit) eff" where
  "set_keep_caps K keep =
     wrap_eff ''prctl(PR_SET_KEEPCAPS, %v): %w'' [if keep then ''true'' else ''false'']
       (andthen (syscall K (Prctl prSetKeepCaps (if keep then 1 else 0) 0)) (\<lambda>_. ret ()))"

definition set_no_new_privs :: "'k kernel \<Rightarrow> ('k, unit) eff" where
  "set_no_new_privs K =
     wrap_eff ''prctl(PR_SET_NO_NEW_PRIVS): %w'' []
       (andthen (syscall K (Prctl prSetNoNewPrivs 1 0)) (\<lambda>_. ret ()))"

text \<open>
  \<^verbatim>\<open>seccompSetFilter\<close> takes the number of seccomp(2) from the same table the filter uses, so it
  fails on an architecture whose table does not have it.
\<close>

definition seccomp_set_filter :: "'k kernel \<Rightarrow> arch \<Rightarrow> sock_filter list \<Rightarrow> ('k, unit) eff" where
  "seccomp_set_filter K A flt =
     (case map_of (syscall_numbers A) ''seccomp'' of
        None \<Rightarrow> fail errUnsupportedArch
      | Some _ \<Rightarrow> andthen (syscall K (SetFilter flt)) (\<lambda>_. ret ()))"

definition apply_seccomp :: "'k kernel \<Rightarrow> arch \<Rightarrow> linux_seccomp option \<Rightarrow> ('k, unit) eff" where
  "apply_seccomp K A profile =
     (case profile of
        None \<Rightarrow> ret ()
      | Some p \<Rightarrow>
          andthen (lift (compile_seccomp A p)) (\<lambda>flt.
          wrap_eff ''installing seccomp filter (%d instructions): %w'' [format_nat (length flt)]
            (seccomp_set_filter K A flt)))"

definition rlimit_resources :: "(string \<times> nat) list" where
  "rlimit_resources = [
    (''RLIMIT_CPU'', 0),
    (''RLIMIT_FSIZE'', 1),
    (''RLIMIT_DATA'', 2),
    (''RLIMIT_STACK'', 3),
    (''RLIMIT_CORE'', 4),
    (''RLIMIT_RSS'', 5),
    (''RLIMIT_NPROC'', 6),
    (''RLIMIT_NOFILE'', 7),
    (''RLIMIT_MEMLOCK'', 8),
    (''RLIMIT_AS'', 9),
    (''RLIMIT_LOCKS'', 10),
    (''RLIMIT_SIGPENDING'', 11),
    (''RLIMIT_MSGQUEUE'', 12),
    (''RLIMIT_NICE'', 13),
    (''RLIMIT_RTPRIO'', 14),
    (''RLIMIT_RTTIME'', 15)]"

interpretation rlimit_table: injective_table rlimit_resources
  by unfold_locales (simp_all add: rlimit_resources_def)

definition set_rlimit :: "'k kernel \<Rightarrow> posix_rlimit \<Rightarrow> ('k, unit) eff" where
  "set_rlimit K l =
     (case map_of rlimit_resources (to_upper (rl_type l)) of
        None \<Rightarrow> fail (Errorf ''unknown rlimit %q'' [rl_type l])
      | Some r \<Rightarrow>
          wrap_eff ''setting %s to %d/%d: %w''
            [rl_type l, format_nat (unat (rl_soft l)), format_nat (unat (rl_hard l))]
            (andthen (syscall K (Setrlimit r (rl_soft l) (rl_hard l))) (\<lambda>_. ret ())))"

definition apply_process_limits :: "'k kernel \<Rightarrow> process \<Rightarrow> ('k, unit) eff" where
  "apply_process_limits K pr =
     andthen (for_each (set_rlimit K) (proc_rlimits pr)) (\<lambda>_.
     andthen (case proc_oom_score_adj pr of
                None \<Rightarrow> ret ()
              | Some v \<Rightarrow>
                  (let value = format_int (sint v)
                   in wrap_eff ''setting oom_score_adj to %s: %w'' [value]
                        (andthen (syscall K (WriteOomScoreAdj value)) (\<lambda>_. ret ())))) (\<lambda>_.
     (case user_umask (proc_user pr) of
        None \<Rightarrow> ret ()
      | Some m \<Rightarrow> (\<lambda>p. (Inr (), snd (sys K (Umask m) p))))))"

definition setup_user :: "'k kernel \<Rightarrow> process \<Rightarrow> ('k, unit) eff" where
  "setup_user K pr =
     (let u = proc_user pr
      in if user_uid u = 0 \<and> user_gid u = 0 \<and> user_additional_gids u = [] then ret ()
         else
           andthen (set_keep_caps K True) (\<lambda>_.
           andthen (if user_additional_gids u \<noteq> []
                    then wrap_eff ''setting supplementary groups: %w'' []
                           (andthen (syscall K (Setgroups (user_additional_gids u))) (\<lambda>_. ret ()))
                    else ret ()) (\<lambda>_.
           andthen (wrap_eff ''setting gid %d: %w'' [format_nat (unat (user_gid u))]
                     (syscall K (Setgid (user_gid u)))) (\<lambda>_.
           andthen (wrap_eff ''setting uid %d: %w'' [format_nat (unat (user_uid u))]
                     (syscall K (Setuid (user_uid u)))) (\<lambda>_.
           set_keep_caps K False)))))"

text \<open>The value of the first PATH entry of an environment, if any.\<close>

fun path_entry :: "string list \<Rightarrow> string option" where
  "path_entry [] = None"
| "path_entry (kv # kvs) =
     (case cut CHR ''='' kv of
        (name, value, ok) \<Rightarrow> if ok \<and> name = ''PATH'' then Some value else path_entry kvs)"

text \<open>
  \<^verbatim>\<open>execUserProcess\<close>. \<open>look_path path file\<close> is \<^verbatim>\<open>exec.LookPath\<close> in the container's filesystem
  with \<open>path\<close> as PATH; \<open>host_env\<close> and \<open>host_path\<close> are the environment of the init process.
\<close>

definition exec_user_process ::
  "'k kernel \<Rightarrow> arch \<Rightarrow> nat \<Rightarrow> (string \<Rightarrow> string \<Rightarrow> string result) \<Rightarrow> string list \<Rightarrow> string \<Rightarrow>
   process \<Rightarrow> linux option \<Rightarrow> ('k, unit) eff" where
  "exec_user_process K A lc look_path host_env host_path pr lx =
     (let env = (case proc_env pr of None \<Rightarrow> host_env | Some e \<Rightarrow> e);
          path = (case path_entry env of None \<Rightarrow> host_path | Some v \<Rightarrow> v)
      in case proc_args pr of
           [] \<Rightarrow> fail (Errorf ''panic: runtime error: index out of range [0] with length 0'' [])
         | arg0 # _ \<Rightarrow>
             andthen (lift (ewrap ''resolving %q inside the container: %w'' [arg0] (look_path path arg0))) (\<lambda>binary.
             andthen (apply_process_limits K pr) (\<lambda>_.
             andthen (setup_user K pr) (\<lambda>_.
             andthen (apply_capabilities K lc (proc_capabilities pr)) (\<lambda>_.
             andthen (if proc_no_new_privileges pr then set_no_new_privs K else ret ()) (\<lambda>_.
             andthen (case lx of None \<Rightarrow> ret () | Some l \<Rightarrow> apply_seccomp K A (lx_seccomp l)) (\<lambda>_.
             wrap_eff ''executing %s: %w'' [binary]
               (andthen (syscall K (Execve binary (proc_args pr) env)) (\<lambda>_. ret ())))))))))"

subsection \<open>The rules of capabilities(7)\<close>

text \<open>
  The credentials of a thread as capabilities(7), prctl(2), capset(2), setuid(2) and seccomp(2)
  describe them: the five capability sets, the uid, the keep-capabilities flag, no_new_privs,
  and the filters installed, newest first. \<open>lc\<close> is the newest capability the kernel knows.
\<close>

record cred =
  cr_uid :: uint32
  cr_bset :: "nat set"
  cr_eff :: "nat set"
  cr_perm :: "nat set"
  cr_inh :: "nat set"
  cr_amb :: "nat set"
  cr_keep :: bool
  cr_nnp :: bool
  cr_filters :: "sock_filter list list"

definition caps_of :: "nat \<Rightarrow> cap_set \<Rightarrow> nat set" where
  "caps_of lc s = set (filter (cap_has s) [0..<Suc lc])"

lemma caps_of_eq: "caps_of lc s = {b. b \<le> lc \<and> cap_has s b}"
  by (auto simp: caps_of_def less_Suc_eq_le simp del: upt_Suc)

definition CAP_SETUID :: nat where "CAP_SETUID = 7"
definition CAP_SYS_ADMIN :: nat where "CAP_SYS_ADMIN = 21"
definition EACCES :: errno where "EACCES = EOTHER 13"

fun cred_step :: "nat \<Rightarrow> kcall \<Rightarrow> cred \<Rightarrow> sysret \<times> cred" where
  "cred_step lc (Prctl opt a b) c =
     (if opt = prCapBSetDrop then
        (if CAP_SETPCAP \<notin> cr_eff c then (Inl EPERM, c)
         else if lc < a then (Inl EINVAL, c)
         else (Inr 0, c\<lparr>cr_bset := cr_bset c - {a}\<rparr>))
      else if opt = prCapBSetRead then (if lc < a then Inl EINVAL else Inr (if a \<in> cr_bset c then 1 else 0), c)
      else if opt = prCapAmbient \<and> a = prCapAmbientClearAll then (Inr 0, c\<lparr>cr_amb := {}\<rparr>)
      else if opt = prCapAmbient \<and> a = prCapAmbientRaise then
        (if lc < b then (Inl EINVAL, c)
         else if b \<in> cr_perm c \<and> b \<in> cr_inh c then (Inr 0, c\<lparr>cr_amb := insert b (cr_amb c)\<rparr>)
         else (Inl EPERM, c))
      else if opt = prSetKeepCaps then (Inr 0, c\<lparr>cr_keep := (a \<noteq> 0)\<rparr>)
      else if opt = prSetNoNewPrivs \<and> a = 1 then (Inr 0, c\<lparr>cr_nnp := True\<rparr>)
      else (Inl EINVAL, c))"
| "cred_step lc (Capset lo hi) c =
     (case (lo, hi) of ((el, pl, il), (eh, ph, ih)) \<Rightarrow>
        let e = caps_of lc (cap_join el eh); p = caps_of lc (cap_join pl ph);
            i = caps_of lc (cap_join il ih)
        in if p \<subseteq> cr_perm c \<and> e \<subseteq> p \<and> i \<subseteq> cr_inh c \<union> cr_bset c \<and>
              (CAP_SETPCAP \<in> cr_eff c \<or> i \<subseteq> cr_inh c \<union> cr_perm c)
           then (Inr 0, c\<lparr>cr_eff := e, cr_perm := p, cr_inh := i, cr_amb := cr_amb c \<inter> p \<inter> i\<rparr>)
           else (Inl EPERM, c))"
| "cred_step lc (SetFilter f) c =
     (if cr_nnp c \<or> CAP_SYS_ADMIN \<in> cr_eff c then (Inr 0, c\<lparr>cr_filters := f # cr_filters c\<rparr>)
      else (Inl EACCES, c))"
| "cred_step lc (Setuid u) c =
     (if CAP_SETUID \<in> cr_eff c then
        (Inr 0,
         if cr_uid c = 0 \<and> u \<noteq> 0 then
           c\<lparr>cr_uid := u, cr_eff := {}, cr_amb := {},
             cr_perm := (if cr_keep c then cr_perm c else {})\<rparr>
         else c\<lparr>cr_uid := u\<rparr>)
      else if u = cr_uid c then (Inr 0, c)
      else (Inl EPERM, c))"
| "cred_step lc _ c = (Inr 0, c)"

text \<open>
  A kernel follows the rules when its credentials, seen through \<open>view\<close>, change as \<open>cred_step\<close>
  says. For calls that do not concern the credentials any result is allowed.
\<close>

fun cred_call :: "kcall \<Rightarrow> bool" where
  "cred_call (Prctl _ _ _) = True"
| "cred_call (Capset _ _) = True"
| "cred_call (SetFilter _) = True"
| "cred_call (Setuid _) = True"
| "cred_call _ = False"

definition follows_cred_rules :: "nat \<Rightarrow> 'k kernel \<Rightarrow> ('k \<Rightarrow> cred) \<Rightarrow> bool" where
  "follows_cred_rules lc K view \<longleftrightarrow>
     (\<forall>c k. (if cred_call c
             then fst (K c k) = fst (cred_step lc c (view k)) \<and>
                  view (snd (K c k)) = snd (cred_step lc c (view k))
             else view (snd (K c k)) = view k))"

lemma cred_step_follows: "follows_cred_rules lc (cred_step lc) (\<lambda>c. c)"
  unfolding follows_cred_rules_def
proof (intro allI)
  fix c and k :: cred
  show "if cred_call c
      then fst (cred_step lc c k) = fst (cred_step lc c k) \<and>
           snd (cred_step lc c k) = snd (cred_step lc c k)
      else snd (cred_step lc c k) = k"
    by (cases c) simp_all
qed

end
