(* ===== verification/Oci_Defaults.thy ===== *)
theory Oci_Defaults
  imports Oci_Spec
begin

section \<open>The built-in policy (pkg/oci/defaults.go, pkg/oci/seccomp_profile.go)\<close>

text \<open>
  The default capabilities, masked and read-only paths, mounts, devices, the default seccomp
  profile, and \<^verbatim>\<open>Default\<close>, the one generator of specs behind \<^verbatim>\<open>run --rootfs\<close> and \<^verbatim>\<open>spec\<close>.
\<close>

definition oci_version :: string where
  "oci_version = ''1.2.0''"

subsection \<open>Seccomp\<close>

definition default_allowed_syscalls :: "string list" where
  "default_allowed_syscalls = [
    ''execve'', ''execveat'', ''exit'', ''exit_group'', ''clone'', ''clone3'', ''fork'', ''vfork'',
    ''wait4'', ''waitid'', ''kill'', ''tkill'', ''tgkill'', ''getpid'', ''getppid'', ''gettid'',
    ''set_tid_address'', ''rt_sigreturn'', ''sigreturn'',
    ''sched_yield'', ''sched_getaffinity'', ''sched_setaffinity'', ''sched_getparam'',
    ''sched_setparam'', ''sched_getscheduler'', ''sched_setscheduler'',
    ''sched_get_priority_max'', ''sched_get_priority_min'', ''sched_rr_get_interval'',
    ''getuid'', ''geteuid'', ''getgid'', ''getegid'', ''getgroups'', ''setgroups'',
    ''setuid'', ''setgid'', ''setresuid'', ''setresgid'', ''getresuid'', ''getresgid'',
    ''setpgid'', ''getpgid'', ''getpgrp'', ''setsid'', ''getsid'', ''capget'', ''capset'',
    ''getpriority'', ''setpriority'', ''getrlimit'', ''setrlimit'', ''prlimit64'', ''getrusage'',
    ''read'', ''write'', ''readv'', ''writev'', ''pread64'', ''pwrite64'', ''preadv'', ''pwritev'',
    ''preadv2'', ''pwritev2'', ''open'', ''openat'', ''openat2'', ''close'', ''close_range'',
    ''creat'', ''lseek'', ''dup'', ''dup2'', ''dup3'', ''pipe'', ''pipe2'', ''fcntl'', ''flock'',
    ''fsync'', ''fdatasync'', ''sync'', ''syncfs'', ''truncate'', ''ftruncate'', ''fallocate'',
    ''sendfile'', ''copy_file_range'', ''splice'', ''tee'', ''vmsplice'', ''readahead'',
    ''fadvise64'', ''sync_file_range'',
    ''stat'', ''fstat'', ''lstat'', ''newfstatat'', ''statx'', ''statfs'', ''fstatfs'',
    ''access'', ''faccessat'', ''faccessat2'', ''readlink'', ''readlinkat'',
    ''getdents'', ''getdents64'', ''getcwd'', ''chdir'', ''fchdir'',
    ''mkdir'', ''mkdirat'', ''rmdir'', ''unlink'', ''unlinkat'', ''rename'', ''renameat'',
    ''renameat2'', ''link'', ''linkat'', ''symlink'', ''symlinkat'',
    ''chmod'', ''fchmod'', ''fchmodat'', ''chown'', ''fchown'', ''lchown'', ''fchownat'',
    ''umask'', ''utime'', ''utimes'', ''utimensat'', ''futimesat'',
    ''getxattr'', ''lgetxattr'', ''fgetxattr'', ''listxattr'', ''llistxattr'', ''flistxattr'',
    ''setxattr'', ''lsetxattr'', ''fsetxattr'', ''removexattr'', ''lremovexattr'', ''fremovexattr'',
    ''mmap'', ''mmap2'', ''munmap'', ''mremap'', ''mprotect'', ''madvise'', ''mincore'',
    ''brk'', ''mlock'', ''mlock2'', ''munlock'', ''mlockall'', ''munlockall'', ''memfd_create'',
    ''membarrier'',
    ''rt_sigaction'', ''rt_sigprocmask'', ''rt_sigpending'', ''rt_sigqueueinfo'',
    ''rt_sigsuspend'', ''rt_sigtimedwait'', ''rt_tgsigqueueinfo'', ''sigaltstack'',
    ''signalfd'', ''signalfd4'', ''pause'', ''restart_syscall'',
    ''nanosleep'', ''clock_nanosleep'', ''clock_gettime'', ''clock_getres'',
    ''gettimeofday'', ''times'', ''time'',
    ''timer_create'', ''timer_settime'', ''timer_gettime'', ''timer_getoverrun'',
    ''timer_delete'', ''timerfd_create'', ''timerfd_settime'', ''timerfd_gettime'',
    ''getitimer'', ''setitimer'', ''alarm'',
    ''poll'', ''ppoll'', ''select'', ''pselect6'', ''epoll_create'', ''epoll_create1'',
    ''epoll_ctl'', ''epoll_wait'', ''epoll_pwait'', ''epoll_pwait2'',
    ''eventfd'', ''eventfd2'', ''inotify_init'', ''inotify_init1'', ''inotify_add_watch'',
    ''inotify_rm_watch'',
    ''futex'', ''futex_waitv'', ''set_robust_list'', ''get_robust_list'',
    ''shmget'', ''shmat'', ''shmdt'', ''shmctl'', ''semget'', ''semop'', ''semtimedop'',
    ''semctl'', ''msgget'', ''msgsnd'', ''msgrcv'', ''msgctl'',
    ''mq_open'', ''mq_unlink'', ''mq_timedsend'', ''mq_timedreceive'', ''mq_notify'',
    ''mq_getsetattr'',
    ''socket'', ''socketpair'', ''bind'', ''listen'', ''accept'', ''accept4'', ''connect'',
    ''getsockname'', ''getpeername'', ''sendto'', ''recvfrom'', ''sendmsg'', ''recvmsg'',
    ''sendmmsg'', ''recvmmsg'', ''shutdown'', ''getsockopt'', ''setsockopt'',
    ''pidfd_open'', ''pidfd_send_signal'', ''pidfd_getfd'',
    ''ioctl'', ''uname'', ''sysinfo'', ''getrandom'', ''arch_prctl'', ''prctl'',
    ''personality'', ''gettid'', ''sched_getattr'', ''sched_setattr'', ''getcpu'',
    ''clock_adjtime'', ''rseq'', ''set_thread_area'', ''get_thread_area'', ''ugetrlimit'']"

definition default_seccomp_architectures :: "string list" where
  "default_seccomp_architectures = [''SCMP_ARCH_X86_64'', ''SCMP_ARCH_AARCH64'', ''SCMP_ARCH_ARM'']"

definition default_seccomp_profile :: linux_seccomp where
  "default_seccomp_profile =
     \<lparr>sc_default_action = ActErrno,
      sc_default_errno_ret = Some 1,
      sc_architectures = default_seccomp_architectures,
      sc_flags = [],
      sc_syscalls = [\<lparr>sys_names = default_allowed_syscalls, sys_action = ActAllow,
                      sys_errno_ret = None, sys_args = []\<rparr>]\<rparr>"

subsection \<open>Capabilities and paths\<close>

definition default_capabilities :: "string list" where
  "default_capabilities = [
    ''CAP_CHOWN'',
    ''CAP_DAC_OVERRIDE'',
    ''CAP_FOWNER'',
    ''CAP_FSETID'',
    ''CAP_KILL'',
    ''CAP_NET_BIND_SERVICE'',
    ''CAP_SETFCAP'',
    ''CAP_SETGID'',
    ''CAP_SETPCAP'',
    ''CAP_SETUID'',
    ''CAP_SYS_CHROOT'']"

definition default_masked_paths :: "string list" where
  "default_masked_paths = [
    ''/proc/asound'',
    ''/proc/acpi'',
    ''/proc/interrupts'',
    ''/proc/kcore'',
    ''/proc/keys'',
    ''/proc/latency_stats'',
    ''/proc/timer_list'',
    ''/proc/timer_stats'',
    ''/proc/sched_debug'',
    ''/proc/scsi'',
    ''/sys/firmware'',
    ''/sys/devices/virtual/powercap'']"

definition default_readonly_paths :: "string list" where
  "default_readonly_paths = [
    ''/proc/bus'',
    ''/proc/fs'',
    ''/proc/irq'',
    ''/proc/sys'',
    ''/proc/sysrq-trigger'']"

subsection \<open>Mounts and devices\<close>

definition mk_mount :: "string \<Rightarrow> string \<Rightarrow> string \<Rightarrow> string list \<Rightarrow> mount" where
  "mk_mount dest typ src opts =
     \<lparr>mnt_destination = dest, mnt_type = typ, mnt_source = src, mnt_options = opts,
      mnt_uid_mappings = [], mnt_gid_mappings = []\<rparr>"

definition default_mounts :: "bool \<Rightarrow> mount list" where
  "default_mounts rootless =
     [mk_mount ''/proc'' ''proc'' ''proc'' [''nosuid'', ''noexec'', ''nodev''],
      mk_mount ''/dev'' ''tmpfs'' ''tmpfs'' [''nosuid'', ''strictatime'', ''mode=755'', ''size=65536k''],
      mk_mount ''/dev/pts'' ''devpts'' ''devpts''
        [''nosuid'', ''noexec'', ''newinstance'', ''ptmxmode=0666'', ''mode=0620''],
      mk_mount ''/dev/shm'' ''tmpfs'' ''shm''
        [''nosuid'', ''noexec'', ''nodev'', ''mode=1777'', ''size=65536k''],
      mk_mount ''/dev/mqueue'' ''mqueue'' ''mqueue'' [''nosuid'', ''noexec'', ''nodev''],
      (if rootless
       then mk_mount ''/sys'' ''none'' ''/sys'' [''rbind'', ''nosuid'', ''noexec'', ''nodev'', ''ro'']
       else mk_mount ''/sys'' ''sysfs'' ''sysfs'' [''nosuid'', ''noexec'', ''nodev'', ''ro''])]"

definition char_device :: "string \<Rightarrow> int64 \<Rightarrow> int64 \<Rightarrow> linux_device" where
  "char_device path major minor =
     \<lparr>dev_path = path, dev_type = ''c'', dev_major = major, dev_minor = minor,
      dev_file_mode = Some 438, dev_uid = None, dev_gid = None\<rparr>"

definition default_devices :: "linux_device list" where
  "default_devices =
     [char_device ''/dev/null'' 1 3,
      char_device ''/dev/zero'' 1 5,
      char_device ''/dev/full'' 1 7,
      char_device ''/dev/random'' 1 8,
      char_device ''/dev/urandom'' 1 9,
      char_device ''/dev/tty'' 5 0]"

subsection \<open>The generator\<close>

definition mk_ns :: "namespace_type \<Rightarrow> namespace" where
  "mk_ns t = \<lparr>ns_type = t, ns_path = []\<rparr>"

definition default_namespaces :: "bool \<Rightarrow> namespace list" where
  "default_namespaces rootless =
     (if rootless then [mk_ns UserNamespace] else []) @
     [mk_ns PIDNamespace, mk_ns NetworkNamespace, mk_ns IPCNamespace, mk_ns UTSNamespace,
      mk_ns MountNamespace, mk_ns CgroupNamespace]"

definition default_spec :: "string \<Rightarrow> string list \<Rightarrow> bool \<Rightarrow> spec" where
  "default_spec rootfs args rootless =
     \<lparr>spec_version = oci_version,
      spec_process = Some
        \<lparr>proc_terminal = False,
         proc_console_size = None,
         proc_user = \<lparr>user_uid = 0, user_gid = 0, user_umask = None,
                      user_additional_gids = [], user_username = []\<rparr>,
         proc_args = args,
         proc_command_line = [],
         proc_env = Some [''PATH=/usr/local/sbin:/usr/local/bin:/usr/sbin:/usr/bin:/sbin:/bin'',
                          ''TERM=xterm''],
         proc_cwd = ''/'',
         proc_capabilities = Some
           \<lparr>caps_bounding = default_capabilities, caps_effective = default_capabilities,
            caps_inheritable = [], caps_permitted = default_capabilities, caps_ambient = []\<rparr>,
         proc_rlimits = [],
         proc_no_new_privileges = True,
         proc_apparmor_profile = [],
         proc_oom_score_adj = None,
         proc_selinux_label = []\<rparr>,
      spec_root = Some \<lparr>root_path = rootfs, root_readonly = False\<rparr>,
      spec_hostname = ''lightpod'',
      spec_domainname = [],
      spec_mounts = default_mounts rootless,
      spec_hooks = None,
      spec_annotations = [],
      spec_linux = Some (empty_linux
        \<lparr>lx_namespaces := default_namespaces rootless,
         lx_masked_paths := default_masked_paths,
         lx_readonly_paths := default_readonly_paths,
         lx_resources := Some (empty_resources\<lparr>res_pids := Some \<lparr>pids_limit = 1024\<rparr>\<rparr>),
         lx_seccomp := Some default_seccomp_profile\<rparr>)\<rparr>"

end
