(* ===== verification/Seccomp_Policy.thy ===== *)
theory Seccomp_Policy
  imports Seccomp Oci_Defaults
begin

section \<open>The default seccomp profile on each architecture\<close>

text \<open>
  What the compiler makes of \<^verbatim>\<open>DefaultSeccompProfile\<close> with the three generated tables: the calls
  it allows and denies, and the names the tables do not resolve.
\<close>

definition call_on :: "arch \<Rightarrow> nat \<Rightarrow> seccomp_data" where
  "call_on A nr = \<lparr>sd_nr = of_nat nr, sd_arch = audit_arch A, sd_rest = \<lambda>_. 0\<rparr>"

abbreviation eperm :: uint32 where
  "eperm \<equiv> retErrno OR 1"

lemma default_action_ret: "action_ret ActErrno (Some 1) = eperm"
  by (simp add: action_ret_def action_value_def Let_def errnoMask_def)

lemma default_rule_ret:
  "rule_ret \<lparr>sys_names = ns, sys_action = ActAllow, sys_errno_ret = e, sys_args = as\<rparr> = retAllow"
  by (simp add: rule_ret_def action_ret_def action_value_def)

lemma decision_default:
  "\<not> (guard_x32 A \<and> x32SyscallBit \<le> (of_nat nr :: uint32)) \<Longrightarrow>
   decision A default_seccomp_profile (call_on A nr) =
     (if list_ex (resolves A (of_nat nr)) default_allowed_syscalls then retAllow else eperm)"
  by (auto simp: decision_def call_on_def default_seccomp_profile_def rule_matches_def
      default_rule_ret default_action_ret)

lemma amd64_numbers_small: "\<forall>e \<in> set syscall_numbers_amd64. snd e < 1000"
proof -
  have "list_all (\<lambda>e. snd e < 1000) syscalls_amd64_1" "list_all (\<lambda>e. snd e < 1000) syscalls_amd64_2"
    "list_all (\<lambda>e. snd e < 1000) syscalls_amd64_3"
    by (simp_all add: syscalls_amd64_1_def syscalls_amd64_2_def syscalls_amd64_3_def)
  then show ?thesis by (auto simp: syscall_numbers_amd64_def list_all_iff)
qed

lemma small_word_inject: "m < 1000 \<Longrightarrow> n < 1000 \<Longrightarrow> (of_nat m :: uint32) = of_nat n \<longleftrightarrow> m = n"
  by (simp add: word_of_nat_eq_iff take_bit_eq_mod)

lemma small_not_x32: "n < 1000 \<Longrightarrow> \<not> x32SyscallBit \<le> (of_nat n :: uint32)"
  by (simp add: x32SyscallBit_def word_le_nat_alt unat_of_nat)

lemma resolves_amd64:
  assumes "map_of syscall_numbers_amd64 name = Some nr"
  shows "resolves amd64 (of_nat nr) other \<longleftrightarrow> other = name"
proof
  assume "resolves amd64 (of_nat nr) other"
  then obtain m where m: "map_of syscall_numbers_amd64 other = Some m"
    and eq: "(of_nat m :: uint32) = of_nat nr"
    by (auto simp: resolves_def amd64_def split: option.splits)
  have "m < 1000" "nr < 1000"
    using amd64_numbers_small map_of_SomeD [OF m] map_of_SomeD [OF assms] by fastforce+
  with eq have "m = nr" by (simp add: small_word_inject)
  then show "other = name" using amd64_table.lookup_inj m assms by blast
next
  assume "other = name"
  then show "resolves amd64 (of_nat nr) other" using assms by (simp add: resolves_def amd64_def)
qed

subsection \<open>Properties\<close>

text \<open>
  C30. On amd64 the default profile is an allowlist: a system call of the table is let through
  exactly when its name is listed, and answered with EPERM otherwise, so mount, ptrace, bpf and
  the other calls left out on purpose cannot be reached under another name or number.
\<close>

theorem default_profile_amd64:
  assumes "map_of syscall_numbers_amd64 name = Some nr"
  shows "decision amd64 default_seccomp_profile (call_on amd64 nr) =
    (if name \<in> set default_allowed_syscalls then retAllow else eperm)"
proof -
  have "nr < 1000" using amd64_numbers_small map_of_SomeD [OF assms] by fastforce
  then show ?thesis
    using resolves_amd64 [OF assms] by (simp add: decision_default small_not_x32 list_ex_iff)
qed

theorem default_profile_amd64_witness:
  "decision amd64 default_seccomp_profile (call_on amd64 165) = eperm \<and> eperm \<noteq> retAllow"
proof -
  have "map_of syscall_numbers_amd64 ''mount'' = Some 165"
    by (simp add: syscall_numbers_amd64_def syscalls_amd64_1_def syscalls_amd64_2_def map_add_Some_iff)
  moreover have "''mount'' \<notin> set default_allowed_syscalls"
    by (simp add: default_allowed_syscalls_def)
  ultimately show ?thesis
    using default_profile_amd64 [of "''mount''" 165] by (simp add: retErrno_def retAllow_def)
qed

lemma resolves_entry: "resolves A nr n \<Longrightarrow> \<exists>m. (n, m) \<in> set (syscall_numbers A) \<and> of_nat m = nr"
  by (auto simp: resolves_def split: option.splits dest: map_of_SomeD)

lemma arm64_numbers_small: "\<forall>e \<in> set syscall_numbers_arm64. snd e < 1000"
proof -
  have "list_all (\<lambda>e. snd e < 1000) syscalls_arm64_1" "list_all (\<lambda>e. snd e < 1000) syscalls_arm64_2"
    "list_all (\<lambda>e. snd e < 1000) syscalls_arm64_3"
    by (simp_all add: syscalls_arm64_1_def syscalls_arm64_2_def syscalls_arm64_3_def)
  then show ?thesis by (auto simp: syscall_numbers_arm64_def list_all_iff)
qed

lemma arm64_79: "(n, 79) \<in> set syscall_numbers_arm64 \<Longrightarrow> n = ''fstatat''"
proof -
  have "filter (\<lambda>e. snd e = 79) syscalls_arm64_1 = [(''fstatat'', 79)]"
    "filter (\<lambda>e. snd e = 79) syscalls_arm64_2 = []" "filter (\<lambda>e. snd e = 79) syscalls_arm64_3 = []"
    by (simp_all add: syscalls_arm64_1_def syscalls_arm64_2_def syscalls_arm64_3_def)
  then have only: "filter (\<lambda>e. snd e = 79) syscall_numbers_arm64 = [(''fstatat'', 79)]"
    by (simp add: syscall_numbers_arm64_def)
  assume "(n, 79) \<in> set syscall_numbers_arm64"
  then have "(n, 79) \<in> set (filter (\<lambda>e. snd e = 79) syscall_numbers_arm64)" by simp
  then show ?thesis by (simp only: only) simp
qed

text \<open>
  On arm64 the profile lists newfstatat, but the generated table knows call 79 only by the
  name fstatat, which the profile does not list: stat(2) through call 79 is answered with EPERM
  under the default profile.
\<close>

theorem default_profile_arm64_denies_stat:
  "''newfstatat'' \<in> set default_allowed_syscalls \<and>
   (''fstatat'', 79) \<in> set syscall_numbers_arm64 \<and>
   decision arm64 default_seccomp_profile (call_on arm64 79) = eperm"
proof -
  have no: "\<not> resolves arm64 (of_nat 79) n" if "n \<in> set default_allowed_syscalls" for n
  proof
    assume "resolves arm64 (of_nat 79) n"
    then obtain m where m: "(n, m) \<in> set syscall_numbers_arm64" "(of_nat m :: uint32) = of_nat 79"
      by (auto dest: resolves_entry simp: arm64_def)
    then have "m < 1000" using arm64_numbers_small by fastforce
    with m(2) have "m = 79" using small_word_inject [of m 79] by simp
    with m(1) have "n = ''fstatat''" by (simp add: arm64_79)
    with that show False by (simp add: default_allowed_syscalls_def)
  qed
  then have "\<not> list_ex (resolves arm64 (of_nat 79)) default_allowed_syscalls"
    by (auto simp: list_ex_iff)
  then have "decision arm64 default_seccomp_profile (call_on arm64 79) = eperm"
    using decision_default [of arm64 79] by (simp add: arm64_def)
  moreover have "(''fstatat'', 79) \<in> set syscall_numbers_arm64"
    by (simp add: syscall_numbers_arm64_def syscalls_arm64_1_def)
  moreover have "''newfstatat'' \<in> set default_allowed_syscalls"
    by (simp add: default_allowed_syscalls_def)
  ultimately show ?thesis by blast
qed

end
