(* ===== verification/Privilege_Drop.thy ===== *)
theory Privilege_Drop
  imports Privileges Seccomp_Policy
begin

section \<open>What dropping privileges achieves\<close>

text \<open>
  The order of the calls for every kernel, and the credentials the user command starts with on
  a kernel that follows capabilities(7).
\<close>

subsection \<open>Order of the calls\<close>

fun call_phase :: "kcall \<Rightarrow> nat" where
  "call_phase (Setrlimit _ _ _) = 0"
| "call_phase (WriteOomScoreAdj _) = 0"
| "call_phase (Umask _) = 0"
| "call_phase (Setgroups _) = 2"
| "call_phase (Setgid _) = 3"
| "call_phase (Setuid _) = 4"
| "call_phase (Prctl opt a _) =
     (if opt = prSetKeepCaps then (if a = 0 then 5 else 1)
      else if opt = prCapBSetDrop then 6
      else if opt = prCapAmbient then (if a = prCapAmbientClearAll then 7 else 9)
      else 10)"
| "call_phase (Capset _ _) = 8"
| "call_phase (SetFilter _) = 11"
| "call_phase (Execve _ _ _) = 12"

abbreviation ordered :: "nat \<Rightarrow> nat \<Rightarrow> ('k, 'a) eff \<Rightarrow> bool" where
  "ordered \<equiv> emits call_phase"

lemma ordered_call:
  "call_phase c = n \<Longrightarrow> ordered n n (andthen (syscall K c) (\<lambda>_. ret ()))"
  by (rule emits_andthen [where mid = n]) (auto intro: emits_intros)

lemma ordered_drop_bounding: "ordered 6 6 (drop_bounding K s b)"
  by (auto simp: emits_def drop_bounding_def sys_def pr_defs split: prod.split sum.split)

lemma ordered_raise_ambient: "ordered 9 9 (raise_ambient K s b)"
  by (auto simp: raise_ambient_def pr_defs intro!: emits_intros ordered_call)

lemma ordered_keep_caps: "ordered (if k then 1 else 5) (if k then 1 else 5) (set_keep_caps K k)"
  by (auto simp: set_keep_caps_def intro!: emits_intros ordered_call)

lemma ordered_apply_capabilities: "ordered 6 9 (apply_capabilities K lc caps)"
proof -
  have clear: "ordered 7 7 (wrap_eff s [] (syscall K (Prctl prCapAmbient prCapAmbientClearAll 0)))" for s
    by (intro emits_wrap emits_syscall) (simp_all add: pr_defs)
  have set: "ordered 8 8 (wrap_eff s [] (syscall K (capset_data w)))" for s w
    by (intro emits_wrap emits_syscall) (simp_all add: capset_data_def)
  have none: "ordered 6 6 (lift (resolve_capabilities caps))" by (rule emits_lift)
  have drop: "ordered 6 6 (for_each (drop_bounding K s) bs)" for s bs
    by (rule emits_for_each) (rule ordered_drop_bounding)
  have raise: "ordered 9 9 (for_each (raise_ambient K s) bs)" for s bs
    by (rule emits_for_each) (rule ordered_raise_ambient)
  show ?thesis
    unfolding apply_capabilities_def
    by (rule emits_then [OF none emits_then [OF drop emits_then [OF clear emits_then [OF set raise]]]])
      simp_all
qed

lemma ordered_limits: "ordered 0 0 (apply_process_limits K pr)"
proof -
  have umask: "ordered 0 0 (\<lambda>p. (Inr (), snd (sys K (Umask m) p)))" for m
    by (auto simp: emits_def sys_def split: prod.split)
  have rlimit: "ordered 0 0 (set_rlimit K l)" for l
    by (auto simp: set_rlimit_def intro!: emits_intros ordered_call split: option.split)
  have oom: "ordered 0 0 (case proc_oom_score_adj pr of None \<Rightarrow> ret () | Some v \<Rightarrow>
      let value = format_int (sint v)
      in wrap_eff ''setting oom_score_adj to %s: %w'' [value]
           (andthen (syscall K (WriteOomScoreAdj value)) (\<lambda>_. ret ())))"
    by (auto simp: Let_def intro!: emits_intros ordered_call split: option.split)
  show ?thesis
    unfolding apply_process_limits_def
    by (rule emits_andthen [where mid = 0], rule emits_for_each, rule rlimit,
        rule emits_andthen [where mid = 0], rule oom)
      (auto intro: emits_intros umask split: option.split)
qed

lemma ordered_setup_user: "ordered 1 5 (setup_user K pr)"
proof -
  have groups: "ordered 2 2 (if gs \<noteq> []
      then wrap_eff s [] (andthen (syscall K (Setgroups gs)) (\<lambda>_. ret ()))
      else ret ())" for gs s
    by (auto intro!: emits_intros ordered_call)
  have gid: "ordered 3 3 (wrap_eff s a (syscall K (Setgid g)))"
    and uid: "ordered 4 4 (wrap_eff s a (syscall K (Setuid w)))" for s a g w
    by (auto intro!: emits_intros)
  have k1: "ordered 1 1 (set_keep_caps K True)" and k5: "ordered 5 5 (set_keep_caps K False)"
    using ordered_keep_caps [of True K] ordered_keep_caps [of False K] by simp_all
  have "ordered 1 5 (andthen (set_keep_caps K True) (\<lambda>_.
           andthen (if gs \<noteq> []
                    then wrap_eff s [] (andthen (syscall K (Setgroups gs)) (\<lambda>_. ret ()))
                    else ret ()) (\<lambda>_.
           andthen (wrap_eff s1 a1 (syscall K (Setgid g))) (\<lambda>_.
           andthen (wrap_eff s2 a2 (syscall K (Setuid w))) (\<lambda>_.
           set_keep_caps K False)))))" for gs s s1 a1 g s2 a2 w
    by (rule emits_then [OF k1 emits_then [OF groups emits_then [OF gid emits_then [OF uid k5]]]])
      simp_all
  then show ?thesis by (simp add: setup_user_def Let_def emits_ret)
qed

lemma ordered_no_new_privs: "ordered 10 10 (set_no_new_privs K)"
  by (auto simp: set_no_new_privs_def pr_defs intro!: emits_intros ordered_call)

lemma ordered_apply_seccomp: "ordered 11 11 (apply_seccomp K A p)"
  unfolding apply_seccomp_def seccomp_set_filter_def
  by (auto intro!: emits_intros ordered_call emits_andthen [where mid = 11] split: option.split)


lemma ordered_exec: "ordered 0 12 (exec_user_process K A lc look env path pr lx)"
proof (cases "proc_args pr")
  case Nil
  then show ?thesis by (simp add: exec_user_process_def Let_def emits_fail)
next
  case (Cons arg0 args)
  have find: "ordered 0 0 (lift r)" for r :: "string result" by (rule emits_lift)
  have nnp: "ordered 10 10 (if b then set_no_new_privs K else ret ())" for b
    by (simp add: ordered_no_new_privs emits_ret)
  have sec: "ordered 11 11 (case lx of None \<Rightarrow> ret () | Some l \<Rightarrow> apply_seccomp K A (lx_seccomp l))"
    by (simp add: ordered_apply_seccomp emits_ret split: option.split)
  have exec: "ordered 12 12 (wrap_eff s a (andthen (syscall K (Execve b v e)) (\<lambda>_. ret ())))" for s a b v e
    by (intro emits_wrap ordered_call) simp
  show ?thesis
    unfolding exec_user_process_def Let_def Cons list.case
    by (rule emits_then [OF find emits_then [OF ordered_limits emits_then [OF ordered_setup_user
        emits_then [OF ordered_apply_capabilities emits_then [OF nnp emits_then [OF sec exec]]]]]])
      simp_all
qed


subsection \<open>Credentials after each step\<close>

text \<open>\<open>creds view p\<close>: the credentials of the process in state \<open>p\<close>.\<close>

abbreviation creds :: "('k \<Rightarrow> cred) \<Rightarrow> 'k proc \<Rightarrow> cred" where
  "creds view p \<equiv> view (fst p)"

lemma sys_creds:
  assumes "follows_cred_rules lc K view" and "cred_call c"
  shows "fst (sys K c p) = fst (cred_step lc c (creds view p))"
    and "creds view (snd (sys K c p)) = snd (cred_step lc c (creds view p))"
  using assms unfolding follows_cred_rules_def sys_def
  by (auto split: prod.split) (metis fst_conv, metis snd_conv)

lemma sys_other:
  assumes "follows_cred_rules lc K view" and "\<not> cred_call c"
  shows "creds view (snd (sys K c p)) = creds view p"
  using assms unfolding follows_cred_rules_def sys_def
  by (auto split: prod.split) (metis snd_conv)

lemma syscall_sys:
  "syscall K c p = (Inr v, q) \<longleftrightarrow> sys K c p = (Inr v, q)"
  by (auto simp: syscall_def split: prod.splits sum.splits)

lemma syscall_creds:
  assumes "follows_cred_rules lc K view" and "cred_call c" and "syscall K c p = (Inr v, q)"
  shows "fst (cred_step lc c (creds view p)) = Inr v"
    and "creds view q = snd (cred_step lc c (creds view p))"
  using sys_creds [OF assms(1,2), of p] assms(3) by (simp_all add: syscall_sys)

lemma syscall_other:
  assumes "follows_cred_rules lc K view" and "\<not> cred_call c" and "syscall K c p = (Inr v, q)"
  shows "creds view q = creds view p"
  using sys_other [OF assms(1,2), of p] assms(3) by (simp add: syscall_sys)

lemma drop_bounding_creds:
  assumes "follows_cred_rules lc K view" and "b \<le> lc" and "drop_bounding K s b p = (Inr (), q)"
  shows "creds view q = (creds view p)
    \<lparr>cr_bset := cr_bset (creds view p) - (if cap_has s b then {} else {b})\<rparr>"
proof (cases "cap_has s b")
  case True
  then show ?thesis using assms(3) by (simp add: drop_bounding_def)
next
  case False
  have "creds view q = snd (cred_step lc (Prctl prCapBSetDrop b 0) (creds view p))"
    using assms(3) False sys_creds(2) [OF assms(1), of "Prctl prCapBSetDrop b 0" p]
    by (auto simp: drop_bounding_def split: prod.splits sum.splits if_splits)
  moreover have "fst (cred_step lc (Prctl prCapBSetDrop b 0) (creds view p)) \<noteq> Inl EPERM"
    using assms(3) False sys_creds(1) [OF assms(1), of "Prctl prCapBSetDrop b 0" p]
    by (auto simp: drop_bounding_def split: prod.splits sum.splits if_splits)
  ultimately show ?thesis using False assms(2) by (auto split: if_splits)
qed

lemma drop_loop_creds:
  assumes "follows_cred_rules lc K view"
  shows "\<forall>b \<in> set bs. b \<le> lc \<Longrightarrow> for_each (drop_bounding K s) bs p = (Inr (), q) \<Longrightarrow>
    creds view q = (creds view p)
      \<lparr>cr_bset := cr_bset (creds view p) - {b \<in> set bs. \<not> cap_has s b}\<rparr>"
proof (induction bs arbitrary: p)
  case (Cons b bs)
  then obtain p' where p': "drop_bounding K s b p = (Inr (), p')"
    "for_each (drop_bounding K s) bs p' = (Inr (), q)"
    by (auto simp: andthen_Inr)
  have "creds view q = (creds view p')
      \<lparr>cr_bset := cr_bset (creds view p') - {b \<in> set bs. \<not> cap_has s b}\<rparr>"
    using Cons.prems(1) by (intro Cons.IH p'(2)) simp
  moreover have "creds view p' = (creds view p)
    \<lparr>cr_bset := cr_bset (creds view p) - (if cap_has s b then {} else {b})\<rparr>"
    using Cons.prems(1) by (intro drop_bounding_creds [OF assms _ p'(1)]) simp
  moreover have "x - (if cap_has s b then {} else {b}) - {c \<in> set bs. \<not> cap_has s c} =
      x - {c \<in> set (b # bs). \<not> cap_has s c}" for x :: "nat set"
    by auto
  ultimately show ?case by simp
qed (simp add: ret_def)

lemma drop_loop_fails:
  assumes "follows_cred_rules lc K view"
  shows "CAP_SETPCAP \<notin> cr_eff (creds view p) \<Longrightarrow> \<exists>b \<in> set bs. \<not> cap_has s b \<Longrightarrow>
    \<exists>e. fst (for_each (drop_bounding K s) bs p) = Inl e"
proof (induction bs)
  case (Cons b bs)
  show ?case
  proof (cases "cap_has s b")
    case True
    then show ?thesis using Cons by (simp add: andthen_def drop_bounding_def)
  next
    case False
    have "fst (sys K (Prctl prCapBSetDrop b 0) p) = Inl EPERM"
      using sys_creds(1) [OF assms, of "Prctl prCapBSetDrop b 0" p] Cons.prems(1) by simp
    then have "\<exists>e. fst (drop_bounding K s b p) = Inl e"
      using False by (auto simp: drop_bounding_def split: prod.split)
    then show ?thesis by (auto simp: andthen_def split: prod.split)
  qed
qed simp

lemma raise_ambient_creds:
  assumes "follows_cred_rules lc K view" and "raise_ambient K s b p = (Inr (), q)"
  shows "creds view q = (creds view p)
    \<lparr>cr_amb := (if cap_has s b then {b} else {}) \<union> cr_amb (creds view p)\<rparr>"
proof (cases "cap_has s b")
  case True
  then obtain v where v: "syscall K (Prctl prCapAmbient prCapAmbientRaise b) p = (Inr v, q)"
    using assms(2) by (auto simp: raise_ambient_def wrap_eff_Inr andthen_Inr ret_Inr)
  from syscall_creds [OF assms(1) _ v] True show ?thesis
    by (auto simp: pr_defs split: if_splits)
qed (use assms(2) in \<open>simp add: raise_ambient_def ret_def\<close>)

lemma raise_loop_creds:
  assumes "follows_cred_rules lc K view"
  shows "for_each (raise_ambient K s) bs p = (Inr (), q) \<Longrightarrow>
    creds view q = (creds view p)\<lparr>cr_amb := {b \<in> set bs. cap_has s b} \<union> cr_amb (creds view p)\<rparr>"
proof (induction bs arbitrary: p)
  case (Cons b bs)
  then obtain p' where p': "raise_ambient K s b p = (Inr (), p')"
    "for_each (raise_ambient K s) bs p' = (Inr (), q)"
    by (auto simp: andthen_Inr)
  have "{b' \<in> set bs. cap_has s b'} \<union> ((if cap_has s b then {b} else {}) \<union> x) =
      {b' \<in> set (b # bs). cap_has s b'} \<union> x" for x
    by auto
  then show ?case
    using Cons.IH [OF p'(2)] raise_ambient_creds [OF assms p'(1)] by simp
qed (simp add: ret_def)

text \<open>The credentials the capability section of a spec asks for.\<close>

definition policy_creds :: "nat \<Rightarrow> capability_policy \<Rightarrow> cred \<Rightarrow> cred" where
  "policy_creds lc w c = c
     \<lparr>cr_bset := cr_bset c - {b. b \<le> lc \<and> \<not> cap_has (pol_bounding w) b},
      cr_eff := caps_of lc (pol_effective w),
      cr_perm := caps_of lc (pol_permitted w),
      cr_inh := caps_of lc (pol_inheritable w),
      cr_amb := caps_of lc (pol_ambient w)\<rparr>"

lemma apply_capabilities_creds:
  assumes rules: "follows_cred_rules lc K view"
    and ok: "apply_capabilities K lc caps p = (Inr (), q)"
  obtains w where "resolve_capabilities caps = Inr w"
    and "creds view q = policy_creds lc w (creds view p)"
proof -
  from ok obtain w p1 p2 p3 v v' where w: "resolve_capabilities caps = Inr w"
    and 1: "for_each (drop_bounding K (pol_bounding w)) [0..<Suc lc] p = (Inr (), p1)"
    and 2: "syscall K (Prctl prCapAmbient prCapAmbientClearAll 0) p1 = (Inr v, p2)"
    and 3: "syscall K (capset_data w) p2 = (Inr v', p3)"
    and 4: "for_each (raise_ambient K (pol_ambient w)) [0..<Suc lc] p3 = (Inr (), q)"
    unfolding apply_capabilities_def by (auto simp: andthen_Inr lift_Inr wrap_eff_Inr)
  have bits: "{b \<in> set [0..<Suc lc]. P b} = {b. b \<le> lc \<and> P b}" for P by auto
  have c1: "creds view p1 = (creds view p)
      \<lparr>cr_bset := cr_bset (creds view p) - {b. b \<le> lc \<and> \<not> cap_has (pol_bounding w) b}\<rparr>"
    using drop_loop_creds [OF rules _ 1] by (simp only: bits) auto
  have c2: "creds view p2 = (creds view p1)\<lparr>cr_amb := {}\<rparr>"
    using syscall_creds(2) [OF rules _ 2] by (simp add: pr_defs)
  have c3: "creds view p3 = (creds view p2)
      \<lparr>cr_eff := caps_of lc (pol_effective w), cr_perm := caps_of lc (pol_permitted w),
       cr_inh := caps_of lc (pol_inheritable w), cr_amb := {}\<rparr>"
    using syscall_creds [OF rules _ 3] c2
    by (auto simp: capset_data_def cap_join_halves Let_def split: if_splits)
  have c4: "creds view q = (creds view p3)\<lparr>cr_amb := caps_of lc (pol_ambient w)\<rparr>"
    using raise_loop_creds [OF rules 4] c3 by (simp only: bits) (simp add: caps_of_eq)
  from c1 c2 c3 c4 have "creds view q = policy_creds lc w (creds view p)"
    by (simp add: policy_creds_def)
  with w show ?thesis by (rule that)
qed


lemma for_each_creds:
  "(\<And>x p q. f x p = (Inr (), q) \<Longrightarrow> creds view q = creds view p) \<Longrightarrow>
   for_each f xs p = (Inr (), q) \<Longrightarrow> creds view q = creds view p"
  by (induction xs arbitrary: p) (fastforce simp: eff_Inr)+

lemma apply_process_limits_creds:
  assumes rules: "follows_cred_rules lc K view"
    and ok: "apply_process_limits K pr p = (Inr (), q)"
  shows "creds view q = creds view p"
proof -
  from ok obtain p1 p2 where
    1: "for_each (set_rlimit K) (proc_rlimits pr) p = (Inr (), p1)"
    and 2: "(case proc_oom_score_adj pr of None \<Rightarrow> ret () | Some v \<Rightarrow>
      let value = format_int (sint v)
      in wrap_eff ''setting oom_score_adj to %s: %w'' [value]
           (andthen (syscall K (WriteOomScoreAdj value)) (\<lambda>_. ret ()))) p1 = (Inr (), p2)"
    and 3: "(case user_umask (proc_user pr) of None \<Rightarrow> ret ()
      | Some m \<Rightarrow> (\<lambda>p. (Inr (), snd (sys K (Umask m) p)))) p2 = (Inr (), q)"
    unfolding apply_process_limits_def by (auto simp only: andthen_Inr)
  have "creds view p1 = creds view p"
  proof (rule for_each_creds [OF _ 1])
    show "set_rlimit K l p = (Inr (), q) \<Longrightarrow> creds view q = creds view p" for l p q
      by (auto simp: set_rlimit_def andthen_Inr wrap_eff_Inr ret_Inr fail_Inr
          split: option.splits dest!: syscall_other [OF rules, rotated])
  qed
  moreover have "creds view p2 = creds view p1"
    using 2 by (auto simp: Let_def andthen_Inr wrap_eff_Inr ret_Inr
        split: option.splits dest!: syscall_other [OF rules, rotated])
  moreover have "creds view q = creds view p2"
  proof (cases "user_umask (proc_user pr)")
    case None
    then show ?thesis using 3 by (simp add: ret_Inr)
  next
    case (Some m)
    then have "q = snd (sys K (Umask m) p2)" using 3 by simp
    then show ?thesis using sys_other [OF rules, of "Umask m" p2] by simp
  qed
  ultimately show ?thesis by simp
qed

definition user_unchanged :: "user \<Rightarrow> bool" where
  "user_unchanged u \<longleftrightarrow> user_uid u = 0 \<and> user_gid u = 0 \<and> user_additional_gids u = []"

definition user_creds :: "nat \<Rightarrow> user \<Rightarrow> cred \<Rightarrow> cred" where
  "user_creds lc u c =
     (if user_unchanged u then c
      else (snd (cred_step lc (Setuid (user_uid u)) (c\<lparr>cr_keep := True\<rparr>)))\<lparr>cr_keep := False\<rparr>)"

lemma set_keep_caps_creds:
  assumes "follows_cred_rules lc K view" and "set_keep_caps K b p = (Inr (), q)"
  shows "creds view q = (creds view p)\<lparr>cr_keep := b\<rparr>"
  using assms(2) unfolding set_keep_caps_def wrap_eff_Inr andthen_Inr ret_Inr
  by (auto dest!: syscall_creds(2) [OF assms(1), rotated] simp: pr_defs)

lemma setup_user_creds:
  assumes rules: "follows_cred_rules lc K view" and ok: "setup_user K pr p = (Inr (), q)"
  shows "creds view q = user_creds lc (proc_user pr) (creds view p)"
    and "user_unchanged (proc_user pr) \<or>
      (\<exists>v. fst (cred_step lc (Setuid (user_uid (proc_user pr))) ((creds view p)\<lparr>cr_keep := True\<rparr>)) = Inr v)"
proof -
  let ?u = "proc_user pr"
  have "creds view q = user_creds lc ?u (creds view p) \<and> (user_unchanged ?u \<or>
      (\<exists>v. fst (cred_step lc (Setuid (user_uid ?u)) ((creds view p)\<lparr>cr_keep := True\<rparr>)) = Inr v))"
  proof (cases "user_unchanged ?u")
    case True
    then have "q = p" using ok by (auto simp: setup_user_def user_unchanged_def ret_def Let_def)
    with True show ?thesis by (simp add: user_creds_def)
  next
    case False
    then obtain p1 p2 p3 p4 v v' where
      1: "set_keep_caps K True p = (Inr (), p1)"
      and 2: "(if user_additional_gids ?u \<noteq> []
          then wrap_eff ''setting supplementary groups: %w'' []
                 (andthen (syscall K (Setgroups (user_additional_gids ?u))) (\<lambda>_. ret ()))
          else ret ()) p1 = (Inr (), p2)"
      and 3: "syscall K (Setgid (user_gid ?u)) p2 = (Inr v, p3)"
      and 4: "syscall K (Setuid (user_uid ?u)) p3 = (Inr v', p4)"
      and 5: "set_keep_caps K False p4 = (Inr (), q)"
      using ok unfolding setup_user_def Let_def user_unchanged_def [symmetric]
      by (simp add: andthen_Inr wrap_eff_Inr del: split_paired_Ex) blast
    have c1: "creds view p1 = (creds view p)\<lparr>cr_keep := True\<rparr>"
      by (rule set_keep_caps_creds [OF rules 1])
    have "creds view p2 = creds view p1"
      using 2 by (auto simp: andthen_Inr wrap_eff_Inr ret_Inr split: if_splits
          dest!: syscall_other [OF rules, rotated])
    moreover have "creds view p3 = creds view p2" using syscall_other [OF rules _ 3] by simp
    ultimately have c3: "creds view p3 = (creds view p)\<lparr>cr_keep := True\<rparr>" using c1 by simp
    have "creds view q = (creds view p4)\<lparr>cr_keep := False\<rparr>"
      by (rule set_keep_caps_creds [OF rules 5])
    then show ?thesis
      using syscall_creds [OF rules _ 4] c3 False by (auto simp: user_creds_def)
  qed
  then show "creds view q = user_creds lc ?u (creds view p)"
    and "user_unchanged ?u \<or>
      (\<exists>v. fst (cred_step lc (Setuid (user_uid ?u)) ((creds view p)\<lparr>cr_keep := True\<rparr>)) = Inr v)"
    by simp_all
qed

lemma set_no_new_privs_creds:
  assumes "follows_cred_rules lc K view" and "set_no_new_privs K p = (Inr (), q)"
  shows "creds view q = (creds view p)\<lparr>cr_nnp := True\<rparr>"
  using assms(2) unfolding set_no_new_privs_def wrap_eff_Inr andthen_Inr ret_Inr
  by (auto dest!: syscall_creds(2) [OF assms(1), rotated] simp: pr_defs)

lemma apply_seccomp_creds:
  assumes "follows_cred_rules lc K view" and "apply_seccomp K A (Some sc) p = (Inr (), q)"
  obtains f where "compile_seccomp A sc = Inr f"
    and "creds view q = (creds view p)\<lparr>cr_filters := f # cr_filters (creds view p)\<rparr>"
proof -
  from assms(2) obtain f v where f: "compile_seccomp A sc = Inr f"
    and v: "syscall K (SetFilter f) p = (Inr v, q)"
    by (auto simp: apply_seccomp_def seccomp_set_filter_def andthen_Inr wrap_eff_Inr lift_Inr
        ret_Inr fail_Inr split: option.splits)
  from syscall_creds [OF assms(1) _ v] have
    "creds view q = (creds view p)\<lparr>cr_filters := f # cr_filters (creds view p)\<rparr>"
    by (auto split: if_splits)
  with f show ?thesis by (rule that)
qed

text \<open>The whole of \<^verbatim>\<open>execUserProcess\<close> on success.\<close>

lemma exec_user_process_steps:
  assumes "exec_user_process K A lc look env path pr lx p = (Inr (), q)"
  obtains p1 p2 p3 p4 p5 b as e v where
    "apply_process_limits K pr p = (Inr (), p1)" and "setup_user K pr p1 = (Inr (), p2)"
    and "apply_capabilities K lc (proc_capabilities pr) p2 = (Inr (), p3)"
    and "(if proc_no_new_privileges pr then set_no_new_privs K else ret ()) p3 = (Inr (), p4)"
    and "(case lx of None \<Rightarrow> ret () | Some l \<Rightarrow> apply_seccomp K A (lx_seccomp l)) p4 = (Inr (), p5)"
    and "syscall K (Execve b as e) p5 = (Inr v, q)"
proof (cases "proc_args pr")
  case Nil
  with assms show ?thesis by (simp add: exec_user_process_def Let_def fail_def)
next
  case (Cons a as)
  from assms show ?thesis
    unfolding exec_user_process_def Let_def Cons list.case andthen_Inr wrap_eff_Inr lift_Inr ret_Inr
    by (simp del: split_paired_Ex) (elim exE conjE, rule that, assumption+)
qed


subsection \<open>Runs that stop early\<close>

text \<open>\<open>stuck n m p\<close>: \<open>m\<close> fails from \<open>p\<close> having made only calls of phase at most \<open>n\<close>.\<close>

definition stuck :: "nat \<Rightarrow> ('k, 'a) eff \<Rightarrow> 'k proc \<Rightarrow> bool" where
  "stuck n m p \<longleftrightarrow> (\<exists>e q new. m p = (Inl e, q) \<and> snd q = snd p @ new \<and>
     (\<forall>c \<in> set new. call_phase (fst c) \<le> n))"

lemma stuck_andthen:
  assumes "ordered lo n m" and "\<And>x p'. m p = (Inr x, p') \<Longrightarrow> stuck n (f x) p'"
  shows "stuck n (andthen m f) p"
proof -
  obtain r q where mp: "m p = (r, q)" by (cases "m p")
  obtain new where new: "snd q = snd p @ new" "\<forall>c \<in> set new. call_phase (fst c) \<le> n"
    using assms(1) mp unfolding emits_def by (metis snd_conv)
  show ?thesis
  proof (cases r)
    case (Inl e)
    then show ?thesis using mp new by (auto simp: stuck_def andthen_def)
  next
    case (Inr x)
    obtain e q' new' where "f x q = (Inl e, q')" "snd q' = snd q @ new'"
      "\<forall>c \<in> set new'. call_phase (fst c) \<le> n"
      using assms(2) [of x q] mp Inr by (auto simp: stuck_def)
    then show ?thesis
      using mp Inr new unfolding stuck_def
      by (intro exI [of _ e] exI [of _ q'] exI [of _ "new @ new'"]) (auto simp: andthen_def)
  qed
qed

lemma stuck_now:
  assumes "ordered lo n m" and "fst (m p) = Inl e"
  shows "stuck n m p"
  using assms unfolding emits_def stuck_def by (metis prod.collapse)

lemma apply_capabilities_stuck:
  assumes rules: "follows_cred_rules lc K view" and "CAP_SETPCAP \<notin> cr_eff (creds view p)"
    and w: "resolve_capabilities caps = Inr w" and b: "b \<le> lc" "\<not> cap_has (pol_bounding w) b"
  shows "stuck 9 (apply_capabilities K lc caps) p"
proof -
  have "\<exists>b \<in> set [0..<Suc lc]. \<not> cap_has (pol_bounding w) b" using b by (intro bexI [of _ b]) auto
  then obtain e where "fst (for_each (drop_bounding K (pol_bounding w)) [0..<Suc lc] p) = Inl e"
    using drop_loop_fails [OF rules assms(2)] by blast
  then have "fst (apply_capabilities K lc caps p) = Inl e"
    using w by (auto simp: apply_capabilities_def andthen_def lift_def simp del: upt_Suc split: prod.splits)
  then show ?thesis using ordered_apply_capabilities by (rule stuck_now [rotated])
qed

lemma exec_user_process_stuck:
  assumes rules: "follows_cred_rules lc K view" and root: "cr_uid (creds view p) = 0"
    and user: "user_uid (proc_user pr) \<noteq> 0"
    and w: "resolve_capabilities (proc_capabilities pr) = Inr w"
    and b: "b \<le> lc" "\<not> cap_has (pol_bounding w) b"
  shows "stuck 9 (exec_user_process K A lc look env path pr lx) p"
proof (cases "proc_args pr")
  case Nil
  then show ?thesis by (simp add: exec_user_process_def Let_def fail_def stuck_def)
next
  case (Cons arg0 args)
  have caps: "stuck 9 (andthen (apply_capabilities K lc (proc_capabilities pr)) f) p2"
    if 1: "apply_process_limits K pr p = (Inr (), p1)" and 2: "setup_user K pr p1 = (Inr (), p2)"
    for p1 p2 and f :: "unit \<Rightarrow> ('a, unit) eff"
  proof -
    have "creds view p1 = creds view p" by (rule apply_process_limits_creds [OF rules 1])
    then have "cr_eff (creds view p2) = {}"
      using setup_user_creds [OF rules 2] user root
      by (auto simp: user_creds_def user_unchanged_def split: if_splits)
    then have "stuck 9 (apply_capabilities K lc (proc_capabilities pr)) p2"
      by (intro apply_capabilities_stuck [OF rules _ w b]) simp
    then show ?thesis
      by (intro stuck_andthen [OF ordered_apply_capabilities]) (auto simp: stuck_def)
  qed
  have lim: "ordered 0 9 (apply_process_limits K pr)" and usr: "ordered 1 9 (setup_user K pr)"
    by (rule emits_weaken [OF ordered_limits] emits_weaken [OF ordered_setup_user]; simp)+
  have find: "ordered 0 9 (lift r)" for r :: "string result" by (rule emits_lift)
  have rest: "stuck 9 (andthen (apply_process_limits K pr) (\<lambda>_. andthen (setup_user K pr) (\<lambda>_.
      andthen (apply_capabilities K lc (proc_capabilities pr)) f))) p" for f :: "unit \<Rightarrow> ('a, unit) eff"
    by (rule stuck_andthen [OF lim], rule stuck_andthen [OF usr], rule caps) auto
  show ?thesis
    unfolding exec_user_process_def Let_def Cons list.case
    by (rule stuck_andthen [OF find]) (auto simp: lift_def intro: rest)
qed

subsection \<open>Runs that succeed\<close>

lemma syscall_ok:
  assumes "follows_cred_rules lc K view" and "cred_call c"
    and "fst (cred_step lc c (creds view p)) = Inr v"
  shows "\<exists>q. syscall K c p = (Inr v, q) \<and> creds view q = snd (cred_step lc c (creds view p))"
proof -
  have "sys K c p = (Inr v, snd (sys K c p))"
    using sys_creds(1) [OF assms(1,2), of p] assms(3) by (metis prod.collapse)
  then show ?thesis using sys_creds(2) [OF assms(1,2), of p]
    by (intro exI [of _ "snd (sys K c p)"]) (simp add: syscall_sys)
qed

lemma drop_loop_ok:
  assumes "follows_cred_rules lc K view"
  shows "CAP_SETPCAP \<in> cr_eff (creds view p) \<Longrightarrow> \<forall>b \<in> set bs. b \<le> lc \<Longrightarrow>
    \<exists>q. for_each (drop_bounding K s) bs p = (Inr (), q)"
proof (induction bs arbitrary: p)
  case (Cons b bs)
  have "\<exists>p'. drop_bounding K s b p = (Inr (), p')"
  proof (cases "cap_has s b")
    case False
    have "fst (sys K (Prctl prCapBSetDrop b 0) p) = Inr 0"
      using sys_creds(1) [OF assms, of "Prctl prCapBSetDrop b 0" p] Cons.prems by simp
    then show ?thesis using False by (auto simp: drop_bounding_def split: prod.split sum.split)
  qed (simp add: drop_bounding_def)
  then obtain p' where p': "drop_bounding K s b p = (Inr (), p')" ..
  then have "cr_eff (creds view p') = cr_eff (creds view p)"
    using drop_bounding_creds [OF assms _ p'] Cons.prems by simp
  then have "\<exists>q. for_each (drop_bounding K s) bs p' = (Inr (), q)"
    using Cons.prems by (intro Cons.IH) auto
  then show ?case using p' by (auto simp: andthen_def)
qed (simp add: ret_def)

lemma raise_loop_ok:
  assumes "follows_cred_rules lc K view"
  shows "\<forall>b \<in> set bs. cap_has s b \<longrightarrow>
      b \<le> lc \<and> b \<in> cr_perm (creds view p) \<and> b \<in> cr_inh (creds view p) \<Longrightarrow>
    \<exists>q. for_each (raise_ambient K s) bs p = (Inr (), q)"
proof (induction bs arbitrary: p)
  case (Cons b bs)
  have "\<exists>p'. raise_ambient K s b p = (Inr (), p')"
  proof (cases "cap_has s b")
    case True
    have "fst (cred_step lc (Prctl prCapAmbient prCapAmbientRaise b) (creds view p)) = Inr 0"
      using True Cons.prems by (simp add: pr_defs)
    then obtain q where "syscall K (Prctl prCapAmbient prCapAmbientRaise b) p = (Inr 0, q)"
      using syscall_ok [OF assms, of "Prctl prCapAmbient prCapAmbientRaise b" p 0] by auto
    then show ?thesis using True by (auto simp: raise_ambient_def wrap_eff_Inr andthen_Inr ret_Inr)
  qed (simp add: raise_ambient_def ret_def)
  then obtain p' where p': "raise_ambient K s b p = (Inr (), p')" ..
  have "creds view p' = (creds view p)
      \<lparr>cr_amb := (if cap_has s b then {b} else {}) \<union> cr_amb (creds view p)\<rparr>"
    by (rule raise_ambient_creds [OF assms p'])
  then have "\<exists>q. for_each (raise_ambient K s) bs p' = (Inr (), q)"
    using Cons.prems by (intro Cons.IH) auto
  then show ?case using p' by (auto simp: andthen_def)
qed (simp add: ret_def)

subsection \<open>Properties\<close>

text \<open>
  C3. Whatever the kernel answers, the system calls before the user command come in the one safe
  order: limits, then groups, gid and uid, then bounding drops, ambient clear, capset and ambient
  raises, then no_new_privs, then the seccomp filter, and execve last.
\<close>

theorem privilege_drop_order:
  "\<exists>new. snd (snd (exec_user_process K A lc look env path pr lx p)) = snd p @ new \<and>
     sorted (map (call_phase \<circ> fst) new)"
  using ordered_exec unfolding emits_def by blast



text \<open>A root process on a kernel with nine capabilities, dropping to CAP_KILL under a filter.\<close>

definition root_creds :: cred where
  "root_creds = \<lparr>cr_uid = 0, cr_bset = {0, 1, 2, 3, 4, 5, 6, 7, 8}, cr_eff = {0, 1, 2, 3, 4, 5, 6, 7, 8},
     cr_perm = {0, 1, 2, 3, 4, 5, 6, 7, 8}, cr_inh = {}, cr_amb = {}, cr_keep = False,
     cr_nnp = False, cr_filters = []\<rparr>"

definition process_example :: "uint32 \<Rightarrow> process" where
  "process_example uid =
     \<lparr>proc_terminal = False, proc_console_size = None,
      proc_user = \<lparr>user_uid = uid, user_gid = 0, user_umask = None, user_additional_gids = [],
                   user_username = []\<rparr>,
      proc_args = [''/bin/true''], proc_command_line = [], proc_env = Some [''PATH=/bin''],
      proc_cwd = ''/'',
      proc_capabilities = Some \<lparr>caps_bounding = [''CAP_KILL''], caps_effective = [''CAP_KILL''],
        caps_inheritable = [], caps_permitted = [''CAP_KILL''], caps_ambient = []\<rparr>,
      proc_rlimits = [], proc_no_new_privileges = True, proc_apparmor_profile = [],
      proc_oom_score_adj = None, proc_selinux_label = []\<rparr>"

definition arch_with_seccomp :: arch where
  "arch_with_seccomp = arch_example\<lparr>syscall_numbers := [(''read'', 0), (''seccomp'', 317)]\<rparr>"

definition linux_example :: linux where
  "linux_example = empty_linux\<lparr>lx_seccomp := Some profile_example\<rparr>"

definition run_example :: "uint32 \<Rightarrow> unit result \<times> cred proc" where
  "run_example uid = exec_user_process (cred_step 8) arch_with_seccomp 8 (\<lambda>path f. Inr f) [] ''/bin''
     (process_example uid) (Some linux_example) (root_creds, [])"

lemma run_example_ok: "fst (run_example 0) = Inr ()"
  by code_simp



text \<open>
  A process that is to run as a user other than root is not started unless its bounding set
  keeps every capability: setuid(2) clears the effective set, the bounding drops that follow need
  CAP_SETPCAP in it, so the step fails with EPERM before capset, no_new_privs, seccomp and execve.
\<close>

theorem exec_as_user_fails:
  assumes "follows_cred_rules lc K view" and "cr_uid (creds view p) = 0"
    and "user_uid (proc_user pr) \<noteq> 0"
    and "resolve_capabilities (proc_capabilities pr) = Inr w"
    and "b \<le> lc" and "\<not> cap_has (pol_bounding w) b"
  shows "\<exists>e q new. exec_user_process K A lc look env path pr lx p = (Inl e, q) \<and>
    snd q = snd p @ new \<and> (\<forall>c \<in> set new. call_phase (fst c) < 12)"
  using exec_user_process_stuck [OF assms] unfolding stuck_def by fastforce

theorem exec_as_user_fails_witness:
  "\<exists>e q new. run_example 1000 = (Inl e, q) \<and> snd q = new \<and>
     (\<forall>c \<in> set new. call_phase (fst c) < 12)"
proof -
  obtain w where w: "resolve_capabilities (proc_capabilities (process_example 1000)) = Inr w"
    and no: "\<not> cap_has (pol_bounding w) 0"
  proof
    show "resolve_capabilities (proc_capabilities (process_example 1000)) =
        Inr (empty_policy\<lparr>pol_bounding := 32, pol_effective := 32, pol_permitted := 32\<rparr>)"
      by code_simp
    show "\<not> cap_has (pol_bounding (empty_policy\<lparr>pol_bounding := 32, pol_effective := 32, pol_permitted := 32\<rparr>)) 0"
      by (simp add: cap_has_def)
  qed
  have "user_uid (proc_user (process_example 1000)) \<noteq> 0" "cr_uid root_creds = 0"
    by (simp_all add: process_example_def root_creds_def)
  then show ?thesis
    using exec_as_user_fails [OF cred_step_follows _ _ w _ no,
        where p = "(root_creds, [])" and lc = 8 and A = arch_with_seccomp
          and look = "\<lambda>path f. Inr f" and env = "[]" and path = "''/bin''" and lx = "Some linux_example"]
    by (simp add: run_example_def)
qed

text \<open>
  C31. With CAP_SETPCAP effective, the capability policy is applied in full whenever the spec asks
  only for what the process may have: permitted sets within the held one, effective within
  permitted, inheritable within the held inheritable and permitted sets and the remaining bounding
  set, ambient within permitted and inheritable.
\<close>

theorem apply_capabilities_succeeds:
  assumes "follows_cred_rules lc K view" and "resolve_capabilities caps = Inr w"
    and "CAP_SETPCAP \<in> cr_eff (creds view p)"
    and "caps_of lc (pol_permitted w) \<subseteq> cr_perm (creds view p)"
    and "caps_of lc (pol_effective w) \<subseteq> caps_of lc (pol_permitted w)"
    and "caps_of lc (pol_inheritable w) \<subseteq>
      cr_inh (creds view p) \<union> (cr_bset (creds view p) \<inter> {b. cap_has (pol_bounding w) b})"
    and "caps_of lc (pol_ambient w) \<subseteq> caps_of lc (pol_permitted w) \<inter> caps_of lc (pol_inheritable w)"
  shows "\<exists>q. apply_capabilities K lc caps p = (Inr (), q) \<and>
    creds view q = policy_creds lc w (creds view p)"
proof -
  have "\<exists>p1. for_each (drop_bounding K (pol_bounding w)) [0..<Suc lc] p = (Inr (), p1)"
    by (rule drop_loop_ok [OF assms(1,3)]) auto
  then obtain p1 where 1: "for_each (drop_bounding K (pol_bounding w)) [0..<Suc lc] p = (Inr (), p1)" ..
  have c1: "creds view p1 = (creds view p)
      \<lparr>cr_bset := cr_bset (creds view p) - {b \<in> set [0..<Suc lc]. \<not> cap_has (pol_bounding w) b}\<rparr>"
    by (rule drop_loop_creds [OF assms(1) _ 1]) auto
  obtain p2 v where 2: "syscall K (Prctl prCapAmbient prCapAmbientClearAll 0) p1 = (Inr v, p2)"
    and c2: "creds view p2 = (creds view p1)\<lparr>cr_amb := {}\<rparr>"
    using syscall_ok [OF assms(1), of "Prctl prCapAmbient prCapAmbientClearAll 0" p1 0]
    by (auto simp: pr_defs)
  have "fst (cred_step lc (capset_data w) (creds view p2)) = Inr 0"
    using assms(3-6) unfolding capset_data_def cred_step.simps cap_join_halves prod.case Let_def c1 c2
    by (auto simp: caps_of_eq less_Suc_eq_le simp del: upt_Suc)
  then obtain p3 v' where 3: "syscall K (capset_data w) p2 = (Inr v', p3)"
    and c3: "creds view p3 = snd (cred_step lc (capset_data w) (creds view p2))"
    using syscall_ok [OF assms(1), of "capset_data w" p2 0] by (auto simp: capset_data_def)
  have c3': "cr_perm (creds view p3) = caps_of lc (pol_permitted w)"
    "cr_inh (creds view p3) = caps_of lc (pol_inheritable w)"
    using c3 \<open>fst (cred_step lc (capset_data w) (creds view p2)) = Inr 0\<close>
    by (auto simp: capset_data_def cap_join_halves Let_def split: if_splits)
  have "\<exists>q. for_each (raise_ambient K (pol_ambient w)) [0..<Suc lc] p3 = (Inr (), q)"
  proof (rule raise_loop_ok [OF assms(1)])
    have "b \<le> lc \<Longrightarrow> cap_has (pol_ambient w) b \<Longrightarrow>
        cap_has (pol_permitted w) b \<and> cap_has (pol_inheritable w) b" for b
      using assms(7) unfolding caps_of_eq by blast
    then show "\<forall>b \<in> set [0..<Suc lc]. cap_has (pol_ambient w) b \<longrightarrow>
        b \<le> lc \<and> b \<in> cr_perm (creds view p3) \<and> b \<in> cr_inh (creds view p3)"
      unfolding c3' caps_of_eq by (auto simp del: upt_Suc)
  qed
  then obtain q where 4: "for_each (raise_ambient K (pol_ambient w)) [0..<Suc lc] p3 = (Inr (), q)" ..
  have ok: "apply_capabilities K lc caps p = (Inr (), q)"
    using assms(2) 1 2 3 4
    by (simp add: apply_capabilities_def andthen_def lift_def wrap_eff_def del: upt_Suc)
  from apply_capabilities_creds [OF assms(1) ok] show ?thesis using ok assms(2) by auto
qed

theorem apply_capabilities_succeeds_witness:
  "\<exists>w q. resolve_capabilities (proc_capabilities (process_example 0)) = Inr w \<and>
     apply_capabilities (cred_step 8) 8 (proc_capabilities (process_example 0)) (root_creds, []) = (Inr (), q) \<and>
     creds (\<lambda>c. c) q = policy_creds 8 w root_creds"
proof -
  let ?w = "empty_policy\<lparr>pol_bounding := 32, pol_effective := 32, pol_permitted := 32\<rparr>"
  have w: "resolve_capabilities (proc_capabilities (process_example 0)) = Inr ?w" by code_simp
  have sets: "caps_of 8 32 = {5}" "caps_of 8 0 = {}"
    by (code_simp; fail)+
  show ?thesis
    using apply_capabilities_succeeds [OF cred_step_follows w, of "(root_creds, [])" 8] w
    by (simp add: sets root_creds_def CAP_SETPCAP_def empty_policy_def del: split_paired_Ex)
qed

text \<open>
  On 32-bit arm a seccomp profile can never be installed: the generated table does not have
  the number of seccomp(2), so every container with a profile is refused before execve.
\<close>

theorem seccomp_never_installs_on_arm:
  "\<exists>e. apply_seccomp K arm (Some sc) p = (Inl e, p)"
proof -
  have "''seccomp'' \<notin> fst ` set syscalls_arm_1" "''seccomp'' \<notin> fst ` set syscalls_arm_2"
    "''seccomp'' \<notin> fst ` set syscalls_arm_3"
    by (simp_all add: syscalls_arm_1_def syscalls_arm_2_def syscalls_arm_3_def)
  then have "map_of syscall_numbers_arm ''seccomp'' = None"
    by (simp add: map_of_eq_None_iff syscall_numbers_arm_def image_Un)
  then have "map_of (syscall_numbers arm) ''seccomp'' = None" by (simp add: arm_def)
  then show ?thesis
    by (cases "compile_seccomp arm sc")
      (simp_all add: apply_seccomp_def andthen_def lift_def wrap_eff_def seccomp_set_filter_def fail_def)
qed

end
