(* ===== verification/File_Calls.thy ===== *)
theory File_Calls
  imports Effects Oci_Spec
begin

section \<open>File system and mount calls\<close>

text \<open>
  The calls with which \<^verbatim>\<open>pkg/runtime/fs.go\<close> looks at and changes the file system, as calls to a
  world (theory Effects). \<^verbatim>\<open>os.MkdirAll\<close>, \<^verbatim>\<open>os.WriteFile\<close> and the open-create-close of a bind
  target are one call each. Errors are the errno; the path that os puts around it is left out.
\<close>

datatype file_kind = Directory | SymbolicLink | OtherFile

datatype answer = Done | Kind file_kind | Target string

datatype fcall =
    Stat string
  | Lstat string
  | Readlink string
  | MkdirAll string uint32
  | CreateFile string uint32
  | WriteFile string string uint32
  | Symlink string string
  | Mknod string uint32 int64
  | Chown string int64 int64
  | Mount string string string uintptr string
    \<comment> \<open>source, target, file system type, flags, data\<close>
  | PivotRoot string string
  | Chdir string
  | Unmount string uintptr
  | Remove string

type_synonym 'k files = "(fcall, answer, 'k) world"
type_synonym ('k, 'a) fprog = "(fcall, answer, 'k, 'a) prog"
type_synonym 'k frun = "(fcall, answer, 'k) run"

fun is_symlink :: "answer \<Rightarrow> bool" where
  "is_symlink (Kind k) \<longleftrightarrow> k = SymbolicLink"
| "is_symlink _ \<longleftrightarrow> False"

fun is_dir :: "answer \<Rightarrow> bool" where
  "is_dir (Kind k) \<longleftrightarrow> k = Directory"
| "is_dir _ \<longleftrightarrow> False"

fun link_target :: "answer \<Rightarrow> string" where
  "link_target (Target t) = t"
| "link_target _ = []"

text \<open>\<^verbatim>\<open>os.IsExist\<close> of an error: EEXIST, or ENOTEMPTY (39).\<close>

fun is_exist :: "goerr \<Rightarrow> bool" where
  "is_exist (Errno n) \<longleftrightarrow> n = EEXIST \<or> n = EOTHER 39"
| "is_exist _ \<longleftrightarrow> False"

text \<open>A call of which only the error counts.\<close>

definition perform :: "'k files \<Rightarrow> fcall \<Rightarrow> ('k, unit) fprog" where
  "perform K c = andthen (syscall K c) (\<lambda>_. ret ())"

lemma only_perform [only_intros]: "P c \<Longrightarrow> only P (perform K c)"
  unfolding perform_def by (intro only_intros)

lemma perform_Inr: "perform K c p = (Inr (), q) \<longleftrightarrow> (\<exists>a. syscall K c p = (Inr a, q))"
  unfolding perform_def andthen_Inr ret_Inr by auto

end
