(* ===== verification/Oci_Load.thy ===== *)
theory Oci_Load
  imports Oci_Spec Go_Paths
begin

section \<open>Bundles (pkg/oci/load.go)\<close>

text \<open>
  Reading and writing \<^verbatim>\<open>config.json\<close>, resolving the root filesystem of a bundle, containment of
  paths, and the namespace queries on a spec. The file system is seen through the calls the code
  makes: \<open>read_file\<close>, \<open>write_file\<close> and \<open>stat\<close> (is the path there, is it a directory); \<open>cwd\<close> is the
  working directory of the process, \<open>unmarshal\<close> and \<open>marshal\<close> are encoding/json on the spec types.
\<close>

subsection \<open>The code\<close>

definition config_file :: string where
  "config_file = ''config.json''"

definition load_spec ::
  "(string \<Rightarrow> string result) \<Rightarrow> (string \<Rightarrow> spec result) \<Rightarrow> string \<Rightarrow> spec result" where
  "load_spec read_file unmarshal bundle =
     (let path = join_path [bundle, config_file]
      in ebind (ewrap ''reading %s: %w'' [path] (read_file path)) (\<lambda>data.
         ebind (ewrap ''parsing %s: %w'' [path] (unmarshal data)) (\<lambda>spec.
         if spec_version spec = [] then Inl (Errorf ''%s: ociVersion is required'' [path])
         else Inr spec)))"

definition save_spec ::
  "(spec \<Rightarrow> string result) \<Rightarrow> (string \<Rightarrow> string \<Rightarrow> 'fs \<Rightarrow> unit result \<times> 'fs) \<Rightarrow>
   spec \<Rightarrow> string \<Rightarrow> 'fs \<Rightarrow> unit result \<times> 'fs" where
  "save_spec marshal write_file spec bundle fs =
     (case ewrap ''encoding spec: %w'' [] (marshal spec) of
        Inl e \<Rightarrow> (Inl e, fs)
      | Inr data \<Rightarrow>
          let path = join_path [bundle, config_file];
              (r, fs') = write_file path (data @ [CHR 0x0A]) fs
          in (ewrap ''writing %s: %w'' [path] r, fs'))"

definition is_within :: "string \<Rightarrow> string \<Rightarrow> bool" where
  "is_within parent path \<longleftrightarrow> path = parent \<or> has_prefix path (parent @ ''/'')"

definition resolve_rootfs ::
  "string \<Rightarrow> (string \<Rightarrow> bool result) \<Rightarrow> spec \<Rightarrow> string \<Rightarrow> string result" where
  "resolve_rootfs cwd stat spec bundle =
     (case spec_root spec of
        None \<Rightarrow> Inl (Errorf ''spec has no root.path'' [])
      | Some root \<Rightarrow>
          if root_path root = [] then Inl (Errorf ''spec has no root.path'' [])
          else
            let rootfs = clean (if is_abs (root_path root) then root_path root
                                else join_path [bundle, root_path root]);
                abs_bundle = abs_path cwd bundle
            in if \<not> is_abs (root_path root) \<and> \<not> is_within abs_bundle rootfs
               then Inl (Errorf ''root.path %q escapes the bundle directory'' [root_path root])
               else ebind (ewrap ''rootfs %s: %w'' [rootfs] (stat rootfs)) (\<lambda>is_dir.
                    if is_dir then Inr rootfs
                    else Inl (Errorf ''rootfs %s is not a directory'' [rootfs])))"

text \<open>The methods \<^verbatim>\<open>HasNamespace\<close> and \<^verbatim>\<open>Namespace\<close> of a spec.\<close>

definition has_namespace :: "spec \<Rightarrow> namespace_type \<Rightarrow> bool" where
  "has_namespace s t =
     (case spec_linux s of None \<Rightarrow> False
      | Some l \<Rightarrow> list_ex (\<lambda>ns. ns_type ns = t) (lx_namespaces l))"

definition namespace_entry :: "spec \<Rightarrow> namespace_type \<Rightarrow> namespace option" where
  "namespace_entry s t =
     (case spec_linux s of None \<Rightarrow> None
      | Some l \<Rightarrow> find (\<lambda>ns. ns_type ns = t) (lx_namespaces l))"

lemma find_Some_ex: "find P xs \<noteq> None \<longleftrightarrow> list_ex P xs"
  by (induction xs) simp_all

lemma has_namespace_entry: "has_namespace s t \<longleftrightarrow> namespace_entry s t \<noteq> None"
  by (simp add: has_namespace_def namespace_entry_def find_Some_ex split: option.split del: not_None_eq)

subsection \<open>Containment\<close>

text \<open>On cleaned absolute paths the test is containment of component lists.\<close>

lemma is_within_path_of:
  assumes "list_all normal ps" and "list_all normal cs" and "ps \<noteq> []"
  shows "is_within (path_of ps) (path_of cs) \<longleftrightarrow> prefix ps cs"
proof
  assume "prefix ps cs"
  then obtain ds where ds: "cs = ps @ ds" by (auto simp: prefix_def)
  then show "is_within (path_of ps) (path_of cs)"
    by (cases ds) (auto simp: is_within_def path_of_append)
next
  have slash: "CHR ''/'' \<notin> set c" if "c \<in> set ps \<union> set cs" for c
    using that assms by (auto simp: list_all_iff normal_def)
  assume "is_within (path_of ps) (path_of cs)"
  then consider "path_of cs = path_of ps" | s where "path_of cs = path_of ps @ CHR ''/'' # s"
    by (auto simp: is_within_def prefix_def)
  then show "prefix ps cs"
  proof cases
    case 1
    then show ?thesis using path_of_inject [of cs ps] slash by auto
  next
    case 2
    have "split_on CHR ''/'' (path_of cs) = [] # cs" "split_on CHR ''/'' (path_of ps) = [] # ps"
      by (rule split_path_of, use slash in blast)+
    then have "[] # cs = ([] # ps) @ split_on CHR ''/'' s"
      using 2 by (simp add: split_on_slash_append)
    then show ?thesis by auto
  qed
qed

lemma is_within_absolute: "is_within p q \<Longrightarrow> is_abs p \<Longrightarrow> is_abs q"
  by (auto simp: is_within_def is_abs_def prefix_def append_eq_Cons_conv)

lemma is_within_root: "is_within ''/'' p \<longleftrightarrow> p = ''/'' \<or> has_prefix p ''//''"
  by (simp add: is_within_def)

subsection \<open>The root filesystem of a bundle\<close>

lemma clean_comps_rooted_abs:
  assumes "list_all normal bs"
  shows "list_all normal (clean_comps True (rev bs) (split_on CHR ''/'' s))"
  using assms by (intro clean_comps_rooted) (auto simp: list_all_rev dest: split_on_parts)

lemma clean_idem_join:
  assumes "list_all normal bs" and "bs \<noteq> []" and "ds = clean_comps True (rev bs) (split_on CHR ''/'' s)"
  shows "clean (join_path [path_of bs, s]) = (if ds = [] then ''/'' else path_of ds)"
proof -
  have join: "join_path [path_of bs, s] = (if ds = [] then ''/'' else path_of ds)"
    using assms by (simp add: join_path_Nil_tail clean_path_of_join)
  have "list_all normal ds" using clean_comps_rooted_abs [OF assms(1)] assms(3) by simp
  then show ?thesis
    unfolding join by (simp add: clean_path_of) (simp add: clean_def)
qed

lemma clean_absolute: "is_abs s \<Longrightarrow> is_abs (clean s)"
  by (auto simp: is_abs_def prefix_def clean_rooted dest: path_of_eq_Nil [THEN iffD2] split: if_splits)
     (metis is_abs_def is_abs_path_of prefix_def append_Cons append_Nil)

lemma clean_comps_parts:
  "(\<And>c. c \<in> set acc \<union> set cs \<Longrightarrow> c \<noteq> [] \<longrightarrow> CHR ''/'' \<notin> set c) \<Longrightarrow> [] \<notin> set acc \<Longrightarrow>
   x \<in> set (clean_comps r acc cs) \<Longrightarrow> x \<noteq> [] \<and> CHR ''/'' \<notin> set x"
proof (induction r acc cs rule: clean_comps.induct)
  case (2 r acc c cs)
  then show ?case by (auto split: if_splits list.splits)
qed auto

lemma clean_relative:
  assumes "\<not> is_abs s"
  shows "\<not> is_abs (clean s)"
proof (cases "s = []")
  case False
  let ?cs = "clean_comps False [] (split_on CHR ''/'' s)"
  have "x \<noteq> [] \<and> CHR ''/'' \<notin> set x" if "x \<in> set ?cs" for x
    using that by (rule clean_comps_parts [rotated 2]) (auto dest: split_on_parts)
  then have "\<not> has_prefix (join_with ''/'' ?cs) ''/''"
    by (cases "(''/'', ?cs)" rule: join_with.cases) (fastforce simp: neq_Nil_conv)+
  then show ?thesis using False assms by (simp add: clean_def is_abs_def Let_def)
qed (simp add: clean_def is_abs_def)


definition bundle_spec :: "string \<Rightarrow> spec" where
  "bundle_spec root = \<lparr>spec_version = ''1.0.2'', spec_process = None,
     spec_root = Some \<lparr>root_path = root, root_readonly = False\<rparr>, spec_hostname = [],
     spec_domainname = [], spec_mounts = [], spec_hooks = None, spec_annotations = [], spec_linux = None\<rparr>"


text \<open>
  With the bundle given as a relative path, as the default \<^verbatim>\<open>--bundle .\<close> is, a relative
  \<^verbatim>\<open>root.path\<close> is always refused as escaping the bundle: the bundle is made absolute for the
  comparison, the root is not.
\<close>

theorem resolve_rootfs_relative_bundle:
  assumes "is_abs cwd" and "\<not> is_abs bundle" and "spec_root s = Some root"
    and "root_path root \<noteq> []" and "\<not> is_abs (root_path root)"
  shows "resolve_rootfs cwd stat s bundle =
    Inl (Errorf ''root.path %q escapes the bundle directory'' [root_path root])"
proof -
  have "is_abs (abs_path cwd bundle)"
    using assms(1,2) by (cases cwd) (auto simp: abs_path_def join_path_Nil_tail is_abs_def intro!: clean_absolute [unfolded is_abs_def])
  moreover have "\<not> is_abs (clean (join_path [bundle, root_path root]))"
    using assms(2,4,5) by (cases "bundle") (auto simp: join_path_def is_abs_def intro!: clean_relative [unfolded is_abs_def])
  ultimately have "\<not> is_within (abs_path cwd bundle) (clean (join_path [bundle, root_path root]))"
    using is_within_absolute by blast
  then show ?thesis using assms(3-5) by (simp add: resolve_rootfs_def Let_def)
qed

theorem resolve_rootfs_relative_bundle_witness:
  "resolve_rootfs ''/home/u'' (\<lambda>p. Inr True) (bundle_spec ''rootfs'') ''.'' =
     Inl (Errorf ''root.path %q escapes the bundle directory'' [''rootfs''])"
  using resolve_rootfs_relative_bundle [of "''/home/u''" "''.''" "bundle_spec ''rootfs''"
      "\<lparr>root_path = ''rootfs'', root_readonly = False\<rparr>" "\<lambda>p. Inr True"]
  by (simp add: bundle_spec_def is_abs_def)

end
