(* ===== verification/Secure_Join.thy ===== *)
theory Secure_Join
  imports File_Calls Oci_Load
begin

section \<open>Container paths stay inside the root (secureJoin in pkg/runtime/fs.go)\<close>

text \<open>
  \<^verbatim>\<open>secureJoin\<close> walks a path of the container component by component, following symbolic links
  relative to the root file system. First the code on strings, then the same walk on lists of
  components, a refinement lemma between them, and what the walk guarantees for every world,
  one that changes under the walk included.
\<close>

subsection \<open>The code\<close>

definition max_symlink_depth :: nat where
  "max_symlink_depth = 32"

function secure_walk ::
  "'k files \<Rightarrow> string \<Rightarrow> string \<Rightarrow> nat \<Rightarrow> string \<Rightarrow> string \<Rightarrow> ('k, string) fprog" where
  "secure_walk K rootfs unsafe depth current remaining p =
     (if remaining = [] \<or> remaining = ''/'' then
        (if is_within rootfs current then (Inr current, p)
         else (Inl (Errorf ''path %q escapes the container root'' [unsafe]), p))
      else if max_symlink_depth < depth then
        (Inl (Errorf ''too many symbolic links resolving %q'' [unsafe]), p)
      else
        (case cut CHR ''/'' (trim_prefix remaining ''/'') of (part, rest, _) \<Rightarrow>
         if part = [] \<or> part = ''.'' then secure_walk K rootfs unsafe (Suc depth) current rest p
         else if part = ''..'' then
           secure_walk K rootfs unsafe (Suc depth)
             (if current \<noteq> rootfs then dir_of current else current) rest p
         else
           (let next = join_path [current, part]
            in case syscall K (Lstat next) p of
                 (Inl _, p1) \<Rightarrow> (Inr (join_path [next, rest]), p1)
               | (Inr kind, p1) \<Rightarrow>
                   if \<not> is_symlink kind then secure_walk K rootfs unsafe (Suc depth) next rest p1
                   else
                     (case syscall K (Readlink next) p1 of
                        (Inl e, p2) \<Rightarrow> (Inl (Wrapf ''reading symlink %s: %w'' [next] e), p2)
                      | (Inr a, p2) \<Rightarrow>
                          let link = link_target a
                          in secure_walk K rootfs unsafe (Suc depth)
                               (if is_abs link then rootfs else current)
                               (''/'' @ trim_prefix (join_path [link, rest]) ''/'') p2))))"
  by pat_completeness auto
termination
  by (relation "measure (\<lambda>(_, _, _, depth, _). Suc max_symlink_depth - depth)") auto

declare secure_walk.simps [simp del]

definition secure_join :: "'k files \<Rightarrow> string \<Rightarrow> string \<Rightarrow> ('k, string) fprog" where
  "secure_join K rootfs unsafe =
     secure_walk K rootfs unsafe 0 rootfs (clean (''/'' @ unsafe))"

subsection \<open>The walk on components\<close>

definition link_comps :: "string \<Rightarrow> string list \<Rightarrow> string list" where
  "link_comps link cs =
     (if link = [] then cs
      else if is_abs link then clean_comps True [] (split_on CHR ''/'' link @ cs)
      else case clean_comps False [] (split_on CHR ''/'' link @ cs) of
             [] \<Rightarrow> [''.''] | d # ds \<Rightarrow> d # ds)"

function jail_walk ::
  "'k files \<Rightarrow> string list \<Rightarrow> string \<Rightarrow> nat \<Rightarrow> string list \<Rightarrow> string list \<Rightarrow> ('k, string) fprog" where
  "jail_walk K rs unsafe depth cur [] p = (Inr (path_of (rs @ cur)), p)"
| "jail_walk K rs unsafe depth cur (c # cs) p =
     (if max_symlink_depth < depth then
        (Inl (Errorf ''too many symbolic links resolving %q'' [unsafe]), p)
      else if c = ''.'' then jail_walk K rs unsafe (Suc depth) cur cs p
      else if c = ''..'' then jail_walk K rs unsafe (Suc depth) (butlast cur) cs p
      else
        case syscall K (Lstat (path_of (rs @ cur @ [c]))) p of
          (Inl _, p1) \<Rightarrow> (Inr (path_of (rs @ cur @ c # cs)), p1)
        | (Inr kind, p1) \<Rightarrow>
            if \<not> is_symlink kind then jail_walk K rs unsafe (Suc depth) (cur @ [c]) cs p1
            else
              (case syscall K (Readlink (path_of (rs @ cur @ [c]))) p1 of
                 (Inl e, p2) \<Rightarrow>
                   (Inl (Wrapf ''reading symlink %s: %w'' [path_of (rs @ cur @ [c])] e), p2)
               | (Inr a, p2) \<Rightarrow>
                   jail_walk K rs unsafe (Suc depth) (if is_abs (link_target a) then [] else cur)
                     (link_comps (link_target a) cs) p2))"
  by pat_completeness auto
termination
  by (relation "measure (\<lambda>(_, _, _, depth, _). Suc max_symlink_depth - depth)") auto

text \<open>What is left to walk: some \<open>..\<close>, then normal components; or a single dot.\<close>

definition walkable :: "string list \<Rightarrow> bool" where
  "walkable cs \<longleftrightarrow>
     cs = [''.''] \<or> (\<exists>k ns. cs = replicate k ''..'' @ ns \<and> list_all normal ns)"

lemma walkable_normal: "list_all normal cs \<Longrightarrow> walkable cs"
  unfolding walkable_def by (intro disjI2 exI [of _ 0]) simp

lemma walkable_part:
  assumes "walkable cs" and "c \<in> set cs"
  shows "c \<noteq> []" and "CHR ''/'' \<notin> set c"
proof -
  consider "cs = [''.'']" | k ns where "cs = replicate k ''..'' @ ns" "list_all normal ns"
    using assms(1) unfolding walkable_def by blast
  then have "c = ''.'' \<or> c = ''..'' \<or> normal c"
    using assms(2) by cases (auto simp: list_all_iff)
  then show "c \<noteq> []" "CHR ''/'' \<notin> set c" by (auto simp: normal_def)
qed

lemma walkable_ConsD:
  assumes "walkable (c # cs)"
  shows "walkable cs" and "c \<noteq> ''.'' \<Longrightarrow> c \<noteq> ''..'' \<Longrightarrow> normal c \<and> list_all normal cs"
proof -
  consider "c = ''.''" "cs = []" | k ns where "c # cs = replicate k ''..'' @ ns" "list_all normal ns"
    using assms by (auto simp: walkable_def)
  then have "walkable cs \<and> (c \<noteq> ''.'' \<longrightarrow> c \<noteq> ''..'' \<longrightarrow> normal c \<and> list_all normal cs)"
  proof cases
    case (2 k ns)
    show ?thesis
    proof (cases k)
      case 0
      then have "list_all normal (c # cs)" using 2 by simp
      then show ?thesis by (simp add: walkable_normal)
    next
      case (Suc j)
      then show ?thesis using 2 by (auto simp: walkable_def)
    qed
  qed (simp add: walkable_normal)
  then show "walkable cs" "c \<noteq> ''.'' \<Longrightarrow> c \<noteq> ''..'' \<Longrightarrow> normal c \<and> list_all normal cs"
    by simp_all
qed

lemma clean_comps_walkable:
  "rev acc = replicate k ''..'' @ ns \<Longrightarrow> list_all normal ns \<Longrightarrow>
   \<forall>c \<in> set cs. CHR ''/'' \<notin> set c \<Longrightarrow>
   \<exists>k ns. clean_comps False acc cs = replicate k ''..'' @ ns \<and> list_all normal ns"
proof (induction cs arbitrary: acc k ns)
  case (Cons c cs)
  then have cs: "\<forall>c \<in> set cs. CHR ''/'' \<notin> set c" and c: "CHR ''/'' \<notin> set c" by simp_all
  consider "c = [] \<or> c = ''.''" | "c = ''..''" "ns = []" | "c = ''..''" "ns \<noteq> []" | "normal c"
    using c by (auto simp: normal_def)
  then show ?case
  proof cases
    case 1
    then show ?thesis using Cons.IH [OF Cons.prems(1,2) cs] by auto
  next
    case 2
    then have acc: "acc = replicate k ''..''" using Cons.prems(1) by (simp add: rev_swap)
    have "\<exists>k ns. clean_comps False (''..'' # acc) cs = replicate k ''..'' @ ns \<and> list_all normal ns"
      by (rule Cons.IH [of _ "Suc k" "[]"]) (simp_all add: acc cs replicate_append_same)
    then show ?thesis using 2 acc by (cases k) simp_all
  next
    case 3
    then obtain ms m where ns: "ns = ms @ [m]" using rev_exhaust by blast
    then have acc: "acc = m # rev ms @ replicate k ''..''" using Cons.prems(1)
      by (simp add: rev_swap)
    have "normal m" "list_all normal ms" using Cons.prems(2) ns by simp_all
    then show ?thesis
      using 3 Cons.IH [of "rev ms @ replicate k ''..''" k ms] cs by (simp add: acc normalD)
  next
    case 4
    have "\<exists>k ns. clean_comps False (c # acc) cs = replicate k ''..'' @ ns \<and> list_all normal ns"
      by (rule Cons.IH [of _ k "ns @ [c]"]) (use Cons.prems 4 cs in simp_all)
    then show ?thesis using 4 by (simp add: normalD)
  qed
qed auto

lemma link_comps_walkable:
  assumes "list_all normal cs"
  shows "walkable (link_comps link cs)"
proof -
  have slash: "\<forall>c \<in> set (split_on CHR ''/'' link @ cs). CHR ''/'' \<notin> set c"
    using assms by (auto simp: list_all_iff normal_def dest: split_on_parts)
  obtain k ns where "clean_comps False [] (split_on CHR ''/'' link @ cs) = replicate k ''..'' @ ns"
    "list_all normal ns"
    using clean_comps_walkable [of "[]" 0 "[]", OF _ _ slash] by auto
  then have "walkable (clean_comps False [] (split_on CHR ''/'' link @ cs))" "walkable [''.'']"
    by (auto simp: walkable_def)
  moreover have "walkable (clean_comps True [] (split_on CHR ''/'' link @ cs))"
    by (rule walkable_normal, rule clean_comps_rooted) (use slash in auto)
  ultimately show ?thesis
    using assms by (auto simp: link_comps_def walkable_normal split: list.split)
qed

subsection \<open>The code refines the walk\<close>

text \<open>The strings that stand for a list of components still to be walked.\<close>

definition stands_for :: "string \<Rightarrow> string list \<Rightarrow> bool" where
  "stands_for s cs \<longleftrightarrow> s = path_of cs \<or> s = join_with ''/'' cs \<or> (cs = [] \<and> s = ''/'')"

lemma cut_join_with:
  "CHR ''/'' \<notin> set c \<Longrightarrow> cut CHR ''/'' (join_with ''/'' (c # cs)) = (c, join_with ''/'' cs, cs \<noteq> [])"
  by (cases cs) (simp_all add: cut_found cut_none)

lemma join_with_Cons_head:
  assumes "c \<noteq> []" and "CHR ''/'' \<notin> set c"
  shows "\<not> has_prefix (join_with ''/'' (c # cs)) ''/''" and "join_with ''/'' (c # cs) \<noteq> []"
  using assms by (cases cs; cases c; simp)+

lemma stands_for_cut:
  assumes "stands_for s (c # cs)" and "walkable (c # cs)"
  shows "cut CHR ''/'' (trim_prefix s ''/'') = (c, join_with ''/'' cs, cs \<noteq> [])"
    and "s \<noteq> []" and "s \<noteq> ''/''"
proof -
  have c: "c \<noteq> []" "CHR ''/'' \<notin> set c" using walkable_part [OF assms(2), of c] by simp_all
  have s: "s = ''/'' @ join_with ''/'' (c # cs) \<or> s = join_with ''/'' (c # cs)"
    using assms(1) path_of_join [of "c # cs"] by (auto simp: stands_for_def)
  then have "trim_prefix s ''/'' = join_with ''/'' (c # cs)"
    using join_with_Cons_head [OF c] by (auto simp: trim_prefix_def)
  then show "cut CHR ''/'' (trim_prefix s ''/'') = (c, join_with ''/'' cs, cs \<noteq> [])"
    using cut_join_with [OF c(2)] by simp
  show "s \<noteq> []" "s \<noteq> ''/''" using s join_with_Cons_head [OF c, of cs] by auto
qed

lemma split_on_join_with:
  assumes "list_all normal cs" and "cs \<noteq> []"
  shows "split_on CHR ''/'' (join_with ''/'' cs) = cs"
proof -
  have "split_on CHR ''/'' (path_of cs) = [] # cs"
    using assms(1) by (intro split_path_of) (auto simp: list_all_iff normal_def)
  then show ?thesis by (simp add: path_of_join [OF assms(2)])
qed

lemma clean_comps_empty_tail: "clean_comps r acc (cs @ [[]]) = clean_comps r acc cs"
  by (induction r acc cs rule: clean_comps.induct) (auto split: list.split)

lemma clean_comps_rest:
  assumes "list_all normal cs"
  shows "clean_comps r acc (xs @ split_on CHR ''/'' (join_with ''/'' cs)) = clean_comps r acc (xs @ cs)"
  using assms split_on_join_with [OF assms] by (cases "cs = []") (simp_all add: clean_comps_empty_tail)

text \<open>What is left to walk after a symbolic link.\<close>

lemma stands_for_link:
  assumes "list_all normal cs"
  shows "stands_for (''/'' @ trim_prefix (join_path [link, join_with ''/'' cs]) ''/'') (link_comps link cs)"
proof (cases "link = []")
  case True
  have "clean (join_with ''/'' cs) = join_with ''/'' cs" if "cs \<noteq> []"
  proof -
    obtain c ds where cs: "cs = c # ds" using \<open>cs \<noteq> []\<close> by (cases cs) auto
    then have "c \<noteq> []" "CHR ''/'' \<notin> set c" using assms by (simp_all add: normalD)
    then have "\<not> has_prefix (join_with ''/'' cs) ''/''" "join_with ''/'' cs \<noteq> []"
      unfolding cs by (rule join_with_Cons_head)+
    moreover have "clean_comps False [] (split_on CHR ''/'' (join_with ''/'' cs)) = cs"
      using assms that by (simp add: split_on_join_with clean_comps_normal)
    ultimately show ?thesis by (simp add: clean_def Let_def)
  qed
  then have "join_path [link, join_with ''/'' cs] = join_with ''/'' cs"
    using True by (cases "cs = []") (simp_all add: join_path_def)
  moreover have "\<not> has_prefix (join_with ''/'' cs) ''/''"
    using assms join_with_Cons_head(1) [of "hd cs" "tl cs"]
    by (cases cs) (auto dest: normalD simp del: join_with.simps(3))
  ultimately show ?thesis
    using True path_of_join [of cs] by (cases "cs = []") (auto simp: stands_for_def link_comps_def trim_prefix_def)
next
  case False
  let ?ds = "clean_comps (is_abs link) [] (split_on CHR ''/'' link @ cs)"
  have join: "join_path [link, join_with ''/'' cs] = clean (link @ ''/'' @ join_with ''/'' cs)"
    using False by (simp add: join_path_Nil_tail)
  have comps: "clean_comps r [] (split_on CHR ''/'' (link @ ''/'' @ join_with ''/'' cs)) =
      clean_comps r [] (split_on CHR ''/'' link @ cs)" for r
    using clean_comps_rest [OF assms] by (simp add: split_on_slash_append)
  show ?thesis
  proof (cases "is_abs link")
    case True
    have "clean (link @ ''/'' @ join_with ''/'' cs) = ''/'' @ join_with ''/'' ?ds"
      using True False comps by (simp add: clean_def is_abs_def Let_def)
    then show ?thesis
      using True False path_of_join [of ?ds] join
      by (cases "?ds = []") (auto simp: stands_for_def link_comps_def trim_prefix_def)
  next
    case rel: False
    have norel: "\<not> has_prefix (link @ ''/'' @ join_with ''/'' cs) ''/''"
      using rel False by (cases link) (auto simp: is_abs_def)
    then have clean: "clean (link @ ''/'' @ join_with ''/'' cs) =
        (if join_with ''/'' ?ds = [] then ''.'' else join_with ''/'' ?ds)"
      using False comps rel by (simp add: clean_def Let_def)
    have "\<not> is_abs (clean (link @ ''/'' @ join_with ''/'' cs))"
      using norel by (intro clean_relative) (simp add: is_abs_def)
    then have trim: "trim_prefix (clean (link @ ''/'' @ join_with ''/'' cs)) ''/'' =
        clean (link @ ''/'' @ join_with ''/'' cs)"
      by (simp add: trim_prefix_def is_abs_def)
    have comps_eq: "link_comps link cs = (if ?ds = [] then [''.''] else ?ds)"
      using rel False by (simp add: link_comps_def split: list.split)
    show ?thesis
    proof (cases "?ds = []")
      case True
      then have "link_comps link cs = [''.'']" unfolding comps_eq by simp
      moreover have "clean (link @ ''/'' @ join_with ''/'' cs) = ''.''" using True clean by simp
      ultimately show ?thesis using join trim by (simp add: stands_for_def)
    next
      case ne: False
      then obtain d ds where ds: "?ds = d # ds" by (meson neq_Nil_conv)
      have "walkable ?ds" using link_comps_walkable [OF assms, of link] ne comps_eq by simp
      then have "join_with ''/'' ?ds \<noteq> []"
        unfolding ds by (intro join_with_Cons_head(2)) (auto dest: walkable_part)
      then have "''/'' @ clean (link @ ''/'' @ join_with ''/'' cs) = path_of ?ds"
        using clean path_of_join [OF ne] by simp
      moreover have "link_comps link cs = ?ds" using ne comps_eq by simp
      ultimately show ?thesis
        unfolding join trim stands_for_def by (simp only: simp_thms)
    qed
  qed
qed

lemma jail_walk_Nil [simp]: "jail_walk K rs u d cur [] p = (Inr (path_of (rs @ cur)), p)"
  by simp

declare jail_walk.simps(2) [simp del]

lemma stands_for_rest: "stands_for (join_with ''/'' cs) cs"
  by (simp add: stands_for_def)

lemma secure_walk_refines:
  assumes "list_all normal rs" and "rs \<noteq> []"
  shows "list_all normal cur \<Longrightarrow> walkable cs \<Longrightarrow> stands_for s cs \<Longrightarrow>
    secure_walk K (path_of rs) u d (path_of (rs @ cur)) s p = jail_walk K rs u d cur cs p"
  using assms
proof (induction K rs u d cur cs p arbitrary: s rule: jail_walk.induct)
  case (1 K rs u d cur p)
  then have "is_within (path_of rs) (path_of (rs @ cur))"
    by (simp add: is_within_path_of)
  moreover have "s = [] \<or> s = ''/''" using 1 by (auto simp: stands_for_def)
  ultimately show ?case by (subst secure_walk.simps) simp
next
  case (2 K rs u d cur c cs p)
  note s = stands_for_cut [OF "2.prems"(3,2)]
  note cs = walkable_ConsD [OF "2.prems"(2)]
  note rs = "2.prems"(4,5) and cur = "2.prems"(1)
  show ?case
  proof (cases "d \<le> max_symlink_depth \<and> c \<noteq> ''.'' \<and> c \<noteq> ''..''")
    case False
    have "c \<noteq> []" by (rule walkable_part(1) [OF "2.prems"(2)]) simp
    have up: "(if path_of (rs @ cur) \<noteq> path_of rs then dir_of (path_of (rs @ cur))
        else path_of (rs @ cur)) = path_of (rs @ butlast cur)"
    proof (cases cur rule: rev_cases)
      case (snoc ds x)
      then have "dir_of (path_of (rs @ cur)) = path_of (rs @ ds)"
        using dir_of_path_of [of "rs @ ds" x] rs cur by (simp add: normalD)
      then show ?thesis using snoc by (simp add: path_of_append)
    qed simp
    have "list_all normal (butlast cur)" using cur by (auto simp: list_all_iff dest: in_set_butlastD)
    with False s \<open>c \<noteq> []\<close> up "2.IH"(1,2) cs(1) rs cur stands_for_rest show ?thesis
      by (subst secure_walk.simps, subst jail_walk.simps) (auto split: if_splits)
  next
    case True
    then have n: "normal c" "list_all normal cs" using cs(2) by simp_all
    have next_c: "join_path [path_of (rs @ cur), c] = path_of (rs @ cur @ [c])"
      using join_path_normal [of "rs @ cur" c] rs cur n by simp
    have rest: "join_path [path_of (rs @ cur @ [c]), join_with ''/'' cs] = path_of (rs @ cur @ c # cs)"
      using join_path_normals [of "rs @ cur @ [c]" cs] rs cur n by simp
    have here: "c \<noteq> ''.''" "c \<noteq> ''..''" "c \<noteq> []" "\<not> max_symlink_depth < d"
      using True n by (simp_all add: normalD)
    obtain r1 p1 where r1: "syscall K (Lstat (path_of (rs @ cur @ [c]))) p = (r1, p1)"
      by (meson surj_pair)
    show ?thesis
    proof (cases r1)
      case (Inl e)
      then show ?thesis
        using here s r1 by (subst secure_walk.simps, subst jail_walk.simps) (simp add: next_c rest Let_def)
    next
      case (Inr a)
      have walk: "secure_walk K (path_of rs) u (Suc d) (path_of (rs @ cur @ [c])) (join_with ''/'' cs) p1 =
          jail_walk K rs u (Suc d) (cur @ [c]) cs p1" if "\<not> is_symlink a"
        using "2.IH"(3) [OF here(4,1,2) r1 [symmetric] Inr that _ cs(1) stands_for_rest rs] cur n
        by simp
      have link: "secure_walk K (path_of rs) u (Suc d) (if is_abs l then path_of rs else path_of (rs @ cur))
            (''/'' @ trim_prefix (join_path [l, join_with ''/'' cs]) ''/'') p2 =
          jail_walk K rs u (Suc d) (if is_abs l then [] else cur) (link_comps l cs) p2"
        if "is_symlink a" "syscall K (Readlink (path_of (rs @ cur @ [c]))) p1 = (Inr b, p2)" "l = link_target b"
        for b p2 l
      proof -
        have "secure_walk K (path_of rs) u (Suc d) (path_of (rs @ (if is_abs l then [] else cur)))
            (''/'' @ trim_prefix (join_path [l, join_with ''/'' cs]) ''/'') p2 =
          jail_walk K rs u (Suc d) (if is_abs l then [] else cur) (link_comps l cs) p2"
          unfolding that(3)
          by (rule "2.IH"(4) [OF here(4,1,2) r1 [symmetric] Inr _ that(2) [symmetric] refl _
                link_comps_walkable [OF n(2)] stands_for_link [OF n(2)] rs])
             (use that cur in auto)
        then show ?thesis by (cases "is_abs l") simp_all
      qed
      show ?thesis
      proof (cases "is_symlink a")
        case False
        then show ?thesis
          using here s r1 Inr walk by (subst secure_walk.simps, subst jail_walk.simps) (simp add: next_c Let_def)
      next
        case True
        obtain r2 p2 where r2: "syscall K (Readlink (path_of (rs @ cur @ [c]))) p1 = (r2, p2)"
          by (meson surj_pair)
        show ?thesis
        proof (cases r2)
          case (Inl e)
          then show ?thesis
            using here s r1 r2 \<open>r1 = Inr a\<close> True
            by (subst secure_walk.simps, subst jail_walk.simps) (simp add: next_c Let_def)
        next
          case (Inr b)
          then show ?thesis
            using here s r1 r2 \<open>r1 = Inr a\<close> True link [OF True _ refl, of b p2]
            by (subst secure_walk.simps, subst jail_walk.simps) (simp add: next_c Let_def)
        qed
      qed
    qed
  qed
qed

lemma clean_abs_comps_stands:
  "stands_for (clean (''/'' @ u)) (clean_abs_comps u)"
  by (simp add: clean_rooted stands_for_def)

lemma secure_join_walk:
  assumes "list_all normal rs" and "rs \<noteq> []"
  shows "secure_join K (path_of rs) u p = jail_walk K rs u 0 [] (clean_abs_comps u) p"
  using secure_walk_refines [OF assms, of "[]", OF _ walkable_normal [OF clean_abs_comps_normal]
      clean_abs_comps_stands]
  by (simp add: secure_join_def)

subsection \<open>What the walk guarantees\<close>

text \<open>
  \<open>solid rs log cs\<close>: the log shows, for every non-empty prefix of \<open>cs\<close> below the root \<open>rs\<close>, an
  lstat that found something other than a symbolic link.
\<close>

definition solid :: "string list \<Rightarrow> (fcall \<times> (errno + answer)) list \<Rightarrow> string list \<Rightarrow> bool" where
  "solid rs log cs \<longleftrightarrow>
     (\<forall>es. prefix es cs \<and> es \<noteq> [] \<longrightarrow>
        (\<exists>a. (Lstat (path_of (rs @ es)), Inr a) \<in> set log \<and> \<not> is_symlink a))"

text \<open>A resolved path: solid up to its end, or up to a component that lstat did not find.\<close>

definition resolved :: "string list \<Rightarrow> (fcall \<times> (errno + answer)) list \<Rightarrow> string list \<Rightarrow> bool" where
  "resolved rs log cs \<longleftrightarrow>
     (\<exists>as bs. cs = as @ bs \<and> solid rs log as \<and>
        (bs = [] \<or> (\<exists>e. (Lstat (path_of (rs @ as @ [hd bs])), Inl e) \<in> set log)))"

lemma solid_Nil: "solid rs log []"
  by (simp add: solid_def)

lemma resolved_solid: "solid rs log cs \<Longrightarrow> resolved rs log cs"
  unfolding resolved_def by (intro exI [of _ cs] exI [of _ "[]"]) simp

lemma solid_mono: "solid rs log cs \<Longrightarrow> set log \<subseteq> set log' \<Longrightarrow> solid rs log' cs"
  unfolding solid_def by blast

lemma solid_prefix: "solid rs log cs \<Longrightarrow> prefix ds cs \<Longrightarrow> solid rs log ds"
  unfolding solid_def by (meson prefix_order.trans)

lemma solid_snoc:
  assumes "solid rs log cs" and "(Lstat (path_of (rs @ cs @ [c])), Inr a) \<in> set log" and "\<not> is_symlink a"
  shows "solid rs log (cs @ [c])"
  using assms unfolding solid_def by (auto simp: prefix_snoc)

lemma jail_walk_resolved:
  "jail_walk K rs u d cur cs p = (Inr t, q) \<Longrightarrow> list_all normal cur \<Longrightarrow> walkable cs \<Longrightarrow>
   snd p = L @ M \<Longrightarrow> solid rs M cur \<Longrightarrow>
   \<exists>ds N. t = path_of (rs @ ds) \<and> list_all normal ds \<and> snd q = L @ N \<and> resolved rs N ds"
proof (induction K rs u d cur cs p arbitrary: M rule: jail_walk.induct)
  case (1 K rs u d cur p)
  then show ?case
    by (intro exI [of _ cur] exI [of _ M]) (simp add: resolved_solid)
next
  case (2 K rs u d cur c cs p)
  note cs = walkable_ConsD [OF "2.prems"(3)]
  note eq = "2.prems"(1) [unfolded jail_walk.simps(2)]
  have d: "\<not> max_symlink_depth < d" using eq by (auto split: if_splits)
  show ?case
  proof (cases "c = ''.'' \<or> c = ''..''")
    case True
    have "list_all normal (butlast cur)" using "2.prems"(2) by (auto simp: list_all_iff dest: in_set_butlastD)
    moreover have "solid rs M (butlast cur)"
      using "2.prems"(5) by (rule solid_prefix) (rule prefixeq_butlast)
    ultimately show ?thesis
      using True d "2.IH"(1) [OF d _ _ "2.prems"(2) cs(1) "2.prems"(4,5)]
        "2.IH"(2) [OF d _ _ _ _ cs(1) "2.prems"(4)] eq
      by (cases "c = ''.''") (simp_all)
  next
    case False
    then have n: "normal c" "list_all normal cs" "c \<noteq> ''.''" "c \<noteq> ''..''" using cs(2) by simp_all
    obtain r1 p1 where r1: "syscall K (Lstat (path_of (rs @ cur @ [c]))) p = (r1, p1)"
      by (meson surj_pair)
    show ?thesis
    proof (cases r1)
      case (Inl e)
      then have t: "t = path_of (rs @ cur @ c # cs)" "q = p1" using eq n(3,4) d r1 by simp_all
      obtain m where m: "snd p1 = snd p @ [(Lstat (path_of (rs @ cur @ [c])), Inl m)]"
        using syscall_log [OF r1] Inl by auto
      have "resolved rs (M @ [(Lstat (path_of (rs @ cur @ [c])), Inl m)]) (cur @ c # cs)"
        unfolding resolved_def
        by (intro exI [of _ cur] exI [of _ "c # cs"]) (auto intro: solid_mono [OF "2.prems"(5)])
      then show ?thesis
        using t m n "2.prems"(2,4) by (intro exI [of _ "cur @ c # cs"]) auto
    next
      case (Inr a)
      have m: "snd p1 = L @ (M @ [(Lstat (path_of (rs @ cur @ [c])), Inr a)])" (is "_ = L @ ?M")
        using syscall_log [OF r1] Inr "2.prems"(4) by auto
      have solid: "solid rs ?M cur" using "2.prems"(5) by (rule solid_mono) auto
      show ?thesis
      proof (cases "is_symlink a")
        case False
        then have "solid rs ?M (cur @ [c])" using solid by (rule solid_snoc [rotated 2]) simp
        then show ?thesis
          using "2.IH"(3) [OF d n(3,4) r1 [symmetric] Inr False _ _ cs(1) m] eq r1 Inr d n False "2.prems"(2)
          by simp
      next
        case True
        obtain r2 p2 where r2: "syscall K (Readlink (path_of (rs @ cur @ [c]))) p1 = (r2, p2)"
          by (meson surj_pair)
        then obtain b where b: "r2 = Inr b" using eq r1 Inr d n True by (cases r2) auto
        have m2: "snd p2 = L @ (?M @ [(Readlink (path_of (rs @ cur @ [c])), Inr b)])" (is "_ = L @ ?N")
          using syscall_log [OF r2] b m by auto
        have "solid rs ?N (if is_abs (link_target b) then [] else cur)"
          using solid_mono [OF solid, of ?N] by (auto simp: solid_Nil)
        moreover have "list_all normal (if is_abs (link_target b) then [] else cur)" using "2.prems"(2) by simp
        moreover have "jail_walk K rs u (Suc d) (if is_abs (link_target b) then [] else cur)
            (link_comps (link_target b) cs) p2 = (Inr t, q)"
          using eq r1 r2 Inr d n True b by simp
        ultimately show ?thesis
          using "2.IH"(4) [OF d n(3,4) r1 [symmetric] Inr _ r2 [symmetric] b _ _ link_comps_walkable [OF n(2)] m2] True
          by blast
      qed
    qed
  qed
qed

lemma secure_join_resolved:
  assumes "list_all normal rs" and "rs \<noteq> []" and "secure_join K (path_of rs) u p = (Inr t, q)"
  shows "\<exists>ds N. t = path_of (rs @ ds) \<and> list_all normal ds \<and> snd q = snd p @ N \<and> resolved rs N ds"
  using jail_walk_resolved [of K rs u 0 "[]" "clean_abs_comps u" p t q "snd p" "[]"] assms
  by (simp add: secure_join_walk walkable_normal clean_abs_comps_normal solid_Nil)

text \<open>The walk only looks, it changes nothing.\<close>

fun looks :: "fcall \<Rightarrow> bool" where
  "looks (Lstat _) \<longleftrightarrow> True"
| "looks (Readlink _) \<longleftrightarrow> True"
| "looks (Stat _) \<longleftrightarrow> True"
| "looks _ \<longleftrightarrow> False"

lemma jail_walk_looks:
  "\<exists>new. snd (snd (jail_walk K rs u d cur cs p)) = snd p @ new \<and> list_all (looks \<circ> fst) new"
proof (induction K rs u d cur cs p rule: jail_walk.induct)
  case (2 K rs u d cur c cs p)
  obtain r1 p1 where r1: "syscall K (Lstat (path_of (rs @ cur @ [c]))) p = (r1, p1)"
    by (meson surj_pair)
  obtain r2 p2 where r2: "syscall K (Readlink (path_of (rs @ cur @ [c]))) p1 = (r2, p2)"
    by (meson surj_pair)
  consider "max_symlink_depth < d" | "\<not> max_symlink_depth < d" "c = ''.''"
    | "\<not> max_symlink_depth < d" "c = ''..''" 
    | "\<not> max_symlink_depth < d" "c \<noteq> ''.''" "c \<noteq> ''..''" by blast
  then show ?case
  proof cases
    case 4
    obtain m where m: "snd p1 = snd p @ [(Lstat (path_of (rs @ cur @ [c])), m)]"
      using syscall_log [OF r1] by auto
    obtain m' where m': "snd p2 = snd p @ [(Lstat (path_of (rs @ cur @ [c])), m), (Readlink (path_of (rs @ cur @ [c])), m')]"
      using syscall_log [OF r2] m by auto
    show ?thesis
    proof (cases r1)
      case (Inl e)
      then show ?thesis using 4 r1 m by (simp add: jail_walk.simps(2))
    next
      case (Inr a)
      note r = 4 r1 Inr
      show ?thesis
      proof (cases "is_symlink a")
        case False
        then show ?thesis
          using "2.IH"(3) [OF 4 r1 [symmetric] Inr False] r m by (auto simp: jail_walk.simps(2))
      next
        case True
        then show ?thesis
        proof (cases r2)
          case (Inl e)
          then show ?thesis using r r2 True m' by (simp add: jail_walk.simps(2))
        next
          case (Inr b)
          then show ?thesis
            using "2.IH"(4) [OF 4 r1 [symmetric] \<open>r1 = Inr a\<close> _ r2 [symmetric] Inr] True r r2 m'
            by (auto simp: jail_walk.simps(2))
        qed
      qed
    qed
  qed (use "2.IH"(1,2) in \<open>auto simp: jail_walk.simps(2)\<close>)
qed simp

subsection \<open>The contract its callers rely on\<close>

text \<open>
  A resolver of container paths: what it returns is the root or a path of normal components below
  it, and on the way it only looks at the file system. The steps of \<^verbatim>\<open>fs.go\<close> that mount, create or
  write at a container path are proved confined to the root from these two laws alone.
\<close>

text \<open>
  Calls confined to the root: whatever they change is the root or below it, except that the
  directory holding a path may be created, which for the root itself is the directory around it.
\<close>

definition inside :: "string list \<Rightarrow> string \<Rightarrow> bool" where
  "inside rs t \<longleftrightarrow> (\<exists>ds. t = path_of (rs @ ds) \<and> list_all normal ds)"

fun confined :: "string list \<Rightarrow> fcall \<Rightarrow> bool" where
  "confined rs (Mount source t fstype flags data) \<longleftrightarrow> inside rs t"
| "confined rs (MkdirAll t m) \<longleftrightarrow> inside rs t \<or> t = dir_of (path_of rs)"
| "confined rs (CreateFile t m) \<longleftrightarrow> inside rs t"
| "confined rs (WriteFile t d m) \<longleftrightarrow> inside rs t"
| "confined rs (Symlink old t) \<longleftrightarrow> inside rs t"
| "confined rs (Mknod t m d) \<longleftrightarrow> inside rs t"
| "confined rs (Chown t u g) \<longleftrightarrow> inside rs t"
| "confined rs (PivotRoot n old) \<longleftrightarrow> False"
| "confined rs (Chdir t) \<longleftrightarrow> False"
| "confined rs (Unmount t f) \<longleftrightarrow> False"
| "confined rs (Remove t) \<longleftrightarrow> False"
| "confined rs _ \<longleftrightarrow> True"

lemma looks_confined: "looks c \<Longrightarrow> confined rs c"
  by (cases c) simp_all

lemma inside_dir:
  assumes "list_all normal rs" and "rs \<noteq> []" and "inside rs t"
  shows "inside rs (dir_of t) \<or> dir_of t = dir_of (path_of rs)"
proof -
  obtain ds where ds: "t = path_of (rs @ ds)" "list_all normal ds" using assms(3) by (auto simp: inside_def)
  show ?thesis
  proof (cases ds rule: rev_cases)
    case Nil
    then show ?thesis using ds by simp
  next
    case (snoc es e)
    then have "dir_of t = path_of (rs @ es)" using dir_of_path_of [of "rs @ es" e] ds assms(1,2) by (simp add: normalD)
    then show ?thesis using snoc ds by (auto simp: inside_def)
  qed
qed

locale path_resolver =
  fixes resolve :: "'k files \<Rightarrow> string \<Rightarrow> string \<Rightarrow> ('k, string) fprog"
  assumes resolve_inside:
      "list_all normal rs \<Longrightarrow> rs \<noteq> [] \<Longrightarrow> yields (inside rs) (resolve K (path_of rs) u)"
    and resolve_looks:
      "list_all normal rs \<Longrightarrow> rs \<noteq> [] \<Longrightarrow> only looks (resolve K (path_of rs) u)"
begin

lemma confined_resolve:
  assumes "list_all normal rs" and "rs \<noteq> []"
    and "\<And>t. inside rs t \<Longrightarrow> only (confined rs) (f t)"
  shows "only (confined rs) (andthen (wrap_eff s a (resolve K (path_of rs) u)) f)"
proof (rule only_bind)
  show "only (confined rs) (wrap_eff s a (resolve K (path_of rs) u))"
    by (rule only_wrap, rule only_mono [OF resolve_looks [OF assms(1,2)]]) (rule looks_confined)
  show "yields (inside rs) (wrap_eff s a (resolve K (path_of rs) u))"
    using resolve_inside [OF assms(1,2), of K u] by (auto simp: yields_def wrap_eff_Inr)
qed (rule assms(3))

end

interpretation jail: path_resolver secure_join
proof
  fix rs u and K :: "'a files"
  assume rs: "list_all normal rs" "rs \<noteq> []"
  show "yields (inside rs) (secure_join K (path_of rs) u)"
    using secure_join_resolved [OF rs, of K u] unfolding yields_def inside_def by blast
  show "only looks (secure_join K (path_of rs) u)"
    using jail_walk_looks [of K rs u 0 "[]"] unfolding only_def secure_join_walk [OF rs] by blast
qed

subsection \<open>Properties\<close>

text \<open>
  C4. Whatever path the container names and however its symbolic links point, and even when the
  file system changes during the walk, the path \<^verbatim>\<open>secureJoin\<close> returns lies in the root file system,
  below it only by normal components; and this very call has seen by lstat that no component is
  a symbolic link, up to the first one that does not exist.
\<close>

theorem secure_join_contained:
  assumes "list_all normal rs" and "rs \<noteq> []"
    and "secure_join K (path_of rs) u p = (Inr t, q)"
  shows "is_within (path_of rs) t \<and>
    (\<exists>cs new. t = path_of (rs @ cs) \<and> list_all normal cs \<and> snd q = snd p @ new \<and> resolved rs new cs)"
proof -
  obtain cs new where *: "t = path_of (rs @ cs)" "list_all normal cs" "snd q = snd p @ new" "resolved rs new cs"
    using secure_join_resolved [OF assms] by blast
  moreover have "is_within (path_of rs) (path_of (rs @ cs))"
    using *(2) assms(1,2) by (simp add: is_within_path_of)
  ultimately show ?thesis by blast
qed

text \<open>An image whose \<^verbatim>\<open>/etc\<close> is a link that climbs out, seen by a call on a file below it.\<close>

fun link_world :: "(string \<times> string) list \<Rightarrow> unit files" where
  "link_world links (Lstat p) k =
     (Inr (Kind (if map_of links p = None then Directory else SymbolicLink)), k)"
| "link_world links (Readlink p) k =
     (case map_of links p of None \<Rightarrow> Inl EINVAL | Some t \<Rightarrow> Inr (Target t), k)"
| "link_world links _ k = (Inr Done, k)"

definition hostile_image :: "unit files" where
  "hostile_image = link_world [(''/r/etc'', ''../../../srv/../data'')]"

theorem secure_join_contained_witness:
  "\<exists>t. fst (secure_join hostile_image ''/r'' ''etc/passwd'' ((), [])) = Inr t \<and> is_within ''/r'' t"
proof -
  have "fst (secure_join hostile_image ''/r'' ''etc/passwd'' ((), [])) = Inr ''/r/data/passwd''"
    by code_simp
  then obtain q where "secure_join hostile_image ''/r'' ''etc/passwd'' ((), []) = (Inr ''/r/data/passwd'', q)"
    by (metis prod.collapse)
  then show ?thesis
    using secure_join_contained [of "[''r'']" hostile_image "''etc/passwd''" "((), [])"]
    by (auto simp: normal_def)
qed

lemma lstat_plain:
  assumes "\<forall>x k. \<exists>a. fst (K (Lstat x) k) = Inr a \<and> \<not> is_symlink a"
  obtains a q where "syscall K (Lstat x) p = (Inr a, q)" "\<not> is_symlink a"
proof -
  obtain k l where p: "p = (k, l)" by (cases p)
  obtain a k' where "K (Lstat x) k = (Inr a, k')" "\<not> is_symlink a"
    using assms by (metis prod.collapse)
  then show thesis by (intro that [of a "(k', l @ [(Lstat x, Inr a)])"]) (simp_all add: syscall_def sys_def p)
qed

text \<open>
  Without symbolic links the result is the cleaned path below the root, as long as it has at
  most 33 components; a longer one is refused as having too many symbolic links, because the
  depth counter counts components and not links.
\<close>

theorem secure_join_plain:
  assumes "list_all normal rs" and "rs \<noteq> []"
    and "\<forall>x k. \<exists>a. fst (K (Lstat x) k) = Inr a \<and> \<not> is_symlink a"
  shows "fst (secure_join K (path_of rs) u p) =
    (if length (clean_abs_comps u) \<le> 33 then Inr (path_of (rs @ clean_abs_comps u))
     else Inl (Errorf ''too many symbolic links resolving %q'' [u]))"
proof -
  have "fst (jail_walk K rs u d cur cs p) =
      (if d + length cs \<le> 33 then Inr (path_of (rs @ cur @ cs))
       else Inl (Errorf ''too many symbolic links resolving %q'' [u]))"
    if "list_all normal cs" "d \<le> 33" for d cur cs p
    using that
  proof (induction cs arbitrary: d cur p)
    case (Cons c cs)
    obtain a p1 where a: "syscall K (Lstat (path_of (rs @ cur @ [c]))) p = (Inr a, p1)" "\<not> is_symlink a"
      by (rule lstat_plain [OF assms(3)])
    show ?case
    proof (cases "d = 33")
      case False
      then show ?thesis
        using Cons.prems Cons.IH [of "Suc d" "cur @ [c]" p1] a
        by (simp add: jail_walk.simps(2) max_symlink_depth_def normalD)
    qed (simp add: jail_walk.simps(2) max_symlink_depth_def)
  qed simp
  from this [where cs = "clean_abs_comps u", OF clean_abs_comps_normal, of 0 "[]" p] show ?thesis
    by (simp add: secure_join_walk [OF assms(1,2)])
qed

theorem secure_join_plain_witness:
  "fst (secure_join (link_world []) ''/r'' ''a/../b'' ((), [])) = Inr ''/r/b''"
  using secure_join_plain [of "[''r'']" "link_world []" "''a/../b''" "((), [])"]
  by (simp add: normal_def clean_abs_comps_def)

text \<open>
  With the host's own root as root file system no existing path resolves: below \<open>/\<close> nothing
  is within \<open>/\<close> for the containment test, which asks for the prefix \<open>//\<close>.
\<close>

theorem secure_join_of_root_fails:
  assumes "\<forall>x k. \<exists>a. fst (K (Lstat x) k) = Inr a \<and> \<not> is_symlink a"
    and "clean_abs_comps u \<noteq> []"
  shows "\<exists>e. fst (secure_join K ''/'' u p) = Inl e"
proof -
  have walk: "\<exists>e. fst (secure_walk K ''/'' u d (path_of cur) s p) = Inl e"
    if "list_all normal cur" "cur \<noteq> []" "list_all normal cs" "stands_for s cs" for d cur cs s p
    using that
  proof (induction cs arbitrary: d cur s p)
    case Nil
    then have "s = [] \<or> s = ''/''" by (auto simp: stands_for_def)
    moreover obtain c cs where "cur = c # cs" "normal c" using Nil by (cases cur) auto
    ultimately show ?case
      by (subst secure_walk.simps) (auto simp: is_within_root neq_Nil_conv normal_def)
  next
    case (Cons c cs)
    have n: "normal c" "list_all normal cs" using Cons.prems by simp_all
    note s = stands_for_cut [OF Cons.prems(4) walkable_normal [OF Cons.prems(3)]]
    have next_c: "join_path [path_of cur, c] = path_of (cur @ [c])"
      by (rule join_path_normal [OF Cons.prems(1,2) n(1)])
    obtain a p1 where a: "syscall K (Lstat (path_of (cur @ [c]))) p = (Inr a, p1)" "\<not> is_symlink a"
      by (rule lstat_plain [OF assms(1)])
    have "\<exists>e. fst (secure_walk K ''/'' u (Suc d) (path_of (cur @ [c])) (join_with ''/'' cs) p1) = Inl e"
      by (rule Cons.IH) (use Cons.prems n stands_for_rest in auto)
    then show ?case
      using s a n by (subst secure_walk.simps) (simp add: next_c Let_def normalD)
  qed
  obtain c cs where cs: "clean_abs_comps u = c # cs" using assms(2) by (cases "clean_abs_comps u") auto
  then have n: "normal c" "list_all normal cs" using clean_abs_comps_normal [of u] by simp_all
  note s = stands_for_cut [OF clean_abs_comps_stands [of u, unfolded cs] walkable_normal]
  obtain a p1 where a: "syscall K (Lstat (path_of [c])) p = (Inr a, p1)" "\<not> is_symlink a"
    by (rule lstat_plain [OF assms(1)])
  have next_c: "join_path [''/'', c] = path_of [c]"
    using clean_abs_comps_path_of [of "[c]" c] n clean_rooted [of "''/'' @ c"]
    by (simp add: join_path_def clean_abs_comps_def)
  have "\<exists>e. fst (secure_walk K ''/'' u (Suc 0) (path_of [c]) (join_with ''/'' cs) p1) = Inl e"
    by (rule walk [of _ cs]) (use n stands_for_rest in auto)
  then show ?thesis
    using s n a unfolding secure_join_def
    by (subst secure_walk.simps) (simp add: next_c [simplified] max_symlink_depth_def Let_def normalD)
qed

theorem secure_join_of_root_fails_witness:
  "\<exists>e. fst (secure_join (link_world []) ''/'' ''proc'' ((), [])) = Inl e"
  by (rule secure_join_of_root_fails) (simp_all add: clean_abs_comps_def)

end
