(* ===== verification/Devices.thy ===== *)
theory Devices
  imports Oci_Spec
begin

section \<open>Device requests (pkg/device/devices.go)\<close>

text \<open>
  The device-number encoding of makedev(3) on 64-bit words, the parser of \<^verbatim>\<open>--device\<close> values and the
  description of a host node. \<open>stat\<close> is what \<^verbatim>\<open>os.Stat\<close> tells about a host path.
\<close>

unbundle bit_operations_syntax

subsection \<open>Device numbers\<close>

definition mkdev :: "int64 \<Rightarrow> int64 \<Rightarrow> uint64" where
  "mkdev major minor =
     (push_bit 8 (major AND 0xfff)) OR
     (minor AND 0xff) OR
     (push_bit 32 (major AND NOT 0xfff)) OR
     (push_bit 12 (minor AND NOT 0xff))"

definition major_of :: "uint64 \<Rightarrow> int64" where
  "major_of dev =
     (drop_bit 8 dev AND 0xfff) OR ucast ((ucast (drop_bit 32 dev) :: 32 word) AND NOT 0xfff)"

definition minor_of :: "uint64 \<Rightarrow> int64" where
  "minor_of dev =
     (dev AND 0xff) OR ucast ((ucast (drop_bit 12 dev) :: 32 word) AND NOT 0xff)"

lemma mask_12: "(0xfff :: 'a::len word) = mask 12"
  and mask_8: "(0xff :: 'a::len word) = mask 8"
  by (simp_all add: mask_eq_exp_minus_1)

lemma bit_mkdev:
  "bit (mkdev ma mi) n \<longleftrightarrow> n < 64 \<and>
     (8 \<le> n \<and> n < 20 \<and> bit ma (n - 8) \<or> n < 8 \<and> bit mi n \<or>
      44 \<le> n \<and> bit ma (n - 32) \<or> 20 \<le> n \<and> bit mi (n - 12))"
  unfolding mkdev_def mask_12 mask_8
  by (auto simp: bit_simps simp del: mask_numeral)

lemma bit_major_of: "bit (major_of d) n \<longleftrightarrow> n < 12 \<and> bit d (n + 8) \<or> 12 \<le> n \<and> n < 32 \<and> bit d (n + 32)"
  unfolding major_of_def mask_12
  by (auto simp: bit_simps add.commute simp del: mask_numeral dest: bit_imp_le_length)

lemma bit_minor_of: "bit (minor_of d) n \<longleftrightarrow> n < 8 \<and> bit d n \<or> 8 \<le> n \<and> n < 32 \<and> bit d (n + 12)"
  unfolding minor_of_def mask_8
  by (auto simp: bit_simps add.commute simp del: mask_numeral dest: bit_imp_le_length)

text \<open>A number that fits 32 bits has no bit from 32 on.\<close>

lemma bit_lt_2_32:
  assumes "unat (w :: 64 word) < 2 ^ 32" and "bit w n"
  shows "n < 32"
proof -
  have "take_bit 32 (unat w) = unat w" using assms(1) by (simp add: take_bit_nat_eq_self_iff)
  moreover have "bit (unat w) n" using assms(2) by (simp add: bit_unsigned_iff)
  ultimately show ?thesis using bit_take_bit_iff [of 32 "unat w" n] by simp
qed

lemma mkdev_of_parts: "mkdev (major_of d) (minor_of d) = d"
proof (rule bit_word_eqI)
  fix n assume "n < LENGTH(64)"
  then have n: "n < 64" by simp
  consider "n < 8" | "8 \<le> n" "n < 20" | "20 \<le> n" "n < 44" | "44 \<le> n" by linarith
  then show "bit (mkdev (major_of d) (minor_of d)) n \<longleftrightarrow> bit d n"
    using n by cases (auto simp: bit_mkdev bit_major_of bit_minor_of)
qed

subsection \<open>Raw devices\<close>

text \<open>What \<^verbatim>\<open>os.Stat\<close> tells of a host path: its kind, permission bits, device number and owner.\<close>

datatype node_kind = CharNode | BlockNode | FifoNode | OtherNode

record node_stat =
  nst_kind :: node_kind
  nst_perm :: uint32
  nst_rdev :: uint64
  nst_uid :: uint32
  nst_gid :: uint32

definition validate_permissions :: "string \<Rightarrow> unit result" where
  "validate_permissions p =
     (if p = [] then Inl (Errorf ''empty permission string'' [])
      else if list_ex (\<lambda>c. c \<noteq> CHR ''r'' \<and> c \<noteq> CHR ''w'' \<and> c \<noteq> CHR ''m'') p
      then Inl (Errorf ''permission %q must contain only r, w and m'' [p])
      else Inr ())"

definition describe :: "(string \<Rightarrow> node_stat result) \<Rightarrow> string \<Rightarrow> linux_device result" where
  "describe stat host_path =
     ebind (ewrap ''device %s: %w'' [host_path] (stat host_path)) (\<lambda>fi.
     ebind (case nst_kind fi of
              CharNode \<Rightarrow> Inr ''c'' | BlockNode \<Rightarrow> Inr ''b'' | FifoNode \<Rightarrow> Inr ''p''
            | OtherNode \<Rightarrow> Inl (Errorf ''device %s is not a device node'' [host_path])) (\<lambda>kind.
     Inr \<lparr>dev_path = [], dev_type = kind, dev_major = major_of (nst_rdev fi),
          dev_minor = minor_of (nst_rdev fi), dev_file_mode = Some (nst_perm fi),
          dev_uid = Some (nst_uid fi), dev_gid = Some (nst_gid fi)\<rparr>))"

definition device_fields :: "string \<Rightarrow> (string \<times> string \<times> string) result" where
  "device_fields value =
     (case split_on CHR '':'' value of
        [h] \<Rightarrow> Inr (h, h, ''rwm'')
      | [h, x] \<Rightarrow> if has_prefix x ''/'' then Inr (h, x, ''rwm'') else Inr (h, h, x)
      | [h, c, p] \<Rightarrow> Inr (h, c, p)
      | _ \<Rightarrow> Inl (Errorf ''device %q has too many fields'' [value]))"

definition parse_raw_device :: "(string \<Rightarrow> node_stat result) \<Rightarrow> string \<Rightarrow> linux_device result" where
  "parse_raw_device stat value =
     ebind (device_fields value) (\<lambda>(host_path, container_path, permissions).
     if \<not> has_prefix host_path ''/''
     then Inl (Errorf ''device %q: host path must be absolute'' [value])
     else
       ebind (ewrap ''device %q: %w'' [value] (validate_permissions permissions)) (\<lambda>_.
       ebind (describe stat host_path) (\<lambda>dev.
       Inr (dev\<lparr>dev_path := container_path\<rparr>))))"

lemma validate_permissions_Inr:
  "validate_permissions p = Inr () \<longleftrightarrow> p \<noteq> [] \<and> set p \<subseteq> set ''rwm''"
  by (auto simp: validate_permissions_def list_ex_iff)

lemma describe_Inr:
  assumes "describe stat h = Inr dev"
  obtains st where "stat h = Inr st" and "nst_kind st \<noteq> OtherNode"
    and "dev_type dev \<in> {''c'', ''b'', ''p''}"
    and "dev_major dev = major_of (nst_rdev st)" and "dev_minor dev = minor_of (nst_rdev st)"
    and "dev_file_mode dev = Some (nst_perm st)" and "dev_uid dev = Some (nst_uid st)"
    and "dev_gid dev = Some (nst_gid st)"
  using assms by (cases "stat h") (auto simp: describe_def split: node_kind.splits)

subsection \<open>Properties\<close>

text \<open>
  The device-number encoding is a bijection between pairs of 32-bit numbers and 64-bit device
  numbers: no bit of a major or a minor number is lost, dynamic minors above 255 included.
\<close>

theorem mkdev_roundtrip:
  "mkdev (major_of d) (minor_of d) = d \<and>
   (unat ma < 2 ^ 32 \<longrightarrow> unat mi < 2 ^ 32 \<longrightarrow> major_of (mkdev ma mi) = ma \<and> minor_of (mkdev ma mi) = mi)"
proof (intro conjI impI)
  show "mkdev (major_of d) (minor_of d) = d" by (rule mkdev_of_parts)
next
  assume w: "unat ma < 2 ^ 32" "unat mi < 2 ^ 32"
  note small = bit_lt_2_32 [OF w(1)] bit_lt_2_32 [OF w(2)]
  show "major_of (mkdev ma mi) = ma"
    by (rule bit_word_eqI) (auto simp: bit_mkdev bit_major_of dest: small)
  show "minor_of (mkdev ma mi) = mi"
    by (rule bit_word_eqI) (auto simp: bit_mkdev bit_minor_of dest: small)
qed

theorem mkdev_roundtrip_witness:
  "mkdev (major_of 0x1234567890abcdef) (minor_of 0x1234567890abcdef) = 0x1234567890abcdef \<and>
   major_of (mkdev 511 70000) = 511 \<and> minor_of (mkdev 511 70000) = 70000"
  using mkdev_roundtrip [of "0x1234567890abcdef" 511 70000] by simp

text \<open>
  A device the parser accepts has the numbers and the owner of the host node: encoding its major
  and minor number gives back the raw number that stat reported; its host path is absolute, its
  type one of c, b and p, its path inside the container the one asked for.
\<close>

theorem parse_raw_device_faithful:
  assumes "parse_raw_device stat value = Inr dev"
  shows "\<exists>h c p st. device_fields value = Inr (h, c, p) \<and> has_prefix h ''/'' \<and> stat h = Inr st \<and>
    p \<noteq> [] \<and> set p \<subseteq> set ''rwm'' \<and>
    dev_path dev = c \<and> dev_type dev \<in> {''c'', ''b'', ''p''} \<and>
    mkdev (dev_major dev) (dev_minor dev) = nst_rdev st \<and>
    dev_file_mode dev = Some (nst_perm st) \<and> dev_uid dev = Some (nst_uid st) \<and>
    dev_gid dev = Some (nst_gid st)"
proof -
  obtain h c p where f: "device_fields value = Inr (h, c, p)" "has_prefix h ''/''"
    and v: "validate_permissions p = Inr ()"
    and d: "ebind (describe stat h) (\<lambda>dev. Inr (dev\<lparr>dev_path := c\<rparr>)) = Inr dev"
    using assms by (cases "device_fields value")
      (auto simp: parse_raw_device_def ebind_eq_Inr ewrap_eq_Inr split: if_splits)
  from d obtain dev' where dev': "describe stat h = Inr dev'" "dev = dev'\<lparr>dev_path := c\<rparr>"
    by (auto simp: ebind_eq_Inr)
  from dev'(1) show ?thesis
    by (rule describe_Inr)
       (use f v dev'(2) mkdev_of_parts in \<open>simp add: validate_permissions_Inr\<close>)
qed

definition camera_stat :: "string \<Rightarrow> node_stat result" where
  "camera_stat path =
     (if path = ''/dev/video0''
      then Inr \<lparr>nst_kind = CharNode, nst_perm = 432, nst_rdev = 0x5100, nst_uid = 0, nst_gid = 44\<rparr>
      else Inl (Errno ENOENT))"

theorem parse_raw_device_faithful_witness:
  "\<exists>dev. parse_raw_device camera_stat ''/dev/video0:/dev/cam:rw'' = Inr dev \<and>
     dev_path dev = ''/dev/cam'' \<and> mkdev (dev_major dev) (dev_minor dev) = 0x5100"
proof -
  have "is_ok (parse_raw_device camera_stat ''/dev/video0:/dev/cam:rw'')" by code_simp
  then obtain dev where dev: "parse_raw_device camera_stat ''/dev/video0:/dev/cam:rw'' = Inr dev"
    by (auto simp: is_ok_iff)
  then show ?thesis
    using parse_raw_device_faithful [OF dev] by (auto simp: device_fields_def camera_stat_def)
qed

text \<open>
  The permission field of a device is checked and then dropped: the entry for
  \<^verbatim>\<open>host:container:perms\<close> does not depend on which valid permissions are asked for, so a
  restriction to \<^verbatim>\<open>:r\<close> gives the same device as \<^verbatim>\<open>:rwm\<close>.
\<close>

theorem device_permissions_ignored:
  assumes "CHR '':'' \<notin> set h" and "CHR '':'' \<notin> set c"
    and "p \<noteq> []" and "set p \<subseteq> set ''rwm''"
  shows "parse_raw_device stat (h @ '':'' @ c @ '':'' @ p) = Inr dev \<longleftrightarrow>
    parse_raw_device stat (h @ '':'' @ c @ '':rwm'') = Inr dev"
proof -
  have p: "CHR '':'' \<notin> set p" using assms(4) by auto
  have split: "split_on CHR '':'' (h @ '':'' @ c @ '':'' @ x) = [h, c, x]" if "CHR '':'' \<notin> set x" for x
    using assms(1,2) that by (simp add: split_on_append_sep split_on_no_sep)
  have v: "validate_permissions p = Inr ()" "validate_permissions ''rwm'' = Inr ()"
    using assms(3,4) by (auto simp: validate_permissions_Inr)
  show ?thesis
    using split [OF p] split [of "''rwm''"] v by (simp add: parse_raw_device_def device_fields_def)
qed

theorem device_permissions_ignored_witness:
  "is_ok (parse_raw_device camera_stat (''/dev/video0'' @ '':'' @ ''/dev/cam'' @ '':'' @ ''r'')) \<and>
   parse_raw_device camera_stat (''/dev/video0'' @ '':'' @ ''/dev/cam'' @ '':'' @ ''r'') =
   parse_raw_device camera_stat (''/dev/video0'' @ '':'' @ ''/dev/cam'' @ '':rwm'')"
proof -
  have ok: "is_ok (parse_raw_device camera_stat (''/dev/video0'' @ '':'' @ ''/dev/cam'' @ '':'' @ ''r''))"
    by code_simp
  then obtain dev where
    dev: "parse_raw_device camera_stat (''/dev/video0'' @ '':'' @ ''/dev/cam'' @ '':'' @ ''r'') = Inr dev"
    by (auto simp only: is_ok_iff)
  then have "parse_raw_device camera_stat (''/dev/video0'' @ '':'' @ ''/dev/cam'' @ '':rwm'') = Inr dev"
    by (subst device_permissions_ignored [symmetric, where p = "''r''"]) simp_all
  with ok dev show ?thesis by simp
qed

end
