(* ===== verification/Privilege_Mode.thy ===== *)
theory Privilege_Mode
  imports Go_Paths
begin

section \<open>Rootfull and rootless (pkg/runtime/privilege.go)\<close>

text \<open>
  The mode a container runs in. The Go type is an int with two constants; only these two values are
  ever made, and \<open>ModeOther\<close> stands for any other number a configuration could carry.
\<close>

datatype privilege_mode = ModeRootfull | ModeRootless | ModeOther int

fun mode_text :: "privilege_mode \<Rightarrow> string" where
  "mode_text ModeRootfull = ''rootfull''"
| "mode_text ModeRootless = ''rootless''"
| "mode_text (ModeOther _) = ''unknown''"

definition detect_privilege_mode :: "nat \<Rightarrow> privilege_mode" where
  "detect_privilege_mode euid = (if euid = 0 then ModeRootfull else ModeRootless)"

text \<open>\<open>getenv\<close> is \<^verbatim>\<open>os.Getenv\<close>, \<open>uid\<close> the real uid, \<open>stat\<close> tells whether a path is there.\<close>

definition state_root ::
  "(string \<Rightarrow> string) \<Rightarrow> nat \<Rightarrow> (string \<Rightarrow> unit result) \<Rightarrow> privilege_mode \<Rightarrow> string result" where
  "state_root getenv uid stat m =
     (if m = ModeRootfull then Inr ''/run/lightpod''
      else
        let xdg = getenv ''XDG_RUNTIME_DIR''
        in if xdg = [] then
             (let d = ''/run/user/'' @ format_nat uid
              in ebind (ewrap ''XDG_RUNTIME_DIR is unset and %s is unavailable: %w'' [d] (stat d))
                   (\<lambda>_. Inr (join_path [d, ''lightpod''])))
           else Inr (join_path [xdg, ''lightpod'']))"

definition supports_device_nodes :: "privilege_mode \<Rightarrow> bool" where
  "supports_device_nodes m \<longleftrightarrow> m = ModeRootfull"

end
