(* ===== verification/Rootfs.thy ===== *)
theory Rootfs
  imports Secure_Join Devices Privilege_Mode Oci_Defaults
begin

section \<open>The container's root file system (pkg/runtime/fs.go)\<close>

text \<open>
  Mount options, the mounts, devices, links, sysctls, masked and read-only paths that
  \<^verbatim>\<open>prepareRootfs\<close> makes, and the pivot. Every step is a program over the file calls of theory
  File_Calls; the resolution of container paths is theory Secure_Join.
\<close>

subsection \<open>Mount options\<close>

text \<open>The MS_ and MNT_ constants of mount(2) that the code takes from package syscall.\<close>

definition MS_RDONLY :: uintptr where "MS_RDONLY = 0x1"
definition MS_NOSUID :: uintptr where "MS_NOSUID = 0x2"
definition MS_NODEV :: uintptr where "MS_NODEV = 0x4"
definition MS_NOEXEC :: uintptr where "MS_NOEXEC = 0x8"
definition MS_SYNCHRONOUS :: uintptr where "MS_SYNCHRONOUS = 0x10"
definition MS_REMOUNT :: uintptr where "MS_REMOUNT = 0x20"
definition MS_MANDLOCK :: uintptr where "MS_MANDLOCK = 0x40"
definition MS_DIRSYNC :: uintptr where "MS_DIRSYNC = 0x80"
definition MS_NOATIME :: uintptr where "MS_NOATIME = 0x400"
definition MS_NODIRATIME :: uintptr where "MS_NODIRATIME = 0x800"
definition MS_BIND :: uintptr where "MS_BIND = 0x1000"
definition MS_REC :: uintptr where "MS_REC = 0x4000"
definition MS_UNBINDABLE :: uintptr where "MS_UNBINDABLE = 0x20000"
definition MS_PRIVATE :: uintptr where "MS_PRIVATE = 0x40000"
definition MS_SLAVE :: uintptr where "MS_SLAVE = 0x80000"
definition MS_SHARED :: uintptr where "MS_SHARED = 0x100000"
definition MS_RELATIME :: uintptr where "MS_RELATIME = 0x200000"
definition MS_STRICTATIME :: uintptr where "MS_STRICTATIME = 0x1000000"
definition MNT_DETACH :: uintptr where "MNT_DETACH = 0x2"

lemmas ms_defs = MS_RDONLY_def MS_NOSUID_def MS_NODEV_def MS_NOEXEC_def MS_SYNCHRONOUS_def
  MS_REMOUNT_def MS_MANDLOCK_def MS_DIRSYNC_def MS_NOATIME_def MS_NODIRATIME_def MS_BIND_def
  MS_REC_def MS_UNBINDABLE_def MS_PRIVATE_def MS_SLAVE_def MS_SHARED_def MS_RELATIME_def
  MS_STRICTATIME_def MNT_DETACH_def

text \<open>Option name, whether it clears the flag, the flag.\<close>

definition mount_flag_names :: "(string \<times> bool \<times> uintptr) list" where
  "mount_flag_names = [
    (''ro'', False, MS_RDONLY),
    (''rw'', True, MS_RDONLY),
    (''suid'', True, MS_NOSUID),
    (''nosuid'', False, MS_NOSUID),
    (''dev'', True, MS_NODEV),
    (''nodev'', False, MS_NODEV),
    (''exec'', True, MS_NOEXEC),
    (''noexec'', False, MS_NOEXEC),
    (''sync'', False, MS_SYNCHRONOUS),
    (''async'', True, MS_SYNCHRONOUS),
    (''dirsync'', False, MS_DIRSYNC),
    (''remount'', False, MS_REMOUNT),
    (''mand'', False, MS_MANDLOCK),
    (''nomand'', True, MS_MANDLOCK),
    (''atime'', True, MS_NOATIME),
    (''noatime'', False, MS_NOATIME),
    (''diratime'', True, MS_NODIRATIME),
    (''nodiratime'', False, MS_NODIRATIME),
    (''bind'', False, MS_BIND),
    (''rbind'', False, MS_BIND OR MS_REC),
    (''relatime'', False, MS_RELATIME),
    (''norelatime'', True, MS_RELATIME),
    (''strictatime'', False, MS_STRICTATIME),
    (''nostrictatime'', True, MS_STRICTATIME)]"

definition propagation_flags :: "(string \<times> uintptr) list" where
  "propagation_flags = [
    (''private'', MS_PRIVATE),
    (''rprivate'', MS_PRIVATE OR MS_REC),
    (''slave'', MS_SLAVE),
    (''rslave'', MS_SLAVE OR MS_REC),
    (''shared'', MS_SHARED),
    (''rshared'', MS_SHARED OR MS_REC),
    (''unbindable'', MS_UNBINDABLE),
    (''runbindable'', MS_UNBINDABLE OR MS_REC)]"

record mount_flags =
  mf_flags :: uintptr
  mf_propagation :: uintptr
  mf_data :: "string list"

definition add_option :: "string \<Rightarrow> mount_flags \<Rightarrow> mount_flags" where
  "add_option opt s =
     (case map_of mount_flag_names opt of
        Some (clear, f) \<Rightarrow>
          s\<lparr>mf_flags := (if clear then mf_flags s AND NOT f else mf_flags s OR f)\<rparr>
      | None \<Rightarrow>
          (case map_of propagation_flags opt of
             Some p \<Rightarrow> s\<lparr>mf_propagation := mf_propagation s OR p\<rparr>
           | None \<Rightarrow> s\<lparr>mf_data := mf_data s @ [opt]\<rparr>))"

definition parse_mount_options :: "string list \<Rightarrow> uintptr \<times> uintptr \<times> string" where
  "parse_mount_options options =
     (let s = fold add_option options \<lparr>mf_flags = 0, mf_propagation = 0, mf_data = []\<rparr>
      in (mf_flags s, mf_propagation s, join_with '','' (mf_data s)))"

definition rootfs_propagation :: "spec \<Rightarrow> uintptr result" where
  "rootfs_propagation spec =
     (case spec_linux spec of
        None \<Rightarrow> Inr 0
      | Some l \<Rightarrow>
          let mode = lx_rootfs_propagation l
          in if mode = [] then Inr 0
             else case map_of propagation_flags mode of
                    None \<Rightarrow> Inl (Errorf ''linux.rootfsPropagation %q is not a known propagation mode'' [mode])
                  | Some p \<Rightarrow>
                      if p AND MS_SHARED \<noteq> 0
                      then Inl (Errorf ''linux.rootfsPropagation %q cannot be honoured'' [mode])
                      else Inr p)"

subsection \<open>One mount\<close>

text \<open>The target of a bind has to be of the source's kind: it is made on the way.\<close>

definition make_bind_target :: "'k files \<Rightarrow> string \<Rightarrow> string \<Rightarrow> ('k, unit) fprog" where
  "make_bind_target K source target =
     andthen (wrap_eff ''bind mount source %s: %w'' [source] (syscall K (Stat source))) (\<lambda>fi.
     if is_dir fi then
       wrap_eff ''creating bind target %s: %w'' [target] (perform K (MkdirAll target 493))
     else
       andthen (wrap_eff ''creating bind target directory for %s: %w'' [target]
                 (perform K (MkdirAll (dir_of target) 493))) (\<lambda>_.
       andthen (attempt (perform K (CreateFile target 420))) (\<lambda>r.
       case r of
         Inl e \<Rightarrow> if is_exist e then ret ()
                  else fail (Wrapf ''creating bind target file %s: %w'' [target] e)
       | Inr _ \<Rightarrow> ret ())))"

definition mount_one :: "'k files \<Rightarrow> string \<Rightarrow> mount \<Rightarrow> ('k, unit) fprog" where
  "mount_one K rootfs m =
     andthen (wrap_eff ''resolving mount destination %s: %w'' [mnt_destination m]
               (secure_join K rootfs (mnt_destination m))) (\<lambda>target.
     case parse_mount_options (mnt_options m) of (flags, propagation, data) \<Rightarrow>
     andthen (if flags AND MS_BIND \<noteq> 0 then make_bind_target K (mnt_source m) target
              else wrap_eff ''creating mount point %s: %w'' [target] (perform K (MkdirAll target 493))) (\<lambda>_.
     let source = (if mnt_source m = [] then mnt_type m else mnt_source m);
         fstype = (if flags AND MS_BIND \<noteq> 0 then [] else mnt_type m)
     in
     andthen (wrap_eff ''mounting %s (%s) at %s: %w'' [source, mnt_type m, mnt_destination m]
               (perform K (Mount source target fstype flags data))) (\<lambda>_.
     andthen (if flags AND MS_BIND \<noteq> 0 \<and> flags AND MS_RDONLY \<noteq> 0
              then wrap_eff ''remounting %s read-only: %w'' [mnt_destination m]
                     (perform K (Mount [] target [] (flags OR MS_REMOUNT) []))
              else ret ()) (\<lambda>_.
     if propagation \<noteq> 0
     then wrap_eff ''setting propagation on %s: %w'' [mnt_destination m]
            (perform K (Mount [] target [] propagation []))
     else ret ()))))"

subsection \<open>Devices and links\<close>

text \<open>
  \<^verbatim>\<open>initConfig\<close>: what the parent sends to the init process through the configuration pipe.
\<close>

record init_config =
  ic_spec :: spec
  ic_rootfs :: string
  ic_id :: string
  ic_bundle :: string
  ic_mode :: privilege_mode
  ic_host_pid :: int

definition S_IFIFO :: uint32 where "S_IFIFO = 0x1000"
definition S_IFCHR :: uint32 where "S_IFCHR = 0x2000"
definition S_IFBLK :: uint32 where "S_IFBLK = 0x6000"

definition device_mode :: "linux_device \<Rightarrow> uint32 result" where
  "device_mode dev =
     ebind (if dev_type dev = ''c'' \<or> dev_type dev = ''u'' then Inr S_IFCHR
            else if dev_type dev = ''b'' then Inr S_IFBLK
            else if dev_type dev = ''p'' then Inr S_IFIFO
            else Inl (Errorf ''device %s has unknown type %q'' [dev_path dev, dev_type dev])) (\<lambda>mode.
     let perm = (case dev_file_mode dev of None \<Rightarrow> 438 | Some m \<Rightarrow> m)
     in Inr (mode OR (perm AND 4095)))"

definition mknod_device :: "'k files \<Rightarrow> string \<Rightarrow> linux_device \<Rightarrow> ('k, unit) fprog" where
  "mknod_device K target dev =
     andthen (lift (device_mode dev)) (\<lambda>mode.
     andthen (attempt (perform K (Mknod target mode (mkdev (dev_major dev) (dev_minor dev))))) (\<lambda>r.
     case r of
       Inl e \<Rightarrow> if is_exist e then ret ()
                else fail (Wrapf ''creating device node %s: %w'' [dev_path dev] e)
     | Inr _ \<Rightarrow>
         let uid = (case dev_uid dev of None \<Rightarrow> 0 | Some u \<Rightarrow> ucast u);
             gid = (case dev_gid dev of None \<Rightarrow> 0 | Some g \<Rightarrow> ucast g)
         in wrap_eff ''setting owner on device %s: %w'' [dev_path dev] (perform K (Chown target uid gid))))"

definition bind_device :: "'k files \<Rightarrow> string \<Rightarrow> linux_device \<Rightarrow> ('k, unit) fprog" where
  "bind_device K target dev =
     andthen (attempt (syscall K (Stat (dev_path dev)))) (\<lambda>st.
     case st of
       Inl _ \<Rightarrow> ret ()
     | Inr _ \<Rightarrow>
         andthen (attempt (perform K (CreateFile target 420))) (\<lambda>r.
         andthen (case r of
                    Inl e \<Rightarrow> if is_exist e then ret ()
                             else fail (Wrapf ''creating bind target for device %s: %w'' [dev_path dev] e)
                  | Inr _ \<Rightarrow> ret ()) (\<lambda>_.
         wrap_eff ''bind mounting device %s: %w'' [dev_path dev]
           (perform K (Mount (dev_path dev) target [] MS_BIND [])))))"

definition create_device :: "'k files \<Rightarrow> init_config \<Rightarrow> linux_device \<Rightarrow> ('k, unit) fprog" where
  "create_device K cfg dev =
     andthen (wrap_eff ''resolving device path %s: %w'' [dev_path dev]
               (secure_join K (ic_rootfs cfg) (dev_path dev))) (\<lambda>target.
     andthen (wrap_eff ''creating directory for device %s: %w'' [dev_path dev]
               (perform K (MkdirAll (dir_of target) 493))) (\<lambda>_.
     if supports_device_nodes (ic_mode cfg) then mknod_device K target dev
     else bind_device K target dev))"

definition create_devices :: "'k files \<Rightarrow> init_config \<Rightarrow> ('k, unit) fprog" where
  "create_devices K cfg =
     (let devices = default_devices @
            (case spec_linux (ic_spec cfg) of None \<Rightarrow> [] | Some l \<Rightarrow> lx_devices l)
      in for_each (create_device K cfg) devices)"

text \<open>
  The link table is a Go map from old to new names. Its iteration order is not defined, so the
  steps take the order of the walk as an argument \<open>links\<close>.
\<close>

definition dev_symlinks :: "(string \<times> string) list" where
  "dev_symlinks = [
    (''/proc/self/fd'', ''/dev/fd''),
    (''/proc/self/fd/0'', ''/dev/stdin''),
    (''/proc/self/fd/1'', ''/dev/stdout''),
    (''/proc/self/fd/2'', ''/dev/stderr''),
    (''/dev/pts/ptmx'', ''/dev/ptmx'')]"

definition create_dev_symlink :: "'k files \<Rightarrow> string \<Rightarrow> string \<times> string \<Rightarrow> ('k, unit) fprog" where
  "create_dev_symlink K rootfs link =
     (let oldname = fst link; newname = snd link
      in andthen (wrap_eff ''resolving %s: %w'' [newname] (secure_join K rootfs newname)) (\<lambda>target.
         andthen (attempt (perform K (Symlink oldname target))) (\<lambda>r.
         case r of
           Inl e \<Rightarrow> if is_exist e then ret ()
                    else fail (Wrapf ''linking %s -> %s: %w'' [newname, oldname] e)
         | Inr _ \<Rightarrow> ret ())))"

definition create_dev_symlinks :: "'k files \<Rightarrow> (string \<times> string) list \<Rightarrow> string \<Rightarrow> ('k, unit) fprog" where
  "create_dev_symlinks K links rootfs = for_each (create_dev_symlink K rootfs) links"

subsection \<open>Sysctls, masked and read-only paths\<close>

definition check_sysctl_key :: "string \<Rightarrow> unit result" where
  "check_sysctl_key key =
     (if key = [] then Inl (Errorf ''linux.sysctl has an empty key'' [])
      else if contains_any key [CHR ''/'', CHR 0x00]
      then Inl (Errorf ''linux.sysctl key %q is not a sysctl name'' [key])
      else each (\<lambda>segment _. if segment = [] \<or> segment = ''.'' \<or> segment = ''..''
                  then Inl (Errorf ''linux.sysctl key %q is not a sysctl name'' [key]) else Inr ())
             (split_on CHR ''.'' key) ())"

definition sysctl_path :: "string \<Rightarrow> string" where
  "sysctl_path key = ''/proc/sys/'' @ replace_char CHR ''.'' CHR ''/'' key"

definition apply_sysctl :: "'k files \<Rightarrow> string \<Rightarrow> string \<times> string \<Rightarrow> ('k, unit) fprog" where
  "apply_sysctl K rootfs kv =
     (let key = fst kv; value = snd kv
      in andthen (lift (check_sysctl_key key)) (\<lambda>_.
         andthen (wrap_eff ''resolving sysctl %s: %w'' [key] (secure_join K rootfs (sysctl_path key))) (\<lambda>path.
         wrap_eff ''setting sysctl %s=%s: %w'' [key, value] (perform K (WriteFile path value 420)))))"

definition apply_sysctls :: "'k files \<Rightarrow> string \<Rightarrow> spec \<Rightarrow> ('k, unit) fprog" where
  "apply_sysctls K rootfs spec =
     (case spec_linux spec of
        None \<Rightarrow> ret ()
      | Some l \<Rightarrow> for_each (apply_sysctl K rootfs) (lx_sysctl l))"

definition mask_path :: "'k files \<Rightarrow> string \<Rightarrow> string \<Rightarrow> ('k, unit) fprog" where
  "mask_path K rootfs path =
     andthen (wrap_eff ''resolving masked path %s: %w'' [path] (secure_join K rootfs path)) (\<lambda>target.
     andthen (attempt (syscall K (Stat target))) (\<lambda>st.
     case st of
       Inl _ \<Rightarrow> ret ()
     | Inr fi \<Rightarrow>
         if is_dir fi
         then wrap_eff ''masking directory %s: %w'' [path]
                (perform K (Mount ''tmpfs'' target ''tmpfs'' MS_RDONLY ''size=0k''))
         else wrap_eff ''masking file %s: %w'' [path]
                (perform K (Mount ''/dev/null'' target [] MS_BIND []))))"

definition mask_paths :: "'k files \<Rightarrow> string \<Rightarrow> string list \<Rightarrow> ('k, unit) fprog" where
  "mask_paths K rootfs = for_each (mask_path K rootfs)"

definition readonly_path :: "'k files \<Rightarrow> string \<Rightarrow> string \<Rightarrow> ('k, unit) fprog" where
  "readonly_path K rootfs path =
     andthen (wrap_eff ''resolving read-only path %s: %w'' [path] (secure_join K rootfs path)) (\<lambda>target.
     andthen (attempt (syscall K (Stat target))) (\<lambda>st.
     case st of
       Inl _ \<Rightarrow> ret ()
     | Inr _ \<Rightarrow>
         andthen (wrap_eff ''binding %s for read-only remount: %w'' [path]
                   (perform K (Mount target target [] (MS_BIND OR MS_REC) []))) (\<lambda>_.
         wrap_eff ''remounting %s read-only: %w'' [path]
           (perform K (Mount target target [] (MS_BIND OR MS_REMOUNT OR MS_RDONLY OR MS_REC) [])))))"

definition readonly_paths :: "'k files \<Rightarrow> string \<Rightarrow> string list \<Rightarrow> ('k, unit) fprog" where
  "readonly_paths K rootfs = for_each (readonly_path K rootfs)"

subsection \<open>All of it, and the pivot\<close>

definition prepare_rootfs :: "'k files \<Rightarrow> (string \<times> string) list \<Rightarrow> init_config \<Rightarrow> ('k, unit) fprog" where
  "prepare_rootfs K links cfg =
     (let rootfs = ic_rootfs cfg; spec = ic_spec cfg
      in
      andthen (wrap_eff ''making mount namespace private: %w'' []
                (perform K (Mount [] ''/'' [] (MS_PRIVATE OR MS_REC) []))) (\<lambda>_.
      andthen (wrap_eff ''bind mounting rootfs %s onto itself: %w'' [rootfs]
                (perform K (Mount rootfs rootfs ''bind'' (MS_BIND OR MS_REC) []))) (\<lambda>_.
      andthen (lift (rootfs_propagation spec)) (\<lambda>propagation.
      andthen (if propagation \<noteq> 0
               then wrap_eff ''setting rootfs propagation to %s: %w''
                      [case spec_linux spec of None \<Rightarrow> [] | Some l \<Rightarrow> lx_rootfs_propagation l]
                      (perform K (Mount [] rootfs [] propagation []))
               else ret ()) (\<lambda>_.
      andthen (for_each (mount_one K rootfs) (spec_mounts spec)) (\<lambda>_.
      andthen (create_devices K cfg) (\<lambda>_.
      andthen (create_dev_symlinks K links rootfs) (\<lambda>_.
      andthen (apply_sysctls K rootfs spec) (\<lambda>_.
      case spec_linux spec of
        None \<Rightarrow> ret ()
      | Some l \<Rightarrow>
          andthen (mask_paths K rootfs (lx_masked_paths l)) (\<lambda>_.
          readonly_paths K rootfs (lx_readonly_paths l)))))))))))"

definition pivot_root :: "'k files \<Rightarrow> string \<Rightarrow> ('k, unit) fprog" where
  "pivot_root K newroot =
     (let oldroot = join_path [newroot, ''.oldroot'']
      in
      andthen (wrap_eff ''creating old root mount point: %w'' [] (perform K (MkdirAll oldroot 448))) (\<lambda>_.
      andthen (wrap_eff ''pivot_root: %w'' [] (perform K (PivotRoot newroot oldroot))) (\<lambda>_.
      andthen (wrap_eff ''chdir to new root: %w'' [] (perform K (Chdir ''/''))) (\<lambda>_.
      andthen (wrap_eff ''detaching old root: %w'' [] (perform K (Unmount ''/.oldroot'' MNT_DETACH))) (\<lambda>_.
      wrap_eff ''removing old root mount point: %w'' [] (perform K (Remove ''/.oldroot'')))))))"

definition finalize_rootfs :: "'k files \<Rightarrow> init_config \<Rightarrow> ('k, unit) fprog" where
  "finalize_rootfs K cfg =
     (let readonly = (case spec_root (ic_spec cfg) of None \<Rightarrow> False | Some r \<Rightarrow> root_readonly r);
          cwd = (case spec_process (ic_spec cfg) of
                   None \<Rightarrow> ''/''
                 | Some pr \<Rightarrow> if proc_cwd pr = [] then ''/'' else proc_cwd pr)
      in
      andthen (wrap_eff ''pivoting into %s: %w'' [ic_rootfs cfg] (pivot_root K (ic_rootfs cfg))) (\<lambda>_.
      andthen (if readonly
               then wrap_eff ''remounting container root read-only: %w'' []
                      (perform K (Mount [] ''/'' [] (MS_BIND OR MS_REMOUNT OR MS_RDONLY OR MS_REC) []))
               else ret ()) (\<lambda>_.
      wrap_eff ''changing to working directory %s: %w'' [cwd] (perform K (Chdir cwd)))))"

end
