(* ===== verification/Rootfs_Safety.thy ===== *)
theory Rootfs_Safety
  imports Rootfs
begin

section \<open>What the root file system steps guarantee\<close>

text \<open>
  The meaning of the mount options, the propagation a root may have, and for every world: the
  mount namespace is made private before anything else, every later change stays in the root, the
  masked and read-only paths are covered, and the pivot leaves nothing of the host reachable.
\<close>

subsection \<open>Mount options\<close>

text \<open>The option that decides flag bit \<open>n\<close>, if \<open>opt\<close> is one, and whether it sets the bit.\<close>

definition decides :: "nat \<Rightarrow> string \<Rightarrow> bool" where
  "decides n opt \<longleftrightarrow>
     (case map_of mount_flag_names opt of None \<Rightarrow> False | Some (clear, f) \<Rightarrow> bit f n)"

definition sets_flag :: "string \<Rightarrow> bool" where
  "sets_flag opt \<longleftrightarrow>
     (case map_of mount_flag_names opt of None \<Rightarrow> False | Some (clear, f) \<Rightarrow> \<not> clear)"

definition is_propagation :: "string \<Rightarrow> bool" where
  "is_propagation opt \<longleftrightarrow> map_of mount_flag_names opt = None \<and> map_of propagation_flags opt \<noteq> None"

definition is_data :: "string \<Rightarrow> bool" where
  "is_data opt \<longleftrightarrow> map_of mount_flag_names opt = None \<and> map_of propagation_flags opt = None"

lemma add_option_flags:
  "bit (mf_flags (add_option opt s)) n \<longleftrightarrow>
     (if decides n opt then sets_flag opt else bit (mf_flags s) n)"
proof (cases "map_of mount_flag_names opt")
  case None
  then show ?thesis by (simp add: add_option_def decides_def split: option.split)
next
  case (Some cf)
  have "bit f n \<Longrightarrow> n < 64" for f :: uintptr using bit_imp_le_length by fastforce
  then show ?thesis
    using Some by (cases cf) (auto simp: add_option_def decides_def sets_flag_def bit_simps)
qed

lemma add_option_propagation:
  "bit (mf_propagation (add_option opt s)) n \<longleftrightarrow>
     bit (mf_propagation s) n \<or>
     is_propagation opt \<and> bit (the (map_of propagation_flags opt)) n"
  by (auto simp: add_option_def is_propagation_def bit_or_iff split: option.splits)

lemma add_option_data:
  "mf_data (add_option opt s) = mf_data s @ (if is_data opt then [opt] else [])"
  by (auto simp: add_option_def is_data_def split: option.splits)

lemma fold_options_flags:
  "bit (mf_flags (fold add_option opts s)) n \<longleftrightarrow>
     (case find (decides n) (rev opts) of None \<Rightarrow> bit (mf_flags s) n | Some o' \<Rightarrow> sets_flag o')"
proof (induction opts rule: rev_induct)
  case (snoc x xs)
  then show ?case by (simp add: add_option_flags)
qed simp

lemma fold_options_propagation:
  "bit (mf_propagation (fold add_option opts s)) n \<longleftrightarrow>
     bit (mf_propagation s) n \<or>
     (\<exists>o' \<in> set opts. is_propagation o' \<and> bit (the (map_of propagation_flags o')) n)"
  by (induction opts arbitrary: s) (auto simp: add_option_propagation)

lemma fold_options_data: "mf_data (fold add_option opts s) = mf_data s @ filter is_data opts"
  by (induction opts arbitrary: s) (simp_all add: add_option_data)

lemma mount_options_bits:
  "case parse_mount_options opts of (flags, propagation, data) \<Rightarrow>
     (\<forall>n. bit flags n \<longleftrightarrow>
        (case find (decides n) (rev opts) of None \<Rightarrow> False | Some opt \<Rightarrow> sets_flag opt)) \<and>
     (\<forall>n. bit propagation n \<longleftrightarrow>
        list_ex (\<lambda>opt. is_propagation opt \<and> bit (the (map_of propagation_flags opt)) n) opts) \<and>
     data = join_with '','' (filter is_data opts)"
  by (simp add: parse_mount_options_def Let_def fold_options_flags fold_options_propagation
      fold_options_data list_ex_iff cong: option.case_cong)

text \<open>
  The flags of a mount are decided option by option, the last one that speaks of a flag
  winning; the propagation is every propagation option together; and everything the tables do not
  know goes to the file system as data, in order and unchanged.
\<close>

theorem mount_options_meaning:
  "case parse_mount_options opts of (flags, propagation, data) \<Rightarrow>
     (\<forall>n. bit flags n \<longleftrightarrow>
        (case find (decides n) (rev opts) of None \<Rightarrow> False | Some opt \<Rightarrow> sets_flag opt)) \<and>
     (\<forall>n. bit propagation n \<longleftrightarrow>
        list_ex (\<lambda>opt. is_propagation opt \<and> bit (the (map_of propagation_flags opt)) n) opts) \<and>
     data = join_with '','' (filter is_data opts)"
  by (rule mount_options_bits)

text \<open>
  A propagation mode for the root is passed on only when it is a known one and not a shared one;
  without a mode the root keeps the private propagation it was given.
\<close>

theorem rootfs_propagation_never_shared:
  "case rootfs_propagation s of
     Inr p \<Rightarrow> p AND MS_SHARED = 0 \<and>
       (p = 0 \<or> (\<exists>l. spec_linux s = Some l \<and>
          map_of propagation_flags (lx_rootfs_propagation l) = Some p))
   | Inl e \<Rightarrow> (\<exists>l. spec_linux s = Some l \<and> lx_rootfs_propagation l \<notin>
          {[], ''private'', ''rprivate'', ''slave'', ''rslave'', ''unbindable'', ''runbindable''})"
proof (cases "spec_linux s")
  case None
  then show ?thesis by (simp add: rootfs_propagation_def)
next
  case (Some l)
  have modes: "map_of propagation_flags m = Some p \<Longrightarrow> p AND MS_SHARED \<noteq> 0 \<Longrightarrow>
      m \<notin> {''private'', ''rprivate'', ''slave'', ''rslave'', ''unbindable'', ''runbindable''}" for m p
    by (auto simp: propagation_flags_def ms_defs split: if_splits)
  have known: "map_of propagation_flags m = None \<Longrightarrow>
      m \<notin> {''private'', ''rprivate'', ''slave'', ''rslave'', ''unbindable'', ''runbindable''}" for m
    by (auto simp: propagation_flags_def split: if_splits)
  show ?thesis
    using Some modes known
    by (auto simp: rootfs_propagation_def Let_def split: option.split)
qed

subsection \<open>Confinement\<close>

lemma inside_root: "inside rs (path_of rs)"
  unfolding inside_def by (intro exI [of _ "[]"]) simp

lemma confined_dir:
  "list_all normal rs \<Longrightarrow> rs \<noteq> [] \<Longrightarrow> inside rs t \<Longrightarrow> confined rs (MkdirAll (dir_of t) m)"
  using inside_dir by simp

lemma confined_bind_target:
  assumes rs: "list_all normal rs" "rs \<noteq> []"
  shows "inside rs t \<Longrightarrow> only (confined rs) (make_bind_target K source t)"
  unfolding make_bind_target_def by (intro only_intros confined_dir rs) simp_all

lemma confined_mount_one:
  assumes rs: "list_all normal rs" "rs \<noteq> []"
  shows "only (confined rs) (mount_one K (path_of rs) m)"
  unfolding mount_one_def
proof (rule jail.confined_resolve [OF rs])
  fix t assume t: "inside rs t"
  show "only (confined rs) (case parse_mount_options (mnt_options m) of (flags, propagation, data) \<Rightarrow>
      andthen (if flags AND MS_BIND \<noteq> 0 then make_bind_target K (mnt_source m) t
               else wrap_eff ''creating mount point %s: %w'' [t] (perform K (MkdirAll t 493))) (\<lambda>_.
      let source = (if mnt_source m = [] then mnt_type m else mnt_source m);
          fstype = (if flags AND MS_BIND \<noteq> 0 then [] else mnt_type m)
      in andthen (wrap_eff ''mounting %s (%s) at %s: %w'' [source, mnt_type m, mnt_destination m]
                   (perform K (Mount source t fstype flags data))) (\<lambda>_.
         andthen (if flags AND MS_BIND \<noteq> 0 \<and> flags AND MS_RDONLY \<noteq> 0
                  then wrap_eff ''remounting %s read-only: %w'' [mnt_destination m]
                         (perform K (Mount [] t [] (flags OR MS_REMOUNT) []))
                  else ret ()) (\<lambda>_.
         if propagation \<noteq> 0
         then wrap_eff ''setting propagation on %s: %w'' [mnt_destination m]
                (perform K (Mount [] t [] propagation []))
         else ret ()))))"
    unfolding Let_def
    by (cases "parse_mount_options (mnt_options m)")
       (auto intro!: only_intros confined_bind_target rs t)
qed

lemma confined_mknod: "inside rs t \<Longrightarrow> only (confined rs) (mknod_device K t dev)"
  unfolding mknod_device_def Let_def by (intro only_intros) simp_all

lemma confined_bind_device: "inside rs t \<Longrightarrow> only (confined rs) (bind_device K t dev)"
  unfolding bind_device_def by (intro only_intros) simp_all

lemma confined_create_devices:
  assumes rs: "list_all normal rs" "rs \<noteq> []" and cfg: "ic_rootfs cfg = path_of rs"
  shows "only (confined rs) (create_devices K cfg)"
proof -
  have "only (confined rs) (create_device K cfg dev)" for dev
    unfolding create_device_def cfg
    by (rule jail.confined_resolve [OF rs])
       (intro only_intros confined_dir confined_mknod confined_bind_device rs; assumption?)
  then show ?thesis unfolding create_devices_def Let_def by (intro only_intros)
qed

lemma confined_links:
  assumes rs: "list_all normal rs" "rs \<noteq> []"
  shows "only (confined rs) (create_dev_symlinks K links (path_of rs))"
  unfolding create_dev_symlinks_def create_dev_symlink_def Let_def
  by (intro only_for_each jail.confined_resolve [OF rs] only_intros) simp_all

lemma confined_sysctls:
  assumes rs: "list_all normal rs" "rs \<noteq> []"
  shows "only (confined rs) (apply_sysctls K (path_of rs) spec)"
  unfolding apply_sysctls_def apply_sysctl_def Let_def
  by (intro only_option only_for_each only_andthen only_lift only_ret jail.confined_resolve [OF rs]
      only_wrap only_perform) simp

lemma confined_masks:
  assumes rs: "list_all normal rs" "rs \<noteq> []"
  shows "only (confined rs) (mask_paths K (path_of rs) paths)"
  unfolding mask_paths_def mask_path_def
  by (intro only_for_each jail.confined_resolve [OF rs] only_intros) simp_all

lemma confined_readonly:
  assumes rs: "list_all normal rs" "rs \<noteq> []"
  shows "only (confined rs) (readonly_paths K (path_of rs) paths)"
  unfolding readonly_paths_def readonly_path_def
  by (intro only_for_each jail.confined_resolve [OF rs] only_intros) simp_all

lemmas confined_steps = confined_mount_one confined_create_devices confined_links confined_sysctls
  confined_masks confined_readonly

text \<open>
  A small container: one volume, one sysctl, one masked and one read-only path, on a host where
  every path is a plain directory or file.
\<close>

definition volume_example :: "string list \<Rightarrow> mount" where
  "volume_example opts = \<lparr>mnt_destination = ''/data'', mnt_type = ''bind'', mnt_source = ''/srv'',
     mnt_options = opts, mnt_uid_mappings = [], mnt_gid_mappings = []\<rparr>"

definition cfg_example :: init_config where
  "cfg_example = \<lparr>ic_spec = (bundle_spec ''rootfs'')
       \<lparr>spec_mounts := [volume_example [''rbind'', ''nosuid'', ''nodev'']],
        spec_linux := Some (empty_linux\<lparr>lx_sysctl := [(''net.core.somaxconn'', ''128'')],
          lx_masked_paths := [''/proc/kcore''], lx_readonly_paths := [''/proc/sys'']\<rparr>)\<rparr>,
     ic_rootfs = ''/r'', ic_id = ''c1'', ic_bundle = ''/b'', ic_mode = ModeRootfull, ic_host_pid = 1\<rparr>"

lemma prepare_example_ok:
  "fst (prepare_rootfs (link_world []) dev_symlinks cfg_example ((), [])) = Inr ()"
  by code_simp

lemma root_example: "list_all normal [''r'']" "[''r''] \<noteq> []" "ic_rootfs cfg_example = path_of [''r'']"
  by (simp_all add: normal_def cfg_example_def)



subsection \<open>Masked and read-only paths\<close>

definition masked_in :: "'k files \<Rightarrow> string list \<Rightarrow> (fcall \<times> (errno + answer)) list \<Rightarrow> string \<Rightarrow> bool" where
  "masked_in K rs log path \<longleftrightarrow>
     (\<exists>t p1 p2. secure_join K (path_of rs) path p1 = (Inr t, p2) \<and>
        ((\<exists>e. (Stat t, Inl e) \<in> set log) \<or>
         (\<exists>a. (Mount ''tmpfs'' t ''tmpfs'' MS_RDONLY ''size=0k'', Inr a) \<in> set log) \<or>
         (\<exists>a. (Mount ''/dev/null'' t [] MS_BIND [], Inr a) \<in> set log)))"

definition readonly_in :: "'k files \<Rightarrow> string list \<Rightarrow> (fcall \<times> (errno + answer)) list \<Rightarrow> string \<Rightarrow> bool" where
  "readonly_in K rs log path \<longleftrightarrow>
     (\<exists>t p1 p2. secure_join K (path_of rs) path p1 = (Inr t, p2) \<and>
        ((\<exists>e. (Stat t, Inl e) \<in> set log) \<or>
         (\<exists>a b. (Mount t t [] (MS_BIND OR MS_REC) [], Inr a) \<in> set log \<and>
                (Mount t t [] (MS_BIND OR MS_REMOUNT OR MS_RDONLY OR MS_REC) [], Inr b) \<in> set log)))"

lemma only_True_mask: "only (\<lambda>_. True) (mask_path K (path_of rs) path)"
  and only_True_readonly: "only (\<lambda>_. True) (readonly_path K (path_of rs) path)"
  if "list_all normal rs" "rs \<noteq> []" for K and path
  using that
  by (auto simp: mask_path_def readonly_path_def
      intro!: only_intros only_mono [OF jail.resolve_looks])

lemma mask_path_done:
  assumes "mask_path K (path_of rs) path p = (Inr (), q)"
  shows "masked_in K rs (snd q) path"
proof -
  from assms obtain t p1 st p2 where j: "secure_join K (path_of rs) path p = (Inr t, p1)"
    and s: "syscall K (Stat t) p1 = (st, p2)"
    and m: "(case st of
       Inl _ \<Rightarrow> ret ()
     | Inr fi \<Rightarrow>
         if is_dir fi
         then wrap_eff ''masking directory %s: %w'' [path]
                (perform K (Mount ''tmpfs'' t ''tmpfs'' MS_RDONLY ''size=0k''))
         else wrap_eff ''masking file %s: %w'' [path]
                (perform K (Mount ''/dev/null'' t [] MS_BIND []))) p2 = (Inr (), q)"
    unfolding mask_path_def andthen_Inr wrap_eff_Inr attempt_Inr by blast
  show ?thesis
  proof (cases st)
    case (Inl e)
    then have "q = p2" using m by (simp add: ret_def)
    then have "\<exists>n. (Stat t, Inl n) \<in> set (snd q)" using syscall_log [OF s] Inl by auto
    then show ?thesis unfolding masked_in_def using j by blast
  next
    case (Inr fi)
    then have "\<exists>a. syscall K (if is_dir fi then Mount ''tmpfs'' t ''tmpfs'' MS_RDONLY ''size=0k''
        else Mount ''/dev/null'' t [] MS_BIND []) p2 = (Inr a, q)"
      using m by (simp add: wrap_eff_Inr perform_Inr split: if_splits)
    then obtain a where "(if is_dir fi then Mount ''tmpfs'' t ''tmpfs'' MS_RDONLY ''size=0k''
        else Mount ''/dev/null'' t [] MS_BIND [], Inr a) \<in> set (snd q)"
      using syscall_Inr_log by fastforce
    then have "(Mount ''tmpfs'' t ''tmpfs'' MS_RDONLY ''size=0k'', Inr a) \<in> set (snd q) \<or>
        (Mount ''/dev/null'' t [] MS_BIND [], Inr a) \<in> set (snd q)"
      by (simp split: if_splits)
    then show ?thesis unfolding masked_in_def using j by blast
  qed
qed

lemma readonly_path_done:
  assumes "readonly_path K (path_of rs) path p = (Inr (), q)"
  shows "readonly_in K rs (snd q) path"
proof -
  from assms obtain t p1 st p2 where j: "secure_join K (path_of rs) path p = (Inr t, p1)"
    and s: "syscall K (Stat t) p1 = (st, p2)"
    and m: "(case st of
       Inl _ \<Rightarrow> ret ()
     | Inr _ \<Rightarrow>
         andthen (wrap_eff ''binding %s for read-only remount: %w'' [path]
                   (perform K (Mount t t [] (MS_BIND OR MS_REC) []))) (\<lambda>_.
         wrap_eff ''remounting %s read-only: %w'' [path]
           (perform K (Mount t t [] (MS_BIND OR MS_REMOUNT OR MS_RDONLY OR MS_REC) [])))) p2 = (Inr (), q)"
    unfolding readonly_path_def andthen_Inr wrap_eff_Inr attempt_Inr by blast
  show ?thesis
  proof (cases st)
    case (Inl e)
    then have "q = p2" using m by (simp add: ret_def)
    then have "\<exists>n. (Stat t, Inl n) \<in> set (snd q)" using syscall_log [OF s] Inl by auto
    then show ?thesis unfolding readonly_in_def using j by blast
  next
    case (Inr fi)
    then obtain a b p3 where "syscall K (Mount t t [] (MS_BIND OR MS_REC) []) p2 = (Inr a, p3)"
      "syscall K (Mount t t [] (MS_BIND OR MS_REMOUNT OR MS_RDONLY OR MS_REC) []) p3 = (Inr b, q)"
      using m by (auto simp: andthen_Inr wrap_eff_Inr perform_Inr simp del: split_paired_Ex)
    then have "(Mount t t [] (MS_BIND OR MS_REC) [], Inr a) \<in> set (snd q)"
      "(Mount t t [] (MS_BIND OR MS_REMOUNT OR MS_RDONLY OR MS_REC) [], Inr b) \<in> set (snd q)"
      by (simp_all add: syscall_Inr_log)
    then show ?thesis unfolding readonly_in_def using j by blast
  qed
qed

lemma masked_in_mono: "masked_in K rs l path \<Longrightarrow> set l \<subseteq> set l' \<Longrightarrow> masked_in K rs l' path"
  unfolding masked_in_def by blast

lemma readonly_in_mono: "readonly_in K rs l path \<Longrightarrow> set l \<subseteq> set l' \<Longrightarrow> readonly_in K rs l' path"
  unfolding readonly_in_def by blast



subsection \<open>What a bind mount allows\<close>

text \<open>
  The per-mount attributes, as mount(2) describes them: a remount sets them to the flags given; a
  bind leaves those of the source, whatever the flags say; a change of propagation leaves them; a
  new mount gets the flags given.
\<close>

definition attr_mask :: uintptr where
  "attr_mask = MS_RDONLY OR MS_NOSUID OR MS_NODEV OR MS_NOEXEC OR MS_NOATIME OR MS_NODIRATIME OR MS_RELATIME"

definition keep_mask :: uintptr where
  "keep_mask = MS_BIND OR MS_PRIVATE OR MS_SLAVE OR MS_SHARED OR MS_UNBINDABLE"

definition mount_effect :: "uintptr \<Rightarrow> uintptr \<Rightarrow> uintptr" where
  "mount_effect flags attrs =
     (if flags AND MS_REMOUNT \<noteq> 0 then flags AND attr_mask
      else if flags AND keep_mask \<noteq> 0 then attrs
      else flags AND attr_mask)"

fun mounts_at :: "string \<Rightarrow> (fcall \<times> (errno + answer)) list \<Rightarrow> uintptr list" where
  "mounts_at t [] = []"
| "mounts_at t ((Mount _ t' _ flags _, Inr _) # log) =
     (if t' = t then flags # mounts_at t log else mounts_at t log)"
| "mounts_at t (_ # log) = mounts_at t log"

definition attrs_after :: "uintptr \<Rightarrow> (fcall \<times> (errno + answer)) list \<Rightarrow> string \<Rightarrow> uintptr" where
  "attrs_after source log t = fold mount_effect (mounts_at t log) source"

fun is_mount :: "fcall \<Rightarrow> bool" where
  "is_mount (Mount _ _ _ _ _) \<longleftrightarrow> True"
| "is_mount _ \<longleftrightarrow> False"

lemma mounts_at_append: "mounts_at t (a @ b) = mounts_at t a @ mounts_at t b"
  by (induction t a rule: mounts_at.induct) auto

lemma mounts_at_none: "list_all ((\<lambda>c. \<not> is_mount c) \<circ> fst) log \<Longrightarrow> mounts_at t log = []"
  by (induction t log rule: mounts_at.induct) auto

lemma looks_not_mount: "looks c \<Longrightarrow> \<not> is_mount c"
  by (cases c) simp_all

lemma bind_target_no_mount: "only (\<lambda>c. \<not> is_mount c) (make_bind_target K source t)"
  unfolding make_bind_target_def by (intro only_intros) simp_all

lemma propagation_bits:
  assumes "parse_mount_options opts = (flags, propagation, data)"
  shows "\<not> bit propagation 5" and "propagation \<noteq> 0 \<Longrightarrow> propagation AND keep_mask \<noteq> 0"
proof -
  have pbits: "bit propagation n \<longleftrightarrow>
      list_ex (\<lambda>opt. is_propagation opt \<and> bit (the (map_of propagation_flags opt)) n) opts" for n
    using mount_options_bits [of opts] assms by simp
  have table: "\<not> bit (the (map_of propagation_flags opt)) 5 \<and>
      (\<exists>n \<in> {17, 18, 19, 20}. bit (the (map_of propagation_flags opt)) n)"
    if "is_propagation opt" for opt
    using that
    by (auto simp: is_propagation_def propagation_flags_def ms_defs bit_simps split: if_splits)
  show "\<not> bit propagation 5" using table by (auto simp: pbits list_ex_iff)
  assume "propagation \<noteq> 0"
  then obtain n where "bit propagation n" by (auto simp: bit_eq_iff)
  then obtain opt where opt: "opt \<in> set opts" "is_propagation opt" by (auto simp: pbits list_ex_iff)
  then obtain m where m: "m \<in> {17, 18, 19, 20}" "bit propagation m"
    using table by (fastforce simp: pbits list_ex_iff)
  have "bit keep_mask m" using m(1) by (auto simp: keep_mask_def ms_defs bit_or_iff)
  then have "bit (propagation AND keep_mask) m" using m(2) by (simp add: bit_and_iff)
  then show "propagation AND keep_mask \<noteq> 0" by auto
qed

lemma remount_attrs: "(flags OR MS_REMOUNT) AND MS_REMOUNT \<noteq> 0"
  "(flags OR MS_REMOUNT) AND attr_mask = flags AND attr_mask"
proof -
  have "bit ((flags OR MS_REMOUNT) AND MS_REMOUNT) 5" by (simp add: ms_defs bit_simps)
  then show "(flags OR MS_REMOUNT) AND MS_REMOUNT \<noteq> 0" by auto
  have "MS_REMOUNT AND attr_mask = 0" by (simp add: attr_mask_def ms_defs)
  then show "(flags OR MS_REMOUNT) AND attr_mask = flags AND attr_mask"
    by (simp add: bit.conj_disj_distrib2)
qed

lemma join_no_mount:
  "list_all normal rs \<Longrightarrow> rs \<noteq> [] \<Longrightarrow> only (\<lambda>c. \<not> is_mount c) (secure_join K (path_of rs) u)"
  by (rule only_mono [OF jail.resolve_looks looks_not_mount])

lemma mount_logged:
  "perform K (Mount source t fs fl d) p = (Inr (), q) \<Longrightarrow>
   \<exists>new. snd q = snd p @ new \<and> mounts_at t new = [fl]"
  by (auto simp: perform_Inr dest!: syscall_Inr_log)

lemma mount_one_log:
  assumes rs: "list_all normal rs" "rs \<noteq> []"
    and opts: "parse_mount_options (mnt_options m) = (flags, propagation, data)"
    and bind: "flags AND MS_BIND \<noteq> 0"
    and run: "mount_one K (path_of rs) m p = (Inr (), q)"
  obtains t p1 new where "secure_join K (path_of rs) (mnt_destination m) p = (Inr t, p1)"
    and "snd q = snd p @ new"
    and "mounts_at t new = flags # (if flags AND MS_RDONLY \<noteq> 0 then [flags OR MS_REMOUNT] else []) @
           (if propagation \<noteq> 0 then [propagation] else [])"
proof -
  from run obtain t p1 p2 p3 p4 source fs where
    1: "secure_join K (path_of rs) (mnt_destination m) p = (Inr t, p1)"
    and 2: "make_bind_target K (mnt_source m) t p1 = (Inr (), p2)"
    and 3: "perform K (Mount source t fs flags data) p2 = (Inr (), p3)"
    and 4: "(if flags AND MS_BIND \<noteq> 0 \<and> flags AND MS_RDONLY \<noteq> 0
              then wrap_eff ''remounting %s read-only: %w'' [mnt_destination m]
                     (perform K (Mount [] t [] (flags OR MS_REMOUNT) []))
              else ret ()) p3 = (Inr (), p4)"
    and 5: "(if propagation \<noteq> 0
      then wrap_eff ''setting propagation on %s: %w'' [mnt_destination m]
             (perform K (Mount [] t [] propagation []))
      else ret ()) p4 = (Inr (), q)"
    unfolding mount_one_def opts prod.case Let_def andthen_Inr wrap_eff_Inr ex_unit
    using bind by (auto simp del: split_paired_Ex)
  obtain n1 where n1: "snd p1 = snd p @ n1" "mounts_at t n1 = []"
    using only_log [OF join_no_mount [OF rs] 1] mounts_at_none by blast
  obtain n2 where n2: "snd p2 = snd p1 @ n2" "mounts_at t n2 = []"
    using only_log [OF bind_target_no_mount 2] mounts_at_none by blast
  obtain n3 where n3: "snd p3 = snd p2 @ n3" "mounts_at t n3 = [flags]" using mount_logged [OF 3] by blast
  obtain n4 where n4: "snd p4 = snd p3 @ n4"
    "mounts_at t n4 = (if flags AND MS_RDONLY \<noteq> 0 then [flags OR MS_REMOUNT] else [])"
    using 4 bind mount_logged [of K "[]" t "[]" "flags OR MS_REMOUNT" "[]" p3 p4]
    by (auto simp: wrap_eff_Inr ret_Inr split: if_splits)
  obtain n5 where n5: "snd q = snd p4 @ n5"
    "mounts_at t n5 = (if propagation \<noteq> 0 then [propagation] else [])"
    using 5 mount_logged [of K "[]" t "[]" propagation "[]" p4 q]
    by (auto simp: wrap_eff_Inr ret_Inr split: if_splits)
  show thesis
    by (rule that [OF 1, of "n1 @ n2 @ n3 @ n4 @ n5"])
       (simp_all only: n1 n2 n3 n4 n5 mounts_at_append append.simps append_assoc)
qed

text \<open>
  A bind mount asked for read-only really is read-only, with every other attribute asked for;
  one not asked for read-only keeps the attributes of its source: \<^verbatim>\<open>nosuid\<close>, \<^verbatim>\<open>nodev\<close> and
  \<^verbatim>\<open>noexec\<close> on it are given to mount(2) together with MS_BIND, which ignores them.
\<close>

theorem bind_mount_attributes:
  assumes "list_all normal rs" "rs \<noteq> []"
    and "parse_mount_options (mnt_options m) = (flags, propagation, data)"
    and "flags AND MS_BIND \<noteq> 0" and "flags AND MS_REMOUNT = 0"
    and "mount_one K (path_of rs) m p = (Inr (), q)"
  shows "\<exists>t p1 new. secure_join K (path_of rs) (mnt_destination m) p = (Inr t, p1) \<and>
    snd q = snd p @ new \<and>
    attrs_after source new t = (if flags AND MS_RDONLY \<noteq> 0 then flags AND attr_mask else source)"
proof -
  obtain t p1 new where *: "secure_join K (path_of rs) (mnt_destination m) p = (Inr t, p1)"
    "snd q = snd p @ new"
    and new: "mounts_at t new = flags # (if flags AND MS_RDONLY \<noteq> 0 then [flags OR MS_REMOUNT] else []) @
           (if propagation \<noteq> 0 then [propagation] else [])"
    by (rule mount_one_log [OF assms(1-4,6)])
  have "flags AND keep_mask \<noteq> 0"
  proof
    assume "flags AND keep_mask = 0"
    then have "flags AND (keep_mask AND MS_BIND) = 0" by (simp flip: and.assoc)
    moreover have "keep_mask AND MS_BIND = MS_BIND" by (simp add: keep_mask_def ms_defs)
    ultimately show False using assms(4) by simp
  qed
  then have 1: "mount_effect flags a = a" for a by (simp add: mount_effect_def assms(5))
  have 2: "mount_effect (flags OR MS_REMOUNT) a = flags AND attr_mask" for a
    by (simp only: mount_effect_def remount_attrs if_True simp_thms)
  have "propagation AND MS_REMOUNT = 0"
    using propagation_bits(1) [OF assms(3)] bit_iff_and_push_bit_not_eq_0 [of propagation 5]
    by (simp add: ms_defs)
  then have 3: "propagation \<noteq> 0 \<Longrightarrow> mount_effect propagation a = a" for a
    using propagation_bits(2) [OF assms(3)] by (simp add: mount_effect_def)
  have "attrs_after source new t = (if flags AND MS_RDONLY \<noteq> 0 then flags AND attr_mask else source)"
    by (simp add: attrs_after_def new 1 2 3)
  with * show ?thesis by blast
qed

theorem bind_mount_attributes_witness:
  "\<exists>new. snd (snd (mount_one (link_world []) ''/r'' (volume_example [''rbind'', ''nosuid'', ''nodev'']) ((), []))) = new \<and>
     attrs_after 0 new ''/r/data'' = 0"
proof -
  let ?m = "volume_example [''rbind'', ''nosuid'', ''nodev'']"
  have opts: "parse_mount_options (mnt_options ?m) = (0x5006, 0, [])" by code_simp
  have "fst (mount_one (link_world []) (path_of [''r'']) ?m ((), [])) = Inr ()" by code_simp
  then obtain q where q: "mount_one (link_world []) (path_of [''r'']) ?m ((), []) = (Inr (), q)"
    by (metis prod.collapse)
  have "fst (secure_join (link_world []) (path_of [''r'']) (mnt_destination ?m) ((), [])) = Inr ''/r/data''"
    by code_simp
  then show ?thesis
    using bind_mount_attributes [OF root_example(1,2) opts _ _ q, of 0] q by (auto simp: ms_defs)
qed

subsection \<open>Sysctl keys and the pivot\<close>

lemma split_replace_char:
  "CHR ''/'' \<notin> set s \<Longrightarrow> split_on CHR ''/'' (replace_char CHR ''.'' CHR ''/'' s) = split_on CHR ''.'' s"
proof (induction s)
  case (Cons c s)
  then show ?case
    by (cases "split_on CHR ''.'' s") (auto simp: replace_char_def)
qed (simp add: replace_char_def)

lemma each_check:
  "each (\<lambda>x _. if P x then Inl e else Inr ()) xs () = Inr () \<longleftrightarrow> \<not> list_ex P xs"
  by (induction xs) simp_all

lemma split_on_join:
  "segs \<noteq> [] \<Longrightarrow> list_all (\<lambda>s. c \<notin> set s) segs \<Longrightarrow> split_on c (join_with [c] segs) = segs"
proof (induction segs)
  case (Cons s segs)
  then show ?case by (cases segs) (simp_all add: split_on_no_sep split_on_append_sep)
qed simp

lemma set_join_with: "set (join_with sep xs) \<subseteq> set sep \<union> \<Union> (set ` set xs)"
  by (induction sep xs rule: join_with.induct) auto

lemma check_sysctl_key_iff:
  "check_sysctl_key key = Inr () \<longleftrightarrow>
     key \<noteq> [] \<and> CHR ''/'' \<notin> set key \<and> CHR 0x00 \<notin> set key \<and>
     \<not> list_ex (\<lambda>s. s = [] \<or> s = ''.'' \<or> s = ''..'') (split_on CHR ''.'' key)"
  unfolding check_sysctl_key_def each_check
  by (auto simp: contains_any_def list_ex_iff each_check)

lemma sysctl_path_comps:
  assumes "CHR ''/'' \<notin> set key" and "list_all normal (split_on CHR ''.'' key)"
  shows "clean_abs_comps (sysctl_path key) = ''proc'' # ''sys'' # split_on CHR ''.'' key"
proof -
  have "sysctl_path key = ''/proc/sys'' @ CHR ''/'' # replace_char CHR ''.'' CHR ''/'' key"
    by (simp add: sysctl_path_def)
  then have "split_on CHR ''/'' (sysctl_path key) =
      [] # ''proc'' # ''sys'' # split_on CHR ''/'' (replace_char CHR ''.'' CHR ''/'' key)"
    by (simp add: split_on_slash_append del: append.simps)
  moreover have "clean_comps True [] (''proc'' # ''sys'' # split_on CHR ''.'' key) =
      ''proc'' # ''sys'' # split_on CHR ''.'' key"
    using clean_comps_normal [of "''proc'' # ''sys'' # split_on CHR ''.'' key"] assms(2)
    by (simp add: normal_def)
  ultimately show ?thesis
    using assms by (simp add: clean_abs_comps_def split_replace_char)
qed

text \<open>
  A sysctl key that passes the check names a path strictly below \<^verbatim>\<open>/proc/sys\<close>, one component per
  segment of the key; a key with a slash, a NUL or an empty, \<open>.\<close> or \<open>..\<close> segment is refused.
\<close>

theorem sysctl_key_below_proc_sys:
  "check_sysctl_key key = Inr () \<longleftrightarrow>
     (\<exists>segs. segs \<noteq> [] \<and> list_all normal segs \<and> CHR 0x00 \<notin> set key \<and>
        list_all (\<lambda>seg. CHR ''.'' \<notin> set seg) segs \<and> key = join_with ''.'' segs \<and>
        clean_abs_comps (sysctl_path key) = ''proc'' # ''sys'' # segs)"
proof
  assume "check_sysctl_key key = Inr ()"
  then have key: "key \<noteq> []" "CHR ''/'' \<notin> set key" "CHR 0x00 \<notin> set key"
    and segs: "s \<in> set (split_on CHR ''.'' key) \<Longrightarrow> s \<noteq> [] \<and> s \<noteq> ''.'' \<and> s \<noteq> ''..''" for s
    by (auto simp: check_sysctl_key_iff list_ex_iff)
  have "list_all normal (split_on CHR ''.'' key)"
    using segs key(2) split_on_chars [of _ "CHR ''.''" key] by (auto simp: list_all_iff intro!: normalI)
  then show "\<exists>segs. segs \<noteq> [] \<and> list_all normal segs \<and> CHR 0x00 \<notin> set key \<and>
      list_all (\<lambda>seg. CHR ''.'' \<notin> set seg) segs \<and> key = join_with ''.'' segs \<and>
      clean_abs_comps (sysctl_path key) = ''proc'' # ''sys'' # segs"
    using key sysctl_path_comps [OF key(2)]
    by (intro exI [of _ "split_on CHR ''.'' key"])
       (auto simp: join_split_on list_all_iff dest: split_on_parts)
next
  assume "\<exists>segs. segs \<noteq> [] \<and> list_all normal segs \<and> CHR 0x00 \<notin> set key \<and>
      list_all (\<lambda>seg. CHR ''.'' \<notin> set seg) segs \<and> key = join_with ''.'' segs \<and>
      clean_abs_comps (sysctl_path key) = ''proc'' # ''sys'' # segs"
  then obtain segs where segs: "segs \<noteq> []" "list_all normal segs" "CHR 0x00 \<notin> set key"
    "list_all (\<lambda>seg. CHR ''.'' \<notin> set seg) segs" "key = join_with ''.'' segs" by blast
  have split: "split_on CHR ''.'' key = segs" using split_on_join [OF segs(1,4)] segs(5) by simp
  have "CHR ''/'' \<notin> set key"
    using set_join_with [of "''.''" segs] segs(2,5) by (auto simp: list_all_iff normal_def)
  moreover have "key \<noteq> []" using split segs(1,2) by (auto simp: normal_def)
  ultimately show "check_sysctl_key key = Inr ()"
    using segs(2,3) by (auto simp: check_sysctl_key_iff split list_ex_iff list_all_iff normal_def)
qed

theorem sysctl_key_below_proc_sys_witness:
  "clean_abs_comps (sysctl_path ''net.ipv4.ip_forward'') = [''proc'', ''sys'', ''net'', ''ipv4'', ''ip_forward''] \<and>
   check_sysctl_key ''net...etc'' \<noteq> Inr ()"
proof -
  have "\<exists>segs. ''net.ipv4.ip_forward'' = join_with ''.'' segs \<and> segs \<noteq> [] \<and>
      list_all (\<lambda>seg. CHR ''.'' \<notin> set seg) segs \<and>
      clean_abs_comps (sysctl_path ''net.ipv4.ip_forward'') = ''proc'' # ''sys'' # segs"
    using sysctl_key_below_proc_sys [of "''net.ipv4.ip_forward''"]
    by (simp add: check_sysctl_key_def contains_any_def) blast
  then obtain segs where segs: "''net.ipv4.ip_forward'' = join_with ''.'' segs" "segs \<noteq> []"
    "list_all (\<lambda>seg. CHR ''.'' \<notin> set seg) segs"
    "clean_abs_comps (sysctl_path ''net.ipv4.ip_forward'') = ''proc'' # ''sys'' # segs" by blast
  have "segs = split_on CHR ''.'' ''net.ipv4.ip_forward''"
    unfolding segs(1) using split_on_join [OF segs(2,3)] by simp
  with segs(4) show ?thesis by (simp add: check_sysctl_key_def contains_any_def)
qed

text \<open>
  C28. A finished root is pivoted into, the old root detached and its mount point removed, before
  anything else happens in it; a root asked for read-only is remounted read-only after that, and
  the working directory is entered last. These are all the calls that are made.
\<close>

theorem finalize_rootfs_calls:
  assumes "list_all normal rs" "rs \<noteq> []" and "ic_rootfs cfg = path_of rs"
    and "finalize_rootfs K cfg p = (Inr (), q)"
  shows "\<exists>new. snd q = snd p @ new \<and>
    map fst new =
      [MkdirAll (path_of (rs @ [''.oldroot''])) 448,
       PivotRoot (path_of rs) (path_of (rs @ [''.oldroot''])),
       Chdir ''/'', Unmount ''/.oldroot'' MNT_DETACH, Remove ''/.oldroot''] @
      (case spec_root (ic_spec cfg) of None \<Rightarrow> []
       | Some r \<Rightarrow> if root_readonly r
                   then [Mount [] ''/'' [] (MS_BIND OR MS_REMOUNT OR MS_RDONLY OR MS_REC) []] else []) @
      [Chdir (case spec_process (ic_spec cfg) of None \<Rightarrow> ''/''
              | Some pr \<Rightarrow> if proc_cwd pr = [] then ''/'' else proc_cwd pr)] \<and>
    list_all (\<lambda>c. \<exists>a. snd c = Inr a) new"
proof -
  let ?ro = "case spec_root (ic_spec cfg) of None \<Rightarrow> False | Some r \<Rightarrow> root_readonly r"
  let ?rm = "Mount [] ''/'' [] (MS_BIND OR MS_REMOUNT OR MS_RDONLY OR MS_REC) []"
  let ?cwd = "case spec_process (ic_spec cfg) of None \<Rightarrow> ''/''
              | Some pr \<Rightarrow> if proc_cwd pr = [] then ''/'' else proc_cwd pr"
  have old: "join_path [path_of rs, ''.oldroot''] = path_of (rs @ [''.oldroot''])"
    using assms(1,2) by (rule join_path_normal) (simp add: normal_def)
  have calls: "perform K c p1 = (Inr (), p2) \<Longrightarrow> \<exists>a. snd p2 = snd p1 @ [(c, Inr a)]" for c p1 p2
    by (auto simp: perform_Inr dest!: syscall_Inr_log)
  from assms(4) obtain p1 p2 p3 p4 p5 p6 where
    "perform K (MkdirAll (path_of (rs @ [''.oldroot''])) 448) p = (Inr (), p1)"
    "perform K (PivotRoot (path_of rs) (path_of (rs @ [''.oldroot'']))) p1 = (Inr (), p2)"
    "perform K (Chdir ''/'') p2 = (Inr (), p3)" "perform K (Unmount ''/.oldroot'' MNT_DETACH) p3 = (Inr (), p4)"
    "perform K (Remove ''/.oldroot'') p4 = (Inr (), p5)"
    and ro: "(if ?ro then wrap_eff ''remounting container root read-only: %w'' [] (perform K ?rm)
              else ret ()) p5 = (Inr (), p6)"
    and "perform K (Chdir ?cwd) p6 = (Inr (), q)"
    unfolding finalize_rootfs_def pivot_root_def Let_def assms(3) old andthen_Inr wrap_eff_Inr ex_unit
    by blast
  then obtain a1 a2 a3 a4 a5 a7 where logs:
    "snd p1 = snd p @ [(MkdirAll (path_of (rs @ [''.oldroot''])) 448, Inr a1)]"
    "snd p2 = snd p1 @ [(PivotRoot (path_of rs) (path_of (rs @ [''.oldroot''])), Inr a2)]"
    "snd p3 = snd p2 @ [(Chdir ''/'', Inr a3)]" "snd p4 = snd p3 @ [(Unmount ''/.oldroot'' MNT_DETACH, Inr a4)]"
    "snd p5 = snd p4 @ [(Remove ''/.oldroot'', Inr a5)]" "snd q = snd p6 @ [(Chdir ?cwd, Inr a7)]"
    using calls by meson
  obtain new where "snd p6 = snd p5 @ new" "map fst new = (if ?ro then [?rm] else [])"
    "list_all (\<lambda>c. \<exists>a. snd c = Inr a) new"
    using ro calls [of ?rm p5 p6] by (fastforce simp: wrap_eff_Inr ret_Inr split: if_splits)
  with logs show ?thesis
    by (intro exI [of _ "[(MkdirAll (path_of (rs @ [''.oldroot''])) 448, Inr a1),
        (PivotRoot (path_of rs) (path_of (rs @ [''.oldroot''])), Inr a2), (Chdir ''/'', Inr a3),
        (Unmount ''/.oldroot'' MNT_DETACH, Inr a4), (Remove ''/.oldroot'', Inr a5)] @ new @
        [(Chdir ?cwd, Inr a7)]"]) (simp split: option.split)
qed

theorem finalize_rootfs_calls_witness:
  "map fst (snd (snd (finalize_rootfs (link_world []) cfg_example ((), [])))) =
     [MkdirAll ''/r/.oldroot'' 448, PivotRoot ''/r'' ''/r/.oldroot'', Chdir ''/'',
      Unmount ''/.oldroot'' MNT_DETACH, Remove ''/.oldroot'', Chdir ''/'']"
proof -
  have "fst (finalize_rootfs (link_world []) cfg_example ((), [])) = Inr ()" by code_simp
  then obtain q where q: "finalize_rootfs (link_world []) cfg_example ((), []) = (Inr (), q)"
    by (metis prod.collapse)
  from finalize_rootfs_calls [OF root_example this] q show ?thesis
    by (auto simp: cfg_example_def bundle_spec_def)
qed

end
