(* ===== verification/State_Record.thy ===== *)
theory State_Record
  imports Oci_Spec "HOL-Library.List_Lexorder"
begin

section \<open>The container record and its JSON document (type Container in pkg/state/store.go)\<close>

text \<open>
  The record lightpod keeps of a container, and how encoding/json writes and reads it by the
  struct's tags: fields in order, \<^verbatim>\<open>omitempty\<close> fields left out when empty, members matched by exact
  name first and ignoring case otherwise, null leaving a field as it is, a member of the wrong type
  an error, unknown members skipped. A document is a JSON value; the text layer below it is not
  modelled, so strings are taken to be valid UTF-8. A Go map is an association list with strictly
  increasing keys, the order in which encoding/json writes it.
\<close>

datatype json =
    JNull
  | JBool bool
  | JInt int
  | JReal string
    \<comment> \<open>a number that is not an integer literal, as text\<close>
  | JStr string
  | JArr "json list"
  | JObj "(string \<times> json) list"

record container_record =
  rec_schema :: int
  rec_id :: string
  rec_bundle :: string
  rec_rootfs :: string
  rec_pid :: int
  rec_status :: container_status
  rec_cgroup_path :: string
  rec_created :: string
  rec_annotations :: "(string \<times> string) list"

definition zero_record :: container_record where
  "zero_record = \<lparr>rec_schema = 0, rec_id = [], rec_bundle = [], rec_rootfs = [], rec_pid = 0,
     rec_status = StatusOther [], rec_cgroup_path = [], rec_created = [], rec_annotations = []\<rparr>"

subsection \<open>Writing\<close>

definition encode_record :: "container_record \<Rightarrow> json" where
  "encode_record c = JObj (
     [(''schemaVersion'', JInt (rec_schema c)),
      (''id'', JStr (rec_id c)),
      (''bundle'', JStr (rec_bundle c)),
      (''rootfs'', JStr (rec_rootfs c)),
      (''pid'', JInt (rec_pid c)),
      (''status'', JStr (status_text (rec_status c)))] @
     (if rec_cgroup_path c = [] then [] else [(''cgroupPath'', JStr (rec_cgroup_path c))]) @
     [(''created'', JStr (rec_created c))] @
     (if rec_annotations c = [] then []
      else [(''annotations'', JObj (map (\<lambda>(k, v). (k, JStr v)) (rec_annotations c)))]))"

subsection \<open>Reading\<close>

text \<open>Names equal up to case folding; the Kelvin sign folds to k and the long s to s.\<close>

fun fold_name :: "string \<Rightarrow> string" where
  "fold_name [] = []"
| "fold_name (c # s) =
     (case s of
        CHR 0x84 # CHR 0xAA # s' \<Rightarrow>
          if c = CHR 0xE2 then CHR ''K'' # fold_name s' else upper_char c # fold_name s
      | CHR 0xBF # s' \<Rightarrow>
          if c = CHR 0xC5 then CHR ''S'' # fold_name s' else upper_char c # fold_name s
      | _ \<Rightarrow> upper_char c # fold_name s)"

definition record_fields :: "string list" where
  "record_fields = [''schemaVersion'', ''id'', ''bundle'', ''rootfs'', ''pid'', ''status'',
     ''cgroupPath'', ''created'', ''annotations'']"

definition field_of :: "string \<Rightarrow> string option" where
  "field_of k =
     (if k \<in> set record_fields then Some k
      else find (\<lambda>f. fold_name f = fold_name k) record_fields)"

fun map_put :: "string \<Rightarrow> 'v \<Rightarrow> (string \<times> 'v) list \<Rightarrow> (string \<times> 'v) list" where
  "map_put k v [] = [(k, v)]"
| "map_put k v ((k', v') # m) =
     (if k < k' then (k, v) # (k', v') # m
      else if k = k' then (k, v) # m
      else (k', v') # map_put k v m)"

definition json_type_error :: "string \<Rightarrow> goerr" where
  "json_type_error field = Errorf ''json: cannot unmarshal into Go struct field Container.%s'' [field]"

definition json_int :: "string \<Rightarrow> int \<Rightarrow> json \<Rightarrow> int result" where
  "json_int field old j =
     (case j of
        JNull \<Rightarrow> Inr old
      | JInt i \<Rightarrow> if - (2 ^ 63) \<le> i \<and> i < 2 ^ 63 then Inr i else Inl (json_type_error field)
      | _ \<Rightarrow> Inl (json_type_error field))"

definition json_string :: "string \<Rightarrow> string \<Rightarrow> json \<Rightarrow> string result" where
  "json_string field old j =
     (case j of JNull \<Rightarrow> Inr old | JStr s \<Rightarrow> Inr s | _ \<Rightarrow> Inl (json_type_error field))"

definition json_string_map ::
  "string \<Rightarrow> (string \<times> string) list \<Rightarrow> json \<Rightarrow> (string \<times> string) list result" where
  "json_string_map field old j =
     (case j of
        JNull \<Rightarrow> Inr []
      | JObj ms \<Rightarrow>
          each (\<lambda>(k, v) m. ebind (json_string field [] v) (\<lambda>s. Inr (map_put k s m))) ms old
      | _ \<Rightarrow> Inl (json_type_error field))"

definition decode_member :: "string \<times> json \<Rightarrow> container_record \<Rightarrow> container_record result" where
  "decode_member kv c =
     (case kv of (k, j) \<Rightarrow>
        case field_of k of
          None \<Rightarrow> Inr c
        | Some f \<Rightarrow>
            if f = ''schemaVersion'' then ebind (json_int f (rec_schema c) j) (\<lambda>i. Inr (c\<lparr>rec_schema := i\<rparr>))
            else if f = ''id'' then ebind (json_string f (rec_id c) j) (\<lambda>s. Inr (c\<lparr>rec_id := s\<rparr>))
            else if f = ''bundle'' then ebind (json_string f (rec_bundle c) j) (\<lambda>s. Inr (c\<lparr>rec_bundle := s\<rparr>))
            else if f = ''rootfs'' then ebind (json_string f (rec_rootfs c) j) (\<lambda>s. Inr (c\<lparr>rec_rootfs := s\<rparr>))
            else if f = ''pid'' then ebind (json_int f (rec_pid c) j) (\<lambda>i. Inr (c\<lparr>rec_pid := i\<rparr>))
            else if f = ''status'' then
              ebind (json_string f (status_text (rec_status c)) j) (\<lambda>s. Inr (c\<lparr>rec_status := status_of_text s\<rparr>))
            else if f = ''cgroupPath'' then
              ebind (json_string f (rec_cgroup_path c) j) (\<lambda>s. Inr (c\<lparr>rec_cgroup_path := s\<rparr>))
            else if f = ''created'' then ebind (json_string f (rec_created c) j) (\<lambda>s. Inr (c\<lparr>rec_created := s\<rparr>))
            else
              ebind (json_string_map f (rec_annotations c) j) (\<lambda>m. Inr (c\<lparr>rec_annotations := m\<rparr>)))"

definition decode_record :: "json \<Rightarrow> container_record result" where
  "decode_record j =
     (case j of
        JNull \<Rightarrow> Inr zero_record
      | JObj ms \<Rightarrow> each decode_member ms zero_record
      | _ \<Rightarrow> Inl (Errorf ''json: cannot unmarshal into Go value of type state.Container'' []))"

subsection \<open>Round trip\<close>

text \<open>
  A record a program can hold: int fields in the range of a 64-bit int, annotations a map, and the
  status one of the constants or another string.
\<close>

definition wf_record :: "container_record \<Rightarrow> bool" where
  "wf_record c \<longleftrightarrow>
     - (2 ^ 63) \<le> rec_schema c \<and> rec_schema c < 2 ^ 63 \<and>
     - (2 ^ 63) \<le> rec_pid c \<and> rec_pid c < 2 ^ 63 \<and>
     sorted_wrt (<) (map fst (rec_annotations c)) \<and>
     status_of_text (status_text (rec_status c)) = rec_status c"

lemma map_put_last:
  "\<forall>k' \<in> set (map fst m). k' < k \<Longrightarrow> map_put k v m = m @ [(k, v)]"
  by (induction k v m rule: map_put.induct) auto

lemma json_string_map_encode:
  assumes "sorted_wrt (<) (map fst (as @ ms))"
  shows "each (\<lambda>(k, v) m. ebind (json_string f [] v) (\<lambda>s. Inr (map_put k s m)))
      (map (\<lambda>(k, v). (k, JStr v)) ms) as = Inr (as @ ms)"
  using assms
proof (induction ms arbitrary: as)
  case (Cons kv ms)
  obtain k v where kv: "kv = (k, v)" by fastforce
  have "map_put k v as = as @ [(k, v)]"
    using Cons.prems by (intro map_put_last) (auto simp: kv sorted_wrt_append)
  then show ?case
    using Cons.IH [of "as @ [(k, v)]"] Cons.prems by (simp add: kv json_string_def)
qed simp

lemma field_of_fields: "f \<in> set record_fields \<Longrightarrow> field_of f = Some f"
  by (simp add: field_of_def)

lemma decode_encode:
  assumes "wf_record c"
  shows "decode_record (encode_record c) = Inr c"
proof -
  have ann: "json_string_map f [] (JObj (map (\<lambda>(k, v). (k, JStr v)) (rec_annotations c))) =
      Inr (rec_annotations c)" for f
    using json_string_map_encode [of "[]" "rec_annotations c" f] assms
    by (simp add: json_string_map_def wf_record_def)
  have fields: "field_of ''schemaVersion'' = Some ''schemaVersion''" "field_of ''id'' = Some ''id''"
    "field_of ''bundle'' = Some ''bundle''" "field_of ''rootfs'' = Some ''rootfs''"
    "field_of ''pid'' = Some ''pid''" "field_of ''status'' = Some ''status''"
    "field_of ''cgroupPath'' = Some ''cgroupPath''" "field_of ''created'' = Some ''created''"
    "field_of ''annotations'' = Some ''annotations''"
    by (simp_all add: field_of_fields record_fields_def)
  show ?thesis
    using assms ann
    by (simp add: decode_record_def encode_record_def decode_member_def fields json_int_def
        json_string_def wf_record_def zero_record_def)
qed

text \<open>Whatever the document, a record read from it is one a program can hold.\<close>

lemma map_put_keys: "set (map fst (map_put k v m)) = insert k (set (map fst m))"
  by (induction k v m rule: map_put.induct) auto

lemma map_put_sorted: "sorted_wrt (<) (map fst m) \<Longrightarrow> sorted_wrt (<) (map fst (map_put k v m))"
proof (induction k v m rule: map_put.induct)
  case (2 k v k' v' m)
  consider "k < k'" | "k = k'" | "k' < k" by (meson linorder_less_linear)
  then show ?case
  proof cases
    case 3
    then have "sorted_wrt (<) (map fst (map_put k v m))" using 2 by auto
    moreover have "\<forall>x \<in> set (map fst (map_put k v m)). k' < x" using 2(2) 3 by (simp only: map_put_keys) auto
    moreover have "\<not> k < k'" "k \<noteq> k'" using 3 by auto
    ultimately show ?thesis by simp
  qed (use 2(2) in \<open>auto intro: order.strict_trans\<close>)
qed simp

lemma json_int_range:
  "json_int f old j = Inr i \<Longrightarrow> - (2 ^ 63) \<le> old \<Longrightarrow> old < 2 ^ 63 \<Longrightarrow> - (2 ^ 63) \<le> i \<and> i < 2 ^ 63"
  by (auto simp: json_int_def split: json.splits if_splits)

lemma json_string_map_sorted:
  assumes "json_string_map f old j = Inr m" "sorted_wrt (<) (map fst old)"
  shows "sorted_wrt (<) (map fst m)"
proof (cases j)
  case (JObj ms)
  have run: "each (\<lambda>(k, v) m. ebind (json_string f [] v) (\<lambda>s. Inr (map_put k s m))) ms old = Inr m"
    using assms(1) JObj by (simp add: json_string_map_def)
  show ?thesis
    by (rule each_invariant [OF run, where P = "\<lambda>m. sorted_wrt (<) (map fst m)", OF assms(2)])
      (auto simp: ebind_def map_put_sorted split: sum.splits)
qed (use assms in \<open>auto simp: json_string_map_def\<close>)

lemma status_of_text_status_text: "status_of_text (status_text (status_of_text s)) = status_of_text s"
  by (simp add: status_of_text_def)

lemma decode_member_wf: "decode_member kv c = Inr c' \<Longrightarrow> wf_record c \<Longrightarrow> wf_record c'"
  unfolding decode_member_def
  by (cases kv; simp only: prod.case)
    (auto simp: ebind_def wf_record_def status_of_text_status_text
      split: option.splits if_splits sum.splits dest: json_int_range json_string_map_sorted)

lemma decode_wf: "decode_record j = Inr c \<Longrightarrow> wf_record c"
proof (cases j)
  case JNull
  then show "decode_record j = Inr c \<Longrightarrow> wf_record c"
    by (auto simp: decode_record_def wf_record_def zero_record_def status_of_text_def)
next
  case (JObj ms)
  have "wf_record zero_record" by (simp add: wf_record_def zero_record_def status_of_text_def)
  then show "decode_record j = Inr c \<Longrightarrow> wf_record c"
    using JObj by (auto simp: decode_record_def elim!: each_invariant intro: decode_member_wf)
qed (auto simp: decode_record_def)

end
