(* ===== verification/State_Store.thy ===== *)
theory State_Store
  imports State_Record Effects Oci_Load
begin

section \<open>The state store (pkg/state/store.go)\<close>

text \<open>
  The directory of container records: ids, locking, the atomic save, loading with reconciliation
  against live processes, listing and deleting. The operations are programs over the calls below;
  \<open>disk_rules\<close> states what a file system allows each call to do, faults and crashes included, and
  \<open>disk_world\<close> is one that follows them.
\<close>

subsection \<open>Calls\<close>

text \<open>The content of a file: a JSON document, or text that is none (empty or half written).\<close>

datatype content = Doc json | Torn

datatype store_call =
    MakeDir string
  | OpenLock string
  | FlockEx string
  | FlockUn string
  | WriteDoc string json
  | RenameFile string string
  | ReadDoc string
  | ReadDirs string
  | RemoveTree string
  | ProbePid int
    \<comment> \<open>kill(pid, 0)\<close>

datatype store_answer = Ok | Content content | Names "string list"

type_synonym 'k store_world = "(store_call, store_answer, 'k) world"
type_synonym ('k, 'a) store_prog = "(store_call, store_answer, 'k, 'a) prog"

subsection \<open>The code\<close>

definition state_schema :: int where
  "state_schema = 1"

definition store_dir :: "string \<Rightarrow> string \<Rightarrow> string" where
  "store_dir root cid = join_path [root, cid]"

definition store_path :: "string \<Rightarrow> string \<Rightarrow> string" where
  "store_path root cid = join_path [store_dir root cid, ''state.json'']"

definition validate_id :: "string \<Rightarrow> unit result" where
  "validate_id cid =
     (if cid = [] then Inl (Errorf ''container id cannot be empty'' [])
      else if cid = ''.'' \<or> cid = ''..'' \<or> contains_any cid [CHR ''/'', CHR 0x5C, CHR 0x00]
      then Inl (Errorf ''container id %q contains a path separator'' [cid])
      else Inr ())"

text \<open>The unlock is deferred: it runs on every return of the function under the lock.\<close>

definition with_lock :: "'k store_world \<Rightarrow> string \<Rightarrow> ('k, 'a) store_prog \<Rightarrow> ('k, 'a) store_prog" where
  "with_lock K root fn =
     (let lock = join_path [root, ''.lock'']
      in andthen (wrap_eff ''opening store lock: %w'' [] (syscall K (OpenLock lock))) (\<lambda>_.
         andthen (wrap_eff ''locking store: %w'' [] (syscall K (FlockEx lock))) (\<lambda>_ p.
         case fn p of (r, p') \<Rightarrow> (r, snd (syscall K (FlockUn lock) p')))))"

definition process_alive :: "'k store_world \<Rightarrow> int \<Rightarrow> ('k, bool) store_prog" where
  "process_alive K pid =
     (if pid \<le> 0 then ret False
      else andthen (attempt (syscall K (ProbePid pid))) (\<lambda>r.
           case r of Inr _ \<Rightarrow> ret True | Inl e \<Rightarrow> ret (e = Errno EPERM)))"

definition save_record :: "'k store_world \<Rightarrow> string \<Rightarrow> container_record \<Rightarrow> ('k, unit) store_prog" where
  "save_record K root c0 =
     andthen (lift (validate_id (rec_id c0))) (\<lambda>_.
     let c = c0\<lparr>rec_schema := state_schema\<rparr>;
         tmp = store_path root (rec_id c) @ ''.tmp''
     in
     andthen (wrap_eff ''creating container state directory: %w'' []
               (syscall K (MakeDir (store_dir root (rec_id c))))) (\<lambda>_.
     andthen (wrap_eff ''writing state for %s: %w'' [rec_id c]
               (syscall K (WriteDoc tmp (encode_record c)))) (\<lambda>_.
     andthen (wrap_eff ''committing state for %s: %w'' [rec_id c]
               (syscall K (RenameFile tmp (store_path root (rec_id c))))) (\<lambda>_.
     ret ()))))"

definition read_record :: "string \<Rightarrow> goerr + store_answer \<Rightarrow> container_record result" where
  "read_record cid r =
     (case r of
        Inl e \<Rightarrow>
          if e = Errno ENOENT then Inl (Errorf ''container %q does not exist'' [cid])
          else Inl (Wrapf ''reading state for %s: %w'' [cid] e)
      | Inr (Content (Doc j)) \<Rightarrow>
          ebind (ewrap ''parsing state for %s: %w'' [cid] (decode_record j)) (\<lambda>c.
          if state_schema < rec_schema c
          then Inl (Errorf ''container %s was created by a newer lightpod (state schema %d, this build understands %d)''
                      [cid, format_int (rec_schema c), format_int state_schema])
          else Inr c)
      | Inr _ \<Rightarrow>
          Inl (Wrapf ''parsing state for %s: %w'' [cid] (Errorf ''unexpected end of JSON input'' [])))"

definition load_record :: "'k store_world \<Rightarrow> string \<Rightarrow> string \<Rightarrow> ('k, container_record) store_prog" where
  "load_record K root cid =
     andthen (lift (validate_id cid)) (\<lambda>_.
     andthen (attempt (syscall K (ReadDoc (store_path root cid)))) (\<lambda>r.
     andthen (lift (read_record cid r)) (\<lambda>c.
     if rec_status c = StatusRunning \<or> rec_status c = StatusCreated then
       andthen (process_alive K (rec_pid c)) (\<lambda>alive.
       ret (if alive then c else c\<lparr>rec_status := StatusStopped, rec_pid := 0\<rparr>))
     else ret c)))"

definition create_record :: "'k store_world \<Rightarrow> string \<Rightarrow> container_record \<Rightarrow> ('k, unit) store_prog" where
  "create_record K root c =
     andthen (lift (validate_id (rec_id c))) (\<lambda>_.
     with_lock K root
       (andthen (attempt (load_record K root (rec_id c))) (\<lambda>r.
        case r of
          Inr existing \<Rightarrow>
            fail (Errorf ''container %q already exists (%s)'' [rec_id c, status_text (rec_status existing)])
        | Inl _ \<Rightarrow> save_record K root c)))"

definition delete_record :: "'k store_world \<Rightarrow> string \<Rightarrow> string \<Rightarrow> ('k, unit) store_prog" where
  "delete_record K root cid =
     andthen (lift (validate_id cid)) (\<lambda>_.
     with_lock K root
       (wrap_eff ''removing state for %s: %w'' [cid]
         (andthen (syscall K (RemoveTree (store_dir root cid))) (\<lambda>_. ret ()))))"

text \<open>
  \<^verbatim>\<open>List\<close>: the subdirectories that load, sorted by id. The records of one directory each have the
  id they were saved under, so the order of equal ids, which \<^verbatim>\<open>sort.Slice\<close> leaves open, matters only
  for records tampered with; here they keep the order of the directory.
\<close>

fun load_all :: "'k store_world \<Rightarrow> string \<Rightarrow> string list \<Rightarrow> ('k, container_record list) store_prog" where
  "load_all K root [] = ret []"
| "load_all K root (name # names) =
     andthen (attempt (load_record K root name)) (\<lambda>r.
     andthen (load_all K root names) (\<lambda>cs.
     ret (case r of Inl _ \<Rightarrow> cs | Inr c \<Rightarrow> c # cs)))"

definition list_records :: "'k store_world \<Rightarrow> string \<Rightarrow> ('k, container_record list) store_prog" where
  "list_records K root =
     andthen (attempt (syscall K (ReadDirs root))) (\<lambda>r.
     case r of
       Inl e \<Rightarrow> if e = Errno ENOENT then ret [] else fail (Wrapf ''listing state directory: %w'' [] e)
     | Inr (Names names) \<Rightarrow> andthen (load_all K root names) (\<lambda>cs. ret (sort_key rec_id cs))
     | Inr _ \<Rightarrow> ret [])"

text \<open>\<^verbatim>\<open>ToOCI\<close>.\<close>

definition to_oci :: "string \<Rightarrow> container_record \<Rightarrow> oci_state" where
  "to_oci version c = \<lparr>st_version = version, st_id = rec_id c, st_status = rec_status c,
     st_pid = rec_pid c, st_bundle = rec_bundle c, st_annotations = rec_annotations c\<rparr>"

subsection \<open>What a file system allows\<close>

record disk =
  dk_files :: "string \<Rightarrow> content option"
  dk_dirs :: "string list"
  dk_pids :: "int list"

text \<open>
  Any call may fail, and a failing one leaves the files as they are, with two exceptions: a write
  may leave its file torn, and a removal may have removed some files. A system that has crashed
  is one on which every call fails.
\<close>

fun disk_rules :: "store_call \<Rightarrow> (string \<Rightarrow> content option) \<Rightarrow> errno + store_answer \<Rightarrow>
    (string \<Rightarrow> content option) \<Rightarrow> bool" where
  "disk_rules (WriteDoc p j) f (Inr _) f' \<longleftrightarrow> f' = f(p \<mapsto> Doc j)"
| "disk_rules (WriteDoc p j) f (Inl _) f' \<longleftrightarrow> f' = f \<or> f' = f(p \<mapsto> Torn)"
| "disk_rules (RenameFile a b) f (Inr _) f' \<longleftrightarrow> f a \<noteq> None \<and> f' = (f(a := None))(b := f a)"
| "disk_rules (ReadDoc p) f (Inr v) f' \<longleftrightarrow> f' = f \<and> (\<exists>c. v = Content c \<and> f p = Some c)"
| "disk_rules (ReadDoc p) f (Inl e) f' \<longleftrightarrow> f' = f \<and> (e = ENOENT \<longrightarrow> f p = None)"
| "disk_rules (RemoveTree d) f (Inr _) f' \<longleftrightarrow> f' = (\<lambda>p. if is_within d p then None else f p)"
| "disk_rules (RemoveTree d) f (Inl _) f' \<longleftrightarrow>
     (\<forall>p. f' p = f p \<or> (is_within d p \<and> f' p = None))"
| "disk_rules _ f _ f' \<longleftrightarrow> f' = f"

definition follows_disk_rules :: "'k store_world \<Rightarrow> ('k \<Rightarrow> string \<Rightarrow> content option) \<Rightarrow> bool" where
  "follows_disk_rules K view \<longleftrightarrow>
     (\<forall>c k. disk_rules c (view k) (fst (K c k)) (view (snd (K c k))))"

text \<open>A disk without faults, with whatever else the world holds beside it.\<close>

fun disk_world :: "'x disk_scheme store_world" where
  "disk_world (MakeDir p) d =
     (Inr Ok, if p \<in> set (dk_dirs d) then d else d\<lparr>dk_dirs := dk_dirs d @ [p]\<rparr>)"
| "disk_world (WriteDoc p j) d = (Inr Ok, d\<lparr>dk_files := (dk_files d)(p \<mapsto> Doc j)\<rparr>)"
| "disk_world (RenameFile a b) d =
     (case dk_files d a of
        None \<Rightarrow> (Inl ENOENT, d)
      | Some c \<Rightarrow> (Inr Ok, d\<lparr>dk_files := ((dk_files d)(a := None))(b \<mapsto> c)\<rparr>))"
| "disk_world (ReadDoc p) d =
     (case dk_files d p of None \<Rightarrow> Inl ENOENT | Some c \<Rightarrow> Inr (Content c), d)"
| "disk_world (ReadDirs p) d =
     (Inr (Names (filter (\<lambda>n. CHR ''/'' \<notin> set n)
        (map (drop (Suc (length p))) (filter (\<lambda>x. has_prefix x (p @ ''/'')) (dk_dirs d))))), d)"
| "disk_world (RemoveTree t) d =
     (Inr Ok, d\<lparr>dk_files := (\<lambda>p. if is_within t p then None else dk_files d p),
                 dk_dirs := filter (\<lambda>x. \<not> is_within t x) (dk_dirs d)\<rparr>)"
| "disk_world (ProbePid pid) d = (if pid \<in> set (dk_pids d) then Inr Ok else Inl ESRCH, d)"
| "disk_world _ d = (Inr Ok, d)"

lemma disk_world_follows: "follows_disk_rules disk_world dk_files"
  unfolding follows_disk_rules_def
proof (intro allI)
  fix c d
  show "disk_rules c (dk_files d) (fst (disk_world c d)) (dk_files (snd (disk_world c d)))"
    by (cases c) (auto split: option.split)
qed

end
