(* ===== verification/Store_Safety.thy ===== *)
theory Store_Safety
  imports State_Store
begin

section \<open>What the state store guarantees\<close>

text \<open>
  Ids name one directory each; a save is atomic under faults and crashes; what was saved is what is
  loaded; writers hold the lock; the store refines a map from ids to records.
\<close>

subsection \<open>Paths of the store\<close>

lemma validate_id_normal: "validate_id cid = Inr () \<Longrightarrow> normal cid"
  by (auto simp: validate_id_def contains_any_def list_ex_iff normal_def split: if_splits)

lemma store_dir_path:
  "list_all normal rs \<Longrightarrow> rs \<noteq> [] \<Longrightarrow> normal cid \<Longrightarrow> store_dir (path_of rs) cid = path_of (rs @ [cid])"
  by (simp add: store_dir_def join_path_normal)

lemma store_path_path:
  assumes "list_all normal rs" "rs \<noteq> []" "normal cid"
  shows "store_path (path_of rs) cid = path_of (rs @ [cid, ''state.json''])"
  using assms join_path_normal [of "rs @ [cid]" "''state.json''"]
  by (simp add: store_path_def store_dir_path normal_def)

lemma tmp_path:
  assumes "list_all normal rs" "rs \<noteq> []" "normal cid"
  shows "store_path (path_of rs) cid @ ''.tmp'' = path_of (rs @ [cid, ''state.json.tmp''])"
  by (simp add: store_path_path [OF assms] path_of_append)

lemma path_of_eq:
  assumes "list_all normal as" "list_all normal bs" and "path_of as = path_of bs"
  shows "as = bs"
  using assms by (intro path_of_inject [OF _ assms(3)]) (auto simp: list_all_iff normal_def)

lemma store_path_inj:
  assumes "list_all normal rs" "rs \<noteq> []" "normal a" "normal b"
    and "store_path (path_of rs) a = store_path (path_of rs) b"
  shows "a = b"
  using assms path_of_eq [of "rs @ [a, ''state.json'']" "rs @ [b, ''state.json'']"]
  by (simp add: store_path_path normal_def)

lemma tmp_not_path:
  assumes "list_all normal rs" "rs \<noteq> []" "normal a" "normal b"
  shows "store_path (path_of rs) a @ ''.tmp'' \<noteq> store_path (path_of rs) b"
  unfolding tmp_path [OF assms(1-3)] store_path_path [OF assms(1,2,4)]
  using assms path_of_eq [of "rs @ [a, ''state.json.tmp'']" "rs @ [b, ''state.json'']"]
  by (auto simp: normal_def)

lemma within_store_dir:
  assumes "list_all normal rs" "rs \<noteq> []" "normal a" "normal b"
  shows "is_within (store_dir (path_of rs) a) (store_path (path_of rs) b) \<longleftrightarrow> a = b"
  using assms by (auto simp: store_dir_path store_path_path is_within_path_of normal_def)

subsection \<open>One call on a disk\<close>

lemma call_rules:
  assumes "follows_disk_rules K view" and "syscall K c p = (r, q)"
  shows "(\<exists>v. r = Inr v \<and> disk_rules c (view (fst p)) (Inr v) (view (fst q))) \<or>
    (\<exists>e. r = Inl (Errno e) \<and> disk_rules c (view (fst p)) (Inl e) (view (fst q)))"
proof -
  obtain k l where p: "p = (k, l)" by (cases p)
  obtain a k' where a: "K c k = (a, k')" by (cases "K c k")
  have "disk_rules c (view k) a (view k')"
    using assms(1) a unfolding follows_disk_rules_def by (metis fst_conv snd_conv)
  then show ?thesis using assms(2) p a by (cases a) (auto simp: syscall_def sys_def)
qed

subsection \<open>Saving\<close>

lemma save_record_cases:
  assumes rules: "follows_disk_rules K view" and valid: "validate_id (rec_id c) = Inr ()"
    and run: "save_record K root c p = (r, q)"
  defines "path \<equiv> store_path root (rec_id c)"
  shows "(\<forall>x. x \<noteq> path @ ''.tmp'' \<longrightarrow> x \<noteq> path \<longrightarrow> view (fst q) x = view (fst p) x) \<and>
    (if r = Inr () then view (fst q) path = Some (Doc (encode_record (c\<lparr>rec_schema := state_schema\<rparr>)))
     else view (fst q) path = view (fst p) path)"
proof -
  let ?tmp = "path @ ''.tmp''" and ?doc = "encode_record (c\<lparr>rec_schema := state_schema\<rparr>)"
  obtain r1 p1 where 1: "syscall K (MakeDir (store_dir root (rec_id c))) p = (r1, p1)" by (meson surj_pair)
  obtain r2 p2 where 2: "syscall K (WriteDoc ?tmp ?doc) p1 = (r2, p2)" by (meson surj_pair)
  obtain r3 p3 where 3: "syscall K (RenameFile ?tmp path) p2 = (r3, p3)" by (meson surj_pair)
  note call = call_rules [OF rules 1] call_rules [OF rules 2] call_rules [OF rules 3]
  have run': "(r, q) = (case r1 of Inl _ \<Rightarrow> (r, p1) | Inr _ \<Rightarrow> case r2 of Inl _ \<Rightarrow> (r, p2) | Inr _ \<Rightarrow> (r, p3))"
    and ok: "r = Inr () \<longleftrightarrow> (\<exists>a b d. r1 = Inr a \<and> r2 = Inr b \<and> r3 = Inr d)"
    using run 1 2 3
    by (cases r1; cases r2; cases r3;
        force simp: save_record_def valid lift_def andthen_def wrap_eff_def ret_def Let_def path_def ewrap_def)+
  show ?thesis
  proof (cases r1)
    case (Inl e)
    then show ?thesis using run' ok call(1) by auto
  next
    case (Inr a)
    have v1: "view (fst p1) = view (fst p)" using call(1) by auto
    show ?thesis
    proof (cases r2)
      case (Inl e)
      then have "view (fst p2) = view (fst p) \<or> view (fst p2) = (view (fst p))(?tmp \<mapsto> Torn)"
        using call(2) v1 by auto
      then show ?thesis using Inl \<open>r1 = Inr a\<close> run' ok by auto
    next
      case (Inr b)
      then have "view (fst p2) = (view (fst p))(?tmp \<mapsto> Doc ?doc)" using call(2) v1 by auto
      then show ?thesis using Inr \<open>r1 = Inr a\<close> run' ok call(3) by (cases r3) auto
    qed
  qed
qed

subsection \<open>The store as a map from ids to records\<close>

text \<open>What the store promises: a map with create, save and delete on valid ids.\<close>

definition stamp :: "container_record \<Rightarrow> container_record" where
  "stamp c = c\<lparr>rec_schema := state_schema\<rparr>"

datatype store_op = CreateOp container_record | SaveOp container_record | DeleteOp string

fun op_ok :: "store_op \<Rightarrow> bool" where
  "op_ok (CreateOp c) \<longleftrightarrow> validate_id (rec_id c) = Inr () \<and> wf_record c"
| "op_ok (SaveOp c) \<longleftrightarrow> validate_id (rec_id c) = Inr () \<and> wf_record c"
| "op_ok (DeleteOp cid) \<longleftrightarrow> validate_id cid = Inr ()"

fun map_op :: "store_op \<Rightarrow> (string \<Rightarrow> container_record option) \<Rightarrow> bool \<times> (string \<Rightarrow> container_record option)" where
  "map_op (CreateOp c) m = (if m (rec_id c) = None then (True, m(rec_id c \<mapsto> stamp c)) else (False, m))"
| "map_op (SaveOp c) m = (True, m(rec_id c \<mapsto> stamp c))"
| "map_op (DeleteOp cid) m = (True, m(cid := None))"

locale record_map =
  fixes contents :: "'d \<Rightarrow> string \<Rightarrow> container_record option"
    and step :: "store_op \<Rightarrow> 'd \<Rightarrow> bool \<times> 'd"
    and load :: "string \<Rightarrow> 'd \<Rightarrow> container_record result"
    and alive :: "'d \<Rightarrow> int \<Rightarrow> bool"
    and reconcile :: "(int \<Rightarrow> bool) \<Rightarrow> container_record \<Rightarrow> container_record"
  assumes step_map: "op_ok op \<Longrightarrow> step op d = (b, d') \<Longrightarrow>
      b = fst (map_op op (contents d)) \<and> contents d' = snd (map_op op (contents d))"
    and load_none: "contents d cid = None \<Longrightarrow> \<exists>e. load cid d = Inl e"
    and load_some: "contents d cid = Some c \<Longrightarrow> load cid d = Inr (reconcile (alive d) c)"
begin

lemma claimed_once:
  assumes "op_ok (CreateOp c)" "op_ok (CreateOp c')" "rec_id c' = rec_id c"
    and "step (CreateOp c) d = (True, d1)" and "step (CreateOp c') d1 = (b, d2)"
  shows "\<not> b \<and> contents d2 = contents d1"
  using step_map [OF assms(1,4)] step_map [OF assms(2,5)] assms(3) by (simp split: if_splits)

lemma deleted_is_gone:
  assumes "op_ok (DeleteOp cid)" "step (DeleteOp cid) d = (b, d1)"
  shows "b \<and> (\<exists>e. load cid d1 = Inl e)"
  using step_map [OF assms] load_none [of d1 cid] by simp

lemma saved_is_loaded:
  assumes "op_ok (SaveOp c)" "step (SaveOp c) d = (b, d1)"
  shows "b \<and> load (rec_id c) d1 = Inr (reconcile (alive d1) (stamp c))"
  using step_map [OF assms] load_some [of d1 "rec_id c" "stamp c"] by simp

lemma steps_map:
  assumes "list_all op_ok ops"
  shows "contents (fold (\<lambda>op d. snd (step op d)) ops d) = fold (\<lambda>op m. snd (map_op op m)) ops (contents d)"
  using assms
proof (induction ops arbitrary: d)
  case (Cons op ops)
  then have "contents (snd (step op d)) = snd (map_op op (contents d))"
    using step_map [of op d "fst (step op d)" "snd (step op d)"] by simp
  then show ?case using Cons by simp
qed simp

lemma answer_map: "op_ok op \<Longrightarrow> fst (step op d) = fst (map_op op (contents d))"
  using step_map [of op d "fst (step op d)" "snd (step op d)"] by simp

end

subsection \<open>The directory on disk is such a map\<close>

definition disk_alive :: "'x disk_scheme \<Rightarrow> int \<Rightarrow> bool" where
  "disk_alive d pid \<longleftrightarrow> 0 < pid \<and> pid \<in> set (dk_pids d)"

definition reconcile_record :: "(int \<Rightarrow> bool) \<Rightarrow> container_record \<Rightarrow> container_record" where
  "reconcile_record alive c =
     (if (rec_status c = StatusRunning \<or> rec_status c = StatusCreated) \<and> \<not> alive (rec_pid c)
      then c\<lparr>rec_status := StatusStopped, rec_pid := 0\<rparr> else c)"

definition stored :: "string \<Rightarrow> 'x disk_scheme \<Rightarrow> string \<Rightarrow> container_record option" where
  "stored root d cid =
     (if validate_id cid \<noteq> Inr () then None
      else case dk_files d (store_path root cid) of
        None \<Rightarrow> None
      | Some x \<Rightarrow> (case read_record cid (Inr (Content x)) of Inl _ \<Rightarrow> None | Inr c \<Rightarrow> Some c))"

definition disk_run :: "('x disk_scheme, 'a) store_prog \<Rightarrow> 'x disk_scheme \<Rightarrow> 'a result \<times> 'x disk_scheme" where
  "disk_run m d = (case m (d, []) of (r, q) \<Rightarrow> (r, fst q))"

fun disk_step :: "string \<Rightarrow> store_op \<Rightarrow> 'x disk_scheme \<Rightarrow> bool \<times> 'x disk_scheme" where
  "disk_step root (CreateOp c) d = (case disk_run (create_record disk_world root c) d of (r, d') \<Rightarrow> (is_ok r, d'))"
| "disk_step root (SaveOp c) d = (case disk_run (save_record disk_world root c) d of (r, d') \<Rightarrow> (is_ok r, d'))"
| "disk_step root (DeleteOp cid) d = (case disk_run (delete_record disk_world root cid) d of (r, d') \<Rightarrow> (is_ok r, d'))"

definition disk_load :: "string \<Rightarrow> string \<Rightarrow> 'x disk_scheme \<Rightarrow> container_record result" where
  "disk_load root cid d = fst (disk_run (load_record disk_world root cid) d)"

lemma disk_call: "syscall disk_world c (d, l) =
    (case disk_world c d of (Inl e, d') \<Rightarrow> (Inl (Errno e), (d', l @ [(c, Inl e)]))
                          | (Inr v, d') \<Rightarrow> (Inr v, (d', l @ [(c, Inr v)])))"
  by (auto simp: syscall_def sys_def split: prod.split sum.split)

lemma disk_process_alive: "\<exists>l'. process_alive disk_world pid (d, l) = (Inr (disk_alive d pid), (d, l'))"
  by (auto simp: process_alive_def disk_alive_def ret_def andthen_def attempt_def disk_call)

lemma disk_load_record:
  "\<exists>r l'. load_record disk_world root cid (d, l) = (r, (d, l')) \<and>
     (case stored root d cid of None \<Rightarrow> (\<exists>e. r = Inl e) | Some c \<Rightarrow> r = Inr (reconcile_record (disk_alive d) c))"
proof (cases "validate_id cid = Inr ()")
  case True
  show ?thesis
  proof (cases "dk_files d (store_path root cid)")
    case None
    then show ?thesis using True
      by (simp add: load_record_def stored_def andthen_def lift_def attempt_def disk_call read_record_def)
  next
    case (Some x)
    obtain l1 where read: "attempt (syscall disk_world (ReadDoc (store_path root cid))) (d, l) =
        (Inr (Inr (Content x)), (d, l1))"
      using Some by (simp add: attempt_def disk_call)
    show ?thesis
    proof (cases "read_record cid (Inr (Content x))")
      case (Inl e)
      then show ?thesis using True Some read by (simp add: load_record_def stored_def andthen_def lift_def)
    next
      case (Inr c)
      obtain l2 where "process_alive disk_world (rec_pid c) (d, l1) = (Inr (disk_alive d (rec_pid c)), (d, l2))"
        using disk_process_alive by blast
      then show ?thesis using True Some read Inr
        by (simp add: load_record_def stored_def andthen_def lift_def ret_def reconcile_record_def)
    qed
  qed
next
  case False
  then obtain e where "validate_id cid = Inl e" by (cases "validate_id cid") auto
  then show ?thesis by (simp add: load_record_def stored_def andthen_def lift_def)
qed

lemma read_record_encode:
  assumes "wf_record c"
  shows "read_record cid (Inr (Content (Doc (encode_record (stamp c))))) = Inr (stamp c)"
proof -
  have "wf_record (stamp c)" using assms by (simp add: wf_record_def stamp_def state_schema_def)
  then show ?thesis by (simp add: read_record_def decode_encode stamp_def state_schema_def)
qed

definition saved_disk :: "string \<Rightarrow> container_record \<Rightarrow> 'x disk_scheme \<Rightarrow> 'x disk_scheme" where
  "saved_disk root c d =
     (let path = store_path root (rec_id c); doc = encode_record (stamp c);
          d1 = snd (disk_world (MakeDir (store_dir root (rec_id c))) d);
          d2 = snd (disk_world (WriteDoc (path @ ''.tmp'') doc) d1)
      in snd (disk_world (RenameFile (path @ ''.tmp'') path) d2))"

lemma disk_save_runs:
  assumes "validate_id (rec_id c) = Inr ()"
  shows "\<exists>l'. save_record disk_world root c (d, l) = (Inr (), (saved_disk root c d, l'))"
proof -
  define path where "path = store_path root (rec_id c)"
  define doc where "doc = encode_record (c\<lparr>rec_schema := state_schema\<rparr>)"
  define d1 where "d1 = snd (disk_world (MakeDir (store_dir root (rec_id c))) d)"
  define d2 where "d2 = snd (disk_world (WriteDoc (path @ ''.tmp'') doc) d1)"
  define d3 where "d3 = snd (disk_world (RenameFile (path @ ''.tmp'') path) d2)"
  obtain l1 where 1: "syscall disk_world (MakeDir (store_dir root (rec_id c))) (d, l) = (Inr Ok, (d1, l1))"
    by (simp add: disk_call d1_def)
  obtain l2 where 2: "syscall disk_world (WriteDoc (path @ ''.tmp'') doc) (d1, l1) = (Inr Ok, (d2, l2))"
    and tmp: "dk_files d2 (path @ ''.tmp'') = Some (Doc doc)"
    by (simp add: disk_call d2_def)
  obtain l3 where 3: "syscall disk_world (RenameFile (path @ ''.tmp'') path) (d2, l2) = (Inr Ok, (d3, l3))"
    by (simp add: disk_call tmp d3_def)
  have rid: "rec_id (c\<lparr>rec_schema := state_schema\<rparr>) = rec_id c" by simp
  have "save_record disk_world root c (d, l) = (Inr (), (d3, l3))"
    unfolding save_record_def Let_def
    by (rule run_then, rule lift_run, rule assms)
      (simp only: rid path_def [symmetric] doc_def [symmetric],
       rule run_then, rule wrap_run, rule 1, rule run_then, rule wrap_run, rule 2,
       rule run_then, rule wrap_run, rule 3, rule ret_run)
  moreover have "d3 = saved_disk root c d"
    by (simp only: saved_disk_def Let_def d1_def d2_def d3_def path_def doc_def stamp_def)
  ultimately show ?thesis by blast
qed

lemma stored_saved:
  assumes rs: "list_all normal rs" "rs \<noteq> []" and ok: "validate_id (rec_id c) = Inr ()" "wf_record c"
  shows "stored (path_of rs) (saved_disk (path_of rs) c d) = (stored (path_of rs) d)(rec_id c \<mapsto> stamp c)"
proof -
  let ?root = "path_of rs"
  define d' where "d' = saved_disk ?root c d"
  obtain l' where run: "save_record disk_world ?root c (d, []) = (Inr (), (d', l'))"
    using disk_save_runs [of c ?root d "[]"] ok unfolding d'_def by blast
  have files: "\<forall>x. x \<noteq> store_path ?root (rec_id c) @ ''.tmp'' \<longrightarrow> x \<noteq> store_path ?root (rec_id c) \<longrightarrow>
      dk_files d' x = dk_files d x"
    and new: "dk_files d' (store_path ?root (rec_id c)) = Some (Doc (encode_record (stamp c)))"
    using save_record_cases [OF disk_world_follows ok(1) run] by (simp_all add: stamp_def)
  have "stored ?root d' cid = ((stored ?root d)(rec_id c \<mapsto> stamp c)) cid" for cid
  proof (cases "validate_id cid = Inr () \<and> cid \<noteq> rec_id c")
    case True
    then have n: "normal cid" "normal (rec_id c)" using ok(1) by (auto dest: validate_id_normal)
    have "store_path ?root cid \<noteq> store_path ?root (rec_id c) @ ''.tmp''"
      "store_path ?root cid \<noteq> store_path ?root (rec_id c)"
      using tmp_not_path [OF rs n(2,1)] store_path_inj [OF rs n] True by metis+
    then show ?thesis using files True by (simp add: stored_def)
  next
    case False
    show ?thesis
    proof (cases "cid = rec_id c")
      case True
      then show ?thesis using new ok by (simp add: stored_def read_record_encode)
    next
      case neq: False
      then have "validate_id cid \<noteq> Inr ()" using False by blast
      then show ?thesis using neq by (simp add: stored_def)
    qed
  qed
  then show ?thesis by (simp add: d'_def fun_eq_iff)
qed

lemma with_lock_disk:
  assumes "\<And>l. \<exists>l'. fn (d, l) = (r, (d', l'))"
  shows "\<exists>l'. with_lock disk_world root fn (d, l) = (r, (d', l'))"
proof -
  define lock where "lock = join_path [root, ''.lock'']"
  obtain l1 where 1: "syscall disk_world (OpenLock lock) (d, l) = (Inr Ok, (d, l1))" by (simp add: disk_call)
  obtain l2 where 2: "syscall disk_world (FlockEx lock) (d, l1) = (Inr Ok, (d, l2))" by (simp add: disk_call)
  obtain l3 where 3: "fn (d, l2) = (r, (d', l3))" using assms by blast
  obtain l4 where 4: "syscall disk_world (FlockUn lock) (d', l3) = (Inr Ok, (d', l4))" by (simp add: disk_call)
  have "with_lock disk_world root fn (d, l) = (r, (d', l4))"
    unfolding with_lock_def Let_def lock_def [symmetric]
    by (rule run_then, rule wrap_run, rule 1, rule run_then, rule wrap_run, rule 2)
      (simp only: 3 4 prod.case snd_conv)
  then show ?thesis by blast
qed

lemma disk_delete_record:
  assumes rs: "list_all normal rs" "rs \<noteq> []" and ok: "validate_id cid = Inr ()"
  shows "\<exists>d' l'. delete_record disk_world (path_of rs) cid (d, l) = (Inr (), (d', l')) \<and>
    stored (path_of rs) d' = (stored (path_of rs) d)(cid := None)"
proof -
  let ?root = "path_of rs"
  define d' where "d' = snd (disk_world (RemoveTree (store_dir ?root cid)) d)"
  have "\<exists>l'. wrap_eff s a (andthen (syscall disk_world (RemoveTree (store_dir ?root cid))) (\<lambda>_. ret ())) (d, l) =
      (Inr (), (d', l'))" for s a l
    by (simp add: wrap_eff_def andthen_def disk_call ret_def d'_def)
  then obtain l' where lock: "with_lock disk_world ?root (wrap_eff ''removing state for %s: %w'' [cid]
      (andthen (syscall disk_world (RemoveTree (store_dir ?root cid))) (\<lambda>_. ret ()))) (d, l) = (Inr (), (d', l'))"
    using with_lock_disk [of _ d "Inr ()" d' ?root l] by blast
  have run: "delete_record disk_world ?root cid (d, l) = (Inr (), (d', l'))"
    unfolding delete_record_def by (rule run_then, rule lift_run, rule ok, rule lock)
  have "stored ?root d' b = ((stored ?root d)(cid := None)) b" for b
  proof (cases "validate_id b = Inr ()")
    case True
    have "is_within (store_dir ?root cid) (store_path ?root b) \<longleftrightarrow> cid = b"
      using True ok by (intro within_store_dir rs validate_id_normal)
    then show ?thesis by (cases "b = cid") (simp_all add: stored_def d'_def)
  qed (simp add: stored_def)
  then show ?thesis using run by blast
qed

lemma disk_create_record:
  assumes rs: "list_all normal rs" "rs \<noteq> []" and ok: "validate_id (rec_id c) = Inr ()" "wf_record c"
  shows "\<exists>r d' l'. create_record disk_world (path_of rs) c (d, l) = (r, (d', l')) \<and>
    (if stored (path_of rs) d (rec_id c) = None
     then r = Inr () \<and> stored (path_of rs) d' = (stored (path_of rs) d)(rec_id c \<mapsto> stamp c)
     else is_ok r = False \<and> d' = d)"
proof -
  let ?root = "path_of rs" and ?body = "andthen (attempt (load_record disk_world (path_of rs) (rec_id c))) (\<lambda>r.
      case r of Inr existing \<Rightarrow> fail (Errorf ''container %q already exists (%s)'' [rec_id c, status_text (rec_status existing)])
      | Inl _ \<Rightarrow> save_record disk_world (path_of rs) c)"
  have create: "create_record disk_world ?root c (d, l) = with_lock disk_world ?root ?body (d, l)"
    by (simp add: create_record_def andthen_def lift_def ok)
  show ?thesis
  proof (cases "stored ?root d (rec_id c)")
    case None
    have "\<exists>l'. ?body (d, l) = (Inr (), (saved_disk ?root c d, l'))" for l
    proof -
      obtain e l1 where "load_record disk_world ?root (rec_id c) (d, l) = (Inl e, (d, l1))"
        using disk_load_record [of ?root "rec_id c" d l] None by auto
      then have "?body (d, l) = save_record disk_world ?root c (d, l1)" by (simp add: andthen_def attempt_def)
      then show ?thesis using disk_save_runs [OF ok(1)] by metis
    qed
    then obtain l' where "with_lock disk_world ?root ?body (d, l) = (Inr (), (saved_disk ?root c d, l'))"
      using with_lock_disk [of ?body d "Inr ()" _ ?root l] by blast
    then show ?thesis using None create stored_saved [OF rs ok] by simp
  next
    case (Some x)
    have "\<exists>l'. ?body (d, l) = (Inl (Errorf ''container %q already exists (%s)''
        [rec_id c, status_text (rec_status (reconcile_record (disk_alive d) x))]), (d, l'))" for l
    proof -
      obtain l1 where "load_record disk_world ?root (rec_id c) (d, l) =
          (Inr (reconcile_record (disk_alive d) x), (d, l1))"
        using disk_load_record [of ?root "rec_id c" d l] Some by auto
      then show ?thesis by (simp add: andthen_def attempt_def fail_def)
    qed
    then obtain l' where "with_lock disk_world ?root ?body (d, l) = (Inl (Errorf ''container %q already exists (%s)''
        [rec_id c, status_text (rec_status (reconcile_record (disk_alive d) x))]), (d, l'))"
      using with_lock_disk [of ?body d _ d ?root l] by blast
    then show ?thesis using Some create by simp
  qed
qed

lemma disk_run_eq: "m (d, []) = (r, (d', l')) \<Longrightarrow> disk_run m d = (r, d')"
  by (simp add: disk_run_def)

text \<open>Every store below an absolute directory has the laws; the one of the privileged mode is an instance.\<close>

lemma disk_record_map:
  assumes rs: "list_all normal rs" "rs \<noteq> []"
  shows "record_map (stored (path_of rs)) (disk_step (path_of rs)) (disk_load (path_of rs)) disk_alive reconcile_record"
proof
  fix op b d d'
  assume ok: "op_ok op" and step: "disk_step (path_of rs) op d = (b, d')"
  show "b = fst (map_op op (stored (path_of rs) d)) \<and>
    stored (path_of rs) d' = snd (map_op op (stored (path_of rs) d))"
  proof (cases op)
    case (CreateOp c)
    then show ?thesis
      using disk_create_record [OF rs, of c d "[]"] ok step
      by (auto simp: disk_run_def split: if_splits prod.splits)
  next
    case (SaveOp c)
    obtain l' where "save_record disk_world (path_of rs) c (d, []) = (Inr (), (saved_disk (path_of rs) c d, l'))"
      using disk_save_runs ok SaveOp by fastforce
    then show ?thesis
      using stored_saved [OF rs, of c d] ok step SaveOp by (simp add: disk_run_def)
  next
    case (DeleteOp cid)
    then show ?thesis
      using disk_delete_record [OF rs, of cid d "[]"] ok step by (auto simp: disk_run_def)
  qed
next
  fix d cid
  show "stored (path_of rs) d cid = None \<Longrightarrow> \<exists>e. disk_load (path_of rs) cid d = Inl e"
    and "stored (path_of rs) d cid = Some c \<Longrightarrow>
      disk_load (path_of rs) cid d = Inr (reconcile_record (disk_alive d) c)" for c
    using disk_load_record [of "path_of rs" cid d "[]"] by (auto simp: disk_load_def disk_run_def)
qed

interpretation run_store: record_map "stored ''/run/lightpod''" "disk_step ''/run/lightpod''"
    "disk_load ''/run/lightpod''" disk_alive reconcile_record
  using disk_record_map [of "[''run'', ''lightpod'']"] by (simp add: normal_def)

subsection \<open>Properties\<close>

definition web_record :: container_record where
  "web_record = zero_record\<lparr>rec_id := ''web'', rec_bundle := ''/b'', rec_rootfs := ''/b/r'', rec_pid := 41,
     rec_status := StatusRunning, rec_annotations := [(''a'', ''1''), (''b'', ''2'')]\<rparr>"

definition empty_disk :: disk where
  "empty_disk = \<lparr>dk_files = (\<lambda>_. None), dk_dirs = [], dk_pids = [41]\<rparr>"

lemma web_ok: "validate_id (rec_id web_record) = Inr ()" "wf_record web_record" "normal ''run''" "normal ''lightpod''"
  by (simp_all add: web_record_def validate_id_def contains_any_def wf_record_def zero_record_def normal_def
      less_list_code status_of_text_def)







lemma loaded_alive:
  assumes "load_record K root cid p = (Inr c, q)"
    and "rec_status c = StatusRunning \<or> rec_status c = StatusCreated"
  shows "0 < rec_pid c \<and> (\<exists>log a. snd q = log @ [(ProbePid (rec_pid c), a)] \<and> log \<noteq> [] \<and> ((\<exists>v. a = Inr v) \<or> a = Inl EPERM))"
proof -
  obtain r p1 c0 where read: "attempt (syscall K (ReadDoc (store_path root cid))) p = (Inr r, p1)"
    and c0: "read_record cid r = Inr c0"
    and cont: "(if rec_status c0 = StatusRunning \<or> rec_status c0 = StatusCreated then
       andthen (process_alive K (rec_pid c0)) (\<lambda>alive.
       ret (if alive then c0 else c0\<lparr>rec_status := StatusStopped, rec_pid := 0\<rparr>))
     else ret c0) p1 = (Inr c, q)"
    using assms(1) by (auto simp: load_record_def andthen_Inr lift_Inr simp del: split_paired_Ex)
  have len: "0 < length (snd p1)"
    using read syscall_log by (fastforce simp: attempt_Inr)
  have st: "rec_status c0 = StatusRunning \<or> rec_status c0 = StatusCreated"
    using cont assms(2) by (auto simp: ret_def split: if_splits)
  obtain alive where probe: "process_alive K (rec_pid c0) p1 = (Inr alive, q)"
    and c: "c = (if alive then c0 else c0\<lparr>rec_status := StatusStopped, rec_pid := 0\<rparr>)"
    using cont st by (auto simp: andthen_Inr ret_Inr simp del: split_paired_Ex)
  have alive: alive using c assms(2) by (auto split: if_splits)
  have pos: "0 < rec_pid c0" using probe alive by (auto simp: process_alive_def ret_def split: if_splits)
  obtain a q' where call: "syscall K (ProbePid (rec_pid c0)) p1 = (a, q')" by (meson surj_pair)
  have a: "q' = q" "is_ok a \<or> a = Inl (Errno EPERM)"
    using probe alive pos call
    by (cases a; auto simp: process_alive_def andthen_def attempt_def ret_def split: if_splits)+
  show ?thesis
    using syscall_log [OF call] a len pos c alive by auto
qed

text \<open>
  C15. A container that is reported as created or running is alive: its pid is positive, and asking
  the kernel about that very pid, after the record was read, did not answer that there is none.
\<close>

theorem load_reports_live:
  assumes "load_record K root cid p = (Inr c, q)"
    and "rec_status c = StatusRunning \<or> rec_status c = StatusCreated"
  shows "0 < rec_pid c \<and> (\<exists>log a. snd q = log @ [(ProbePid (rec_pid c), a)] \<and> log \<noteq> [] \<and> ((\<exists>v. a = Inr v) \<or> a = Inl EPERM))"
  using assms by (rule loaded_alive)

lemma load_reports_live_witness:
  "0 < rec_pid web_record"
proof -
  let ?d = "empty_disk\<lparr>dk_files := [store_path ''/run/lightpod'' ''web'' \<mapsto> Doc (encode_record (stamp web_record))]\<rparr>"
  have "fst (load_record disk_world ''/run/lightpod'' ''web'' (?d, [])) = Inr (stamp web_record)"
    by code_simp
  then obtain q where "load_record disk_world ''/run/lightpod'' ''web'' (?d, []) = (Inr (stamp web_record), q)"
    by (metis prod.collapse)
  from load_reports_live [OF this] show ?thesis by (simp add: web_record_def stamp_def)
qed

text \<open>The calls of a locked operation: the lock could not be taken, or all the work lies between taking and giving it back.\<close>

definition locked :: "string \<Rightarrow> (store_call \<times> (errno + store_answer)) list \<Rightarrow> bool" where
  "locked lock new \<longleftrightarrow>
     (\<exists>a b body u. new = (OpenLock lock, Inr a) # (FlockEx lock, Inr b) # body @ [(FlockUn lock, u)] \<and>
        (\<forall>x \<in> set body. fst x \<notin> {OpenLock lock, FlockEx lock, FlockUn lock})) \<or>
     (\<forall>x \<in> set new. fst x = OpenLock lock \<or> (\<exists>e. x = (FlockEx lock, Inl e)))"

lemma with_lock_locked:
  assumes "only (\<lambda>x. x \<notin> {OpenLock (join_path [root, ''.lock'']), FlockEx (join_path [root, ''.lock'']),
      FlockUn (join_path [root, ''.lock''])}) fn"
    and run: "with_lock K root fn p = (r, q)"
  shows "\<exists>new. snd q = snd p @ new \<and> locked (join_path [root, ''.lock'']) new"
proof -
  define lock where "lock = join_path [root, ''.lock'']"
  obtain r1 p1 where 1: "syscall K (OpenLock lock) p = (r1, p1)" by (meson surj_pair)
  obtain r2 p2 where 2: "syscall K (FlockEx lock) p1 = (r2, p2)" by (meson surj_pair)
  obtain r3 p3 where 3: "fn p2 = (r3, p3)" by (meson surj_pair)
  obtain r4 p4 where 4: "syscall K (FlockUn lock) p3 = (r4, p4)" by (meson surj_pair)
  note log = syscall_log [OF 1] syscall_log [OF 2] syscall_log [OF 4]
  obtain body where body: "snd p3 = snd p2 @ body"
    "\<forall>x \<in> set body. fst x \<notin> {OpenLock lock, FlockEx lock, FlockUn lock}"
    using only_log [OF assms(1) 3] by (auto simp: list_all_iff lock_def)
  show ?thesis
  proof (cases "is_ok r1 \<and> is_ok r2")
    case True
    then have q: "q = p4"
      using run 1 2 3 4 by (cases r1; cases r2; simp add: with_lock_def andthen_def wrap_eff_def Let_def flip: lock_def)
    obtain a b u where "snd p4 = snd p @ (OpenLock lock, Inr a) # (FlockEx lock, Inr b) # body @ [(FlockUn lock, u)]"
      using True log body(1) by auto
    then show ?thesis using q body(2) unfolding locked_def lock_def by blast
  next
    case False
    then have q: "q = p1 \<and> \<not> is_ok r1 \<or> q = p2 \<and> is_ok r1 \<and> \<not> is_ok r2"
      using run 1 2 by (cases r1; cases r2; simp add: with_lock_def andthen_def wrap_eff_def Let_def flip: lock_def)
    then show ?thesis using log(1,2) by (auto simp: locked_def simp flip: lock_def)
  qed
qed

lemma only_load_record [only_intros]:
  "P (ReadDoc (store_path root cid)) \<Longrightarrow> (\<And>pid. P (ProbePid pid)) \<Longrightarrow> only P (load_record K root cid)"
  unfolding load_record_def process_alive_def by (intro only_intros | simp)+

lemma only_save_record [only_intros]:
  "P (MakeDir (store_dir root (rec_id c))) \<Longrightarrow> (\<And>j. P (WriteDoc (store_path root (rec_id c) @ ''.tmp'') j)) \<Longrightarrow>
   P (RenameFile (store_path root (rec_id c) @ ''.tmp'') (store_path root (rec_id c))) \<Longrightarrow>
   only P (save_record K root c)"
  unfolding save_record_def Let_def by (intro only_intros | simp)+

text \<open>
  Claiming an id and deleting a container happen under the lock of the store: either the id is
  invalid or the lock could not be had and nothing else is done, or every call of the operation,
  the check that the id is free and the write included, lies between taking the lock and giving it
  back, which happens on every path.
\<close>

theorem store_writes_locked:
  assumes "m = create_record K root c \<or> m = delete_record K root cid" and "m p = (r, q)"
  shows "\<exists>new. snd q = snd p @ new \<and> locked (join_path [root, ''.lock'']) new"
proof -
  have none: "\<exists>new. snd p = snd p @ new \<and> locked (join_path [root, ''.lock'']) new"
    by (auto simp: locked_def)
  show ?thesis using assms(1)
  proof
    assume m: "m = create_record K root c"
    show ?thesis
    proof (cases "validate_id (rec_id c)")
      case (Inl e)
      then show ?thesis using assms(2) m none by (simp add: create_record_def andthen_def lift_def)
    next
      case (Inr u)
      let ?fn = "andthen (attempt (load_record K root (rec_id c))) (\<lambda>r. case r of
          Inr existing \<Rightarrow> fail (Errorf ''container %q already exists (%s)'' [rec_id c, status_text (rec_status existing)])
        | Inl _ \<Rightarrow> save_record K root c)"
      have run: "with_lock K root ?fn p = (r, q)"
        using assms(2) m Inr by (simp add: create_record_def andthen_def lift_def)
      show ?thesis by (rule with_lock_locked [OF _ run]) (intro only_intros | simp)+
    qed
  next
    assume m: "m = delete_record K root cid"
    show ?thesis
    proof (cases "validate_id cid")
      case (Inl e)
      then show ?thesis using assms(2) m none by (simp add: delete_record_def andthen_def lift_def)
    next
      case (Inr u)
      let ?fn = "wrap_eff ''removing state for %s: %w'' [cid]
          (andthen (syscall K (RemoveTree (store_dir root cid))) (\<lambda>_. ret ()))"
      have run: "with_lock K root ?fn p = (r, q)"
        using assms(2) m Inr by (simp add: delete_record_def andthen_def lift_def)
      show ?thesis by (rule with_lock_locked [OF _ run]) (intro only_intros | simp)+
    qed
  qed
qed

lemma store_writes_locked_witness:
  "\<exists>new. snd (snd (create_record disk_world ''/run/lightpod'' web_record (empty_disk, []))) = new \<and>
     locked (join_path [''/run/lightpod'', ''.lock'']) new"
  using store_writes_locked [of "create_record disk_world ''/run/lightpod'' web_record" disk_world "''/run/lightpod''"
      web_record "''web''" "(empty_disk, [])"
      "fst (create_record disk_world ''/run/lightpod'' web_record (empty_disk, []))"
      "snd (create_record disk_world ''/run/lightpod'' web_record (empty_disk, []))"] by simp

text \<open>
  A record written by a newer version is refused by every load, and a create of the same id
  replaces it: the id counts as free because the load failed.
\<close>

theorem create_replaces_newer_record:
  assumes "list_all normal rs" "rs \<noteq> []" and "validate_id (rec_id c) = Inr ()" "wf_record c"
    and "wf_record newer" "state_schema < rec_schema newer"
    and "dk_files d (store_path (path_of rs) (rec_id c)) = Some (Doc (encode_record newer))"
  shows "disk_load (path_of rs) (rec_id c) d = Inl (Errorf ''container %s was created by a newer lightpod (state schema %d, this build understands %d)''
        [rec_id c, format_int (rec_schema newer), format_int state_schema]) \<and>
    fst (disk_step (path_of rs) (CreateOp c) d) \<and>
    stored (path_of rs) (snd (disk_step (path_of rs) (CreateOp c) d)) (rec_id c) = Some (stamp c)"
proof -
  have read: "read_record (rec_id c) (Inr (Content (Doc (encode_record newer)))) =
      Inl (Errorf ''container %s was created by a newer lightpod (state schema %d, this build understands %d)''
        [rec_id c, format_int (rec_schema newer), format_int state_schema])"
    using assms(5,6) by (simp add: read_record_def decode_encode)
  then have none: "stored (path_of rs) d (rec_id c) = None" using assms(7) by (simp add: stored_def)
  obtain b d' where step: "disk_step (path_of rs) (CreateOp c) d = (b, d')" by (meson surj_pair)
  show ?thesis
    using record_map.step_map [OF disk_record_map [OF assms(1,2)] _ step] assms(3,4,7) none read step
    by (simp add: disk_load_def disk_run_def load_record_def andthen_def lift_def attempt_def disk_call)
qed

definition newer_disk :: disk where
  "newer_disk = empty_disk\<lparr>dk_files := [store_path (path_of [''run'', ''lightpod'']) ''web'' \<mapsto>
     Doc (encode_record (web_record\<lparr>rec_schema := 2\<rparr>))]\<rparr>"

lemma create_replaces_newer_record_witness:
  "fst (disk_step (path_of [''run'', ''lightpod'']) (CreateOp web_record) newer_disk)"
  using create_replaces_newer_record [of "[''run'', ''lightpod'']" web_record "web_record\<lparr>rec_schema := 2\<rparr>" newer_disk]
    web_ok by (simp add: newer_disk_def web_record_def wf_record_def state_schema_def)

end
