(* ===== verification/Go_Scanner.thy ===== *)
theory Go_Scanner
  imports Go_Prelude
begin

section \<open>Reading text line by line (bufio.Scanner)\<close>

text \<open>
  The lines \<^verbatim>\<open>bufio.Scanner\<close> yields for a text: without the newline and one carriage return before
  it, a last line without a newline included, an empty one after the last newline not. A line that
  does not fit the buffer of 64 KiB ends the scan; the second component says that this happened,
  which is what \<^verbatim>\<open>Err\<close> reports.
\<close>

definition max_scan_token_size :: nat where
  "max_scan_token_size = 65536"

definition drop_cr :: "string \<Rightarrow> string" where
  "drop_cr l = (if l \<noteq> [] \<and> last l = CHR 0x0D then butlast l else l)"

definition scan_lines :: "string \<Rightarrow> string list \<times> bool" where
  "scan_lines text =
     (let raw = split_on CHR 0x0A text;
          ls = (if last raw = [] then butlast raw else raw);
          short = takeWhile (\<lambda>l. length l < max_scan_token_size) ls
      in (map drop_cr short, short \<noteq> ls))"

text \<open>The first line the loop body accepts.\<close>

fun first_some :: "('a \<Rightarrow> 'b option) \<Rightarrow> 'a list \<Rightarrow> 'b option" where
  "first_some f [] = None"
| "first_some f (x # xs) = (case f x of None \<Rightarrow> first_some f xs | Some y \<Rightarrow> Some y)"

lemma first_some_Some:
  "first_some f xs = Some y \<longleftrightarrow>
     (\<exists>as x bs. xs = as @ x # bs \<and> f x = Some y \<and> (\<forall>a \<in> set as. f a = None))"
proof (induction xs)
  case (Cons x xs)
  show ?case
  proof (cases "f x")
    case None
    have "(\<exists>as z bs. x # xs = as @ z # bs \<and> f z = Some y \<and> (\<forall>a \<in> set as. f a = None)) \<longleftrightarrow>
        (\<exists>as z bs. xs = as @ z # bs \<and> f z = Some y \<and> (\<forall>a \<in> set as. f a = None))" (is "?l \<longleftrightarrow> ?r")
    proof
      assume ?l
      then obtain as z bs where l: "x # xs = as @ z # bs" "f z = Some y" "\<forall>a \<in> set as. f a = None" by blast
      then obtain as' where "as = x # as'" using None by (cases as) auto
      then show ?r using l by auto
    next
      assume ?r
      then obtain as z bs where "xs = as @ z # bs" "f z = Some y" "\<forall>a \<in> set as. f a = None" by blast
      then show ?l using None by (intro exI [of _ "x # as"]) auto
    qed
    then show ?thesis using Cons.IH None by simp
  next
    case (Some z)
    show ?thesis
    proof
      assume "first_some f (x # xs) = Some y"
      then show "\<exists>as z bs. x # xs = as @ z # bs \<and> f z = Some y \<and> (\<forall>a \<in> set as. f a = None)"
        using Some by (intro exI [of _ "[]"] exI [of _ x] exI [of _ xs]) simp
    qed (use Some in \<open>auto simp: Cons_eq_append_conv\<close>)
  qed
qed simp

lemma first_some_None: "first_some f xs = None \<longleftrightarrow> (\<forall>x \<in> set xs. f x = None)"
  by (induction xs) (auto split: option.split)

end
