(* ===== verification/Cgroups.thy ===== *)
theory Cgroups
  imports Effects Go_Scanner Oci_Load Privilege_Mode "HOL-Library.List_Lexorder"
begin

section \<open>Resource limits (pkg/runtime/cgroups.go)\<close>

text \<open>
  Where a container's cgroup lies, how it is prepared, which controllers it must have, and the
  files its limits are written to. Reading a file, writing one, making a directory, removing one
  and asking for write access are calls of the world. A file that opens is read whole: an error in
  the middle of a file of \<^verbatim>\<open>/proc\<close> is not told apart from one at opening.
\<close>

datatype cg_call =
    CgRead string
  | CgWrite string string
  | CgMkdir string
  | CgRemove string
  | CgWritable string
    \<comment> \<open>access(path, W_OK)\<close>

datatype cg_answer = CgOk | CgText string

type_synonym 'k cg_world = "(cg_call, cg_answer, 'k) world"
type_synonym ('k, 'a) cg_prog = "(cg_call, cg_answer, 'k, 'a) prog"

fun cg_text :: "cg_answer \<Rightarrow> string" where
  "cg_text (CgText s) = s"
| "cg_text CgOk = []"

record cgroup_manager =
  cg_path :: string
  cg_disabled :: bool

abbreviation nl :: string where "nl \<equiv> [CHR 0x0A]"

definition errCgroupV2NotInUse :: goerr where
  "errCgroupV2NotInUse = Errorf (
     ''this system mounts cgroup v2 but runs its controllers on cgroup v1 (hybrid mode),'' @ nl @
     ''so there is nothing to enforce limits with. Either:'' @ nl @
     ''  - switch to unified cgroups: add systemd.unified_cgroup_hierarchy=1 to the'' @ nl @
     ''    kernel command line (GRUB_CMDLINE_LINUX in /etc/default/grub), then'' @ nl @
     ''    sudo update-grub && reboot'' @ nl @
     ''  - or run with --cgroup=none to accept an unlimited container explicitly'') []"

definition errNoCgroupDelegation :: goerr where
  "errNoCgroupDelegation = Errorf (
     ''no writable cgroup v2 delegation found for this user.'' @ nl @
     ''Rootless resource limits need systemd to delegate a cgroup subtree. Either:'' @ nl @
     ''  - enable delegation:  sudo mkdir -p /etc/systemd/system/user@.service.d && '' @ [CHR 0x5C] @ nl @
     ''      printf '' @ [CHR 0x27] @ ''[Service]'' @ [CHR 0x5C] @ ''nDelegate=memory pids cpu cpuset'' @ [CHR 0x5C] @ ''n'' @
       [CHR 0x27] @ '' | '' @ [CHR 0x5C] @ nl @
     ''      sudo tee /etc/systemd/system/user@.service.d/delegate.conf && sudo systemctl daemon-reload'' @ nl @
     ''      (then log out and back in)'' @ nl @
     ''  - or run with --cgroup=none to accept an unlimited container explicitly'') []"

subsection \<open>Where the cgroup lies\<close>

definition container_cgroup_path :: "string \<Rightarrow> string \<Rightarrow> spec \<Rightarrow> string result" where
  "container_cgroup_path root cid spec =
     (let given = (case spec_linux spec of None \<Rightarrow> [] | Some l \<Rightarrow> lx_cgroups_path l)
      in if given = [] then Inr (join_path [root, ''lightpod'', cid])
         else
           let custom = (if CHR '':'' \<in> set given then join_with ''-'' (split_on CHR '':'' given) else given);
               path = join_path [root, trim_prefix custom ''/'']
           in if \<not> is_within root path
              then Inl (Errorf ''linux.cgroupsPath %q escapes the cgroup root %s'' [given, root])
              else if path = root
              then Inl (Errorf ''linux.cgroupsPath %q resolves to the cgroup root itself'' [given])
              else Inr path)"

text \<open>\<^verbatim>\<open>parseCgroup2Mountpoint\<close>: the mount point a line of mountinfo gives if it is of type cgroup2.\<close>

definition cgroup2_line :: "string \<Rightarrow> string option" where
  "cgroup2_line line =
     (case index_of '' - '' line of
        None \<Rightarrow> None
      | Some sep \<Rightarrow>
          let pre = Go_Prelude.fields (take sep line); post = Go_Prelude.fields (drop (sep + 3) line)
          in if length pre < 5 \<or> length post < 1 then None
             else if post ! 0 = ''cgroup2'' then Some (pre ! 4) else None)"

definition parse_cgroup2_mountpoint :: "string \<Rightarrow> string result" where
  "parse_cgroup2_mountpoint text =
     (let (ls, too_long) = scan_lines text
      in case first_some cgroup2_line ls of
           Some m \<Rightarrow> Inr m
         | None \<Rightarrow>
             if too_long then Inl (Wrapf ''scanning mount table: %w'' [] (Errorf ''bufio.Scanner: token too long'' []))
             else Inl (Errorf ''no cgroup2 filesystem is mounted; lightpod requires cgroup v2 (boot with systemd.unified_cgroup_hierarchy=1, or use --cgroup=none)'' []))"

definition cgroup2_mountpoint :: "'k cg_world \<Rightarrow> ('k, string) cg_prog" where
  "cgroup2_mountpoint K =
     andthen (wrap_eff ''reading mount table: %w'' [] (syscall K (CgRead ''/proc/self/mountinfo''))) (\<lambda>a.
     lift (parse_cgroup2_mountpoint (cg_text a)))"

definition own_cgroup_path :: "'k cg_world \<Rightarrow> ('k, string) cg_prog" where
  "own_cgroup_path K =
     andthen (wrap_eff ''reading own cgroup: %w'' [] (syscall K (CgRead ''/proc/self/cgroup''))) (\<lambda>a.
     lift (case first_some (\<lambda>l. cut_prefix l ''0::'') (fst (scan_lines (cg_text a))) of
             Some rest \<Rightarrow> Inr rest
           | None \<Rightarrow> Inl (Errorf ''this process is not in a cgroup v2 hierarchy'' [])))"

subsection \<open>The root below which cgroups may be made\<close>

text \<open>\<^verbatim>\<open>filepath.Dir\<close> shortens a path until it is \<open>/\<close> or \<open>.\<close>, so a walk up the parents ends.\<close>

abbreviation weight_of :: "string list \<Rightarrow> nat" where
  "weight_of cs \<equiv> sum_list (map (\<lambda>c. Suc (length c)) cs)"

lemma weight_clean_comps:
  "weight_of (clean_comps r acc cs) \<le> weight_of acc + weight_of (filter (\<lambda>c. c \<noteq> []) cs)"
proof (induction r acc cs rule: clean_comps.induct)
  case (2 r acc c cs)
  show ?case
  proof (cases "c = [] \<or> c = ''.''")
    case True
    then show ?thesis using 2(1) by auto
  next
    case False
    then show ?thesis using 2 by (cases acc) (auto split: if_splits)
  qed
qed (simp add: sum_list_rev flip: rev_map)

lemma length_join_with: "length (join_with ''/'' cs) = weight_of cs - 1"
  by (induction "''/''" cs rule: join_with.induct) auto

lemma weight_split_on: "weight_of (split_on c s) = Suc (length s)"
proof (induction s)
  case (Cons x s)
  then show ?case by (cases "split_on c s") auto
qed simp

lemma length_clean_slash:
  assumes "p \<noteq> []" "last p = CHR ''/''" "p \<noteq> ''/''"
  shows "length (clean p) < length p"
proof -
  obtain q where p: "p = q @ ''/''" using assms(1,2) by (metis append_butlast_last_id)
  have q: "q \<noteq> []" using assms(3) p by auto
  define w where "w = weight_of (filter (\<lambda>c. c \<noteq> []) (split_on CHR ''/'' p))"
  have split: "split_on CHR ''/'' p = split_on CHR ''/'' q @ [[]]" by (simp add: p split_on_slash_append)
  have le: "weight_of (filter P xs) \<le> weight_of xs" for P and xs :: "string list" by (induction xs) auto
  have w: "w \<le> length q + 1"
    using le [of "\<lambda>c. c \<noteq> []" "split_on CHR ''/'' q"] by (simp add: w_def split weight_split_on)
  have w_abs: "w \<le> length q" if abs: "has_prefix p ''/''"
  proof -
    obtain t where t: "q = CHR ''/'' # t" using abs q p by (cases q) auto
    then show ?thesis
      using le [of "\<lambda>c. c \<noteq> []" "split_on CHR ''/'' t"] by (simp add: w_def split weight_split_on)
  qed
  have body: "length (join_with ''/'' (clean_comps r [] (split_on CHR ''/'' p))) \<le> w - 1" for r
    using weight_clean_comps [of r "[]" "split_on CHR ''/'' p"] by (simp add: length_join_with w_def)
  show ?thesis
  proof (cases "has_prefix p ''/''")
    case True
    then show ?thesis
      using body [of True] w_abs q assms(1) by (cases q) (auto simp: clean_def p)
  next
    case False
    then show ?thesis using body [of False] w q by (cases q) (auto simp: clean_def Let_def p)
  qed
qed

definition walk_measure :: "string \<Rightarrow> nat" where
  "walk_measure s = (if s = ''.'' then 0 else if CHR ''/'' \<notin> set s then 1 else Suc (length s))"

lemma dir_of_shorter:
  assumes "dir_of s \<noteq> s"
  shows "walk_measure (dir_of s) < walk_measure s"
proof (cases "CHR ''/'' \<in> set s")
  case True
  define p where "p = rev (dropWhile (\<lambda>c. c \<noteq> CHR ''/'') (rev s))"
  have p: "p \<noteq> []" "last p = CHR ''/''" "length p \<le> length s"
    using True hd_dropWhile [of "\<lambda>c. c \<noteq> CHR ''/''" "rev s"]
      length_dropWhile_le [of "\<lambda>c. c \<noteq> CHR ''/''" "rev s"]
    by (auto simp: p_def dropWhile_eq_Nil_conv last_rev)
  have dir: "dir_of s = clean p" by (simp add: dir_of_def p_def)
  show ?thesis
  proof (cases "p = ''/''")
    case True
    have "dir_of s = ''/''" by (simp add: dir True clean_def)
    moreover have "s \<noteq> ''/''" using assms calculation by metis
    moreover have "s \<noteq> []" "s \<noteq> ''.''" using \<open>CHR ''/'' \<in> set s\<close> by auto
    ultimately show ?thesis using \<open>CHR ''/'' \<in> set s\<close> p(3) True
      by (cases s; cases "tl s") (auto simp: walk_measure_def)
  next
    case False
    then have "length (clean p) < length s" using length_clean_slash [OF p(1,2)] p(3) by fastforce
    then show ?thesis using True by (auto simp: walk_measure_def dir)
  qed
next
  case False
  then have "dropWhile (\<lambda>c. c \<noteq> CHR ''/'') (rev s) = []" by (simp add: dropWhile_eq_Nil_conv) metis
  then have "dir_of s = ''.''" by (simp add: dir_of_def clean_def)
  then show ?thesis using assms False by (auto simp: walk_measure_def)
qed

function climb :: "'k cg_world \<Rightarrow> string \<Rightarrow> string \<Rightarrow> string \<Rightarrow> ('k, string) cg_prog" where
  "climb K mountpoint current best p =
     (case syscall K (CgWritable current) p of
        (r, p') \<Rightarrow>
          let best' = (if is_ok r then current else best);
              parent = dir_of current
          in if parent = current \<or> \<not> has_prefix parent mountpoint then (Inr best', p')
             else climb K mountpoint parent best' p')"
  by pat_completeness auto
termination
  by (relation "measure (\<lambda>(_, _, current, _, _). walk_measure current)") (auto intro: dir_of_shorter)

declare climb.simps [simp del]

definition delegated_root :: "'k cg_world \<Rightarrow> string \<Rightarrow> ('k, string) cg_prog" where
  "delegated_root K mountpoint =
     andthen (own_cgroup_path K) (\<lambda>own.
     andthen (climb K mountpoint (join_path [mountpoint, trim_prefix own ''/'']) []) (\<lambda>best.
     if best = [] then fail errNoCgroupDelegation else ret best))"

definition cgroup_root :: "'k cg_world \<Rightarrow> privilege_mode \<Rightarrow> ('k, string \<times> string) cg_prog" where
  "cgroup_root K mode =
     andthen (cgroup2_mountpoint K) (\<lambda>mountpoint.
     if mode = ModeRootfull then ret (mountpoint, mountpoint)
     else andthen (delegated_root K mountpoint) (\<lambda>root. ret (mountpoint, root)))"

subsection \<open>Controllers\<close>

definition root_has_no_controllers :: "'k cg_world \<Rightarrow> string \<Rightarrow> ('k, bool) cg_prog" where
  "root_has_no_controllers K mountpoint =
     andthen (attempt (syscall K (CgRead (join_path [mountpoint, ''cgroup.controllers''])))) (\<lambda>r.
     ret (case r of Inl _ \<Rightarrow> False | Inr a \<Rightarrow> Go_Prelude.fields (cg_text a) = []))"

definition needed_controllers :: "linux_resources \<Rightarrow> string list" where
  "needed_controllers r =
     (if res_memory r \<noteq> None then [''memory''] else []) @
     (if res_cpu r \<noteq> None then [''cpu''] else []) @
     (if res_pids r \<noteq> None then [''pids''] else [])"

definition check_controllers ::
  "'k cg_world \<Rightarrow> string \<Rightarrow> string \<Rightarrow> linux_resources option \<Rightarrow> ('k, unit) cg_prog" where
  "check_controllers K mountpoint path res =
     (case res of
        None \<Rightarrow> ret ()
      | Some r \<Rightarrow>
          if needed_controllers r = [] then ret ()
          else
            andthen (wrap_eff ''reading controllers available at %s: %w'' [path]
                      (syscall K (CgRead (join_path [path, ''cgroup.controllers''])))) (\<lambda>a.
            let available = Go_Prelude.fields (cg_text a);
                missing = sort (filter (\<lambda>c. c \<notin> set available) (needed_controllers r))
            in if missing = [] then ret ()
               else
                 andthen (root_has_no_controllers K mountpoint) (\<lambda>none.
                 fail (Wrapf ''the %s cgroup v2 controller(s) are not available at %s, so the requested limits cannot be enforced. %w''
                   [join_with '', '' missing, path]
                   (if none then errCgroupV2NotInUse else errNoCgroupDelegation)))))"

definition wanted_controllers :: "string \<Rightarrow> string list" where
  "wanted_controllers text =
     map (\<lambda>c. ''+'' @ c)
       (filter (\<lambda>c. c \<in> {''memory'', ''pids'', ''cpu'', ''cpuset'', ''io''}) (Go_Prelude.fields text))"

fun enable_below :: "'k cg_world \<Rightarrow> string \<Rightarrow> string \<Rightarrow> string list \<Rightarrow> ('k, unit) cg_prog" where
  "enable_below K enable dir [] = ret ()"
| "enable_below K enable dir (part # parts) =
     (if part \<noteq> ''.'' then
        (let dir' = join_path [dir, part]
         in andthen (wrap_eff ''creating cgroup %s: %w'' [dir'] (syscall K (CgMkdir dir'))) (\<lambda>_.
            andthen (attempt (syscall K (CgWrite (join_path [dir', ''cgroup.subtree_control'']) enable))) (\<lambda>_.
            enable_below K enable dir' parts)))
      else
        andthen (attempt (syscall K (CgWrite (join_path [dir, ''cgroup.subtree_control'']) enable))) (\<lambda>_.
        enable_below K enable dir parts))"

definition enable_controllers :: "'k cg_world \<Rightarrow> string \<Rightarrow> string \<Rightarrow> ('k, unit) cg_prog" where
  "enable_controllers K root leaf =
     andthen (wrap_eff ''reading available cgroup controllers: %w'' []
               (syscall K (CgRead (join_path [root, ''cgroup.controllers''])))) (\<lambda>a.
     let wanted = wanted_controllers (cg_text a)
     in if wanted = [] then ret ()
        else
          andthen (lift (ewrap ''resolving cgroup path: %w'' [] (rel_path root (dir_of leaf)))) (\<lambda>rel.
          enable_below K (join_with '' '' wanted) root (''.'' # split_on CHR ''/'' rel)))"

definition new_cgroup_manager ::
  "'k cg_world \<Rightarrow> string \<Rightarrow> spec \<Rightarrow> privilege_mode \<Rightarrow> bool \<Rightarrow> ('k, cgroup_manager) cg_prog" where
  "new_cgroup_manager K cid spec mode disabled =
     (if disabled then ret \<lparr>cg_path = [], cg_disabled = True\<rparr>
      else
        andthen (cgroup_root K mode) (\<lambda>(mountpoint, root).
        andthen (lift (container_cgroup_path root cid spec)) (\<lambda>path.
        andthen (enable_controllers K root path) (\<lambda>_.
        andthen (wrap_eff ''creating cgroup %s: %w'' [path] (syscall K (CgMkdir path))) (\<lambda>_.
        andthen (case spec_linux spec of
                   None \<Rightarrow> ret ()
                 | Some l \<Rightarrow>
                     andthen (attempt (check_controllers K mountpoint path (lx_resources l))) (\<lambda>r.
                     case r of
                       Inl e \<Rightarrow> andthen (attempt (syscall K (CgRemove path))) (\<lambda>_. fail e)
                     | Inr _ \<Rightarrow> ret ())) (\<lambda>_.
        ret \<lparr>cg_path = path, cg_disabled = False\<rparr>))))))"

subsection \<open>Limits\<close>

definition format_limit :: "int64 \<Rightarrow> string" where
  "format_limit v = (if v \<le>s 0 then ''max'' else format_int (sint v))"

definition shares_to_weight :: "uint64 \<Rightarrow> uint64" where
  "shares_to_weight shares =
     (if shares = 0 then 100
      else
        let weight = 1 + ((shares - 2) * 9999) div 262142
        in if weight < 1 then 1 else if 10000 < weight then 10000 else weight)"

definition cg_write :: "'k cg_world \<Rightarrow> cgroup_manager \<Rightarrow> string \<Rightarrow> string \<Rightarrow> ('k, unit) cg_prog" where
  "cg_write K m file value =
     (let path = join_path [cg_path m, file]
      in andthen (attempt (syscall K (CgWrite path value))) (\<lambda>r.
         case r of
           Inr _ \<Rightarrow> ret ()
         | Inl e \<Rightarrow>
             if e = Errno ENOENT
             then fail (Errorf ''cgroup controller for %s is not available at %s. The controller may not be delegated to this user; see --cgroup=none to opt out of limits''
                    [file, cg_path m])
             else fail (Wrapf ''writing %s=%s: %w'' [path, value] e)))"

definition cg_apply :: "'k cg_world \<Rightarrow> cgroup_manager \<Rightarrow> int \<Rightarrow> ('k, unit) cg_prog" where
  "cg_apply K m pid =
     (if cg_disabled m then ret ()
      else
        andthen (wrap_eff ''adding pid %d to cgroup %s: %w'' [format_int pid, cg_path m]
                  (syscall K (CgWrite (join_path [cg_path m, ''cgroup.procs'']) (format_int pid)))) (\<lambda>_. ret ()))"

definition set_memory :: "'k cg_world \<Rightarrow> cgroup_manager \<Rightarrow> linux_memory \<Rightarrow> ('k, unit) cg_prog" where
  "set_memory K m mem =
     andthen (case mem_limit mem of None \<Rightarrow> ret () | Some l \<Rightarrow> cg_write K m ''memory.max'' (format_limit l)) (\<lambda>_.
     andthen (case mem_reservation mem of None \<Rightarrow> ret () | Some l \<Rightarrow> cg_write K m ''memory.low'' (format_limit l)) (\<lambda>_.
     case mem_swap mem of
       None \<Rightarrow> ret ()
     | Some swap \<Rightarrow>
         (case mem_limit mem of
            None \<Rightarrow> ret ()
          | Some l \<Rightarrow>
              cg_write K m ''memory.swap.max'' (format_limit (if swap \<le>s 0 then swap else swap - l)))))"

definition set_cpu :: "'k cg_world \<Rightarrow> cgroup_manager \<Rightarrow> linux_cpu \<Rightarrow> ('k, unit) cg_prog" where
  "set_cpu K m cpu =
     andthen (case cpu_quota cpu of
                None \<Rightarrow> ret ()
              | Some q \<Rightarrow>
                  let period = (case cpu_period cpu of None \<Rightarrow> 100000 | Some per \<Rightarrow> if 0 < per then per else 100000);
                      quota = (if 0 <s q then format_int (sint q) else ''max'')
                  in cg_write K m ''cpu.max'' (quota @ '' '' @ format_nat (unat period))) (\<lambda>_.
     andthen (case cpu_shares cpu of
                None \<Rightarrow> ret ()
              | Some s \<Rightarrow>
                  if 0 < s then cg_write K m ''cpu.weight'' (format_nat (unat (shares_to_weight s))) else ret ()) (\<lambda>_.
     andthen (if cpu_cpus cpu \<noteq> [] then cg_write K m ''cpuset.cpus'' (cpu_cpus cpu) else ret ()) (\<lambda>_.
     if cpu_mems cpu \<noteq> [] then cg_write K m ''cpuset.mems'' (cpu_mems cpu) else ret ())))"

definition set_resources ::
  "'k cg_world \<Rightarrow> cgroup_manager \<Rightarrow> linux_resources option \<Rightarrow> ('k, unit) cg_prog" where
  "set_resources K m res =
     (case res of
        None \<Rightarrow> ret ()
      | Some r \<Rightarrow>
          if cg_disabled m then ret ()
          else
            andthen (case res_memory r of None \<Rightarrow> ret () | Some mem \<Rightarrow> set_memory K m mem) (\<lambda>_.
            andthen (case res_cpu r of None \<Rightarrow> ret () | Some cpu \<Rightarrow> set_cpu K m cpu) (\<lambda>_.
            case res_pids r of None \<Rightarrow> ret () | Some pids \<Rightarrow> cg_write K m ''pids.max'' (format_limit (pids_limit pids)))))"

definition cg_cleanup :: "'k cg_world \<Rightarrow> cgroup_manager \<Rightarrow> ('k, unit) cg_prog" where
  "cg_cleanup K m =
     (if cg_disabled m \<or> cg_path m = [] then ret ()
      else
        andthen (attempt (syscall K (CgRemove (cg_path m)))) (\<lambda>r.
        case r of
          Inl e \<Rightarrow> if e = Errno ENOENT then ret () else fail (Wrapf ''removing cgroup %s: %w'' [cg_path m] e)
        | Inr _ \<Rightarrow> ret ()))"

end
