(* ===== verification/Cgroup_Limits.thy ===== *)
theory Cgroup_Limits
  imports Cgroups Store_Safety
begin

section \<open>What the resource limits guarantee\<close>

text \<open>
  The cgroup of a container lies strictly below the cgroup root; controllers are delegated at every
  level on the way; a container whose limits cannot be enforced is refused; the limits are written as
  the specification states them, with the conversions from version 1.
\<close>

subsection \<open>Where the cgroup lies\<close>

lemma join_comps:
  assumes "list_all normal rs" "rs \<noteq> []"
  shows "\<exists>ds. list_all normal ds \<and> join_path [path_of rs, s] = (if ds = [] then ''/'' else path_of ds)"
proof -
  define ds where "ds = clean_comps True (rev rs) (split_on CHR ''/'' s)"
  have "join_path [path_of rs, s] = clean (path_of rs @ ''/'' @ s)"
    using assms(2) by (intro join_path_Nil_tail) simp
  also have "\<dots> = (if ds = [] then ''/'' else path_of ds)"
    using clean_path_of_join [OF assms, of s] by (simp add: ds_def Let_def)
  finally have "join_path [path_of rs, s] = (if ds = [] then ''/'' else path_of ds)" .
  moreover have "list_all normal ds"
    unfolding ds_def using assms(1) by (intro clean_comps_rooted) (auto dest: split_on_parts simp: list_all_iff)
  ultimately show ?thesis by blast
qed

lemma root_not_within: "list_all normal rs \<Longrightarrow> rs \<noteq> [] \<Longrightarrow> \<not> is_within (path_of rs) ''/''"
  by (cases rs; cases "hd rs") (auto simp: is_within_def dest: normalD)

text \<open>
  C20. The cgroup of a container lies strictly below the cgroup root, whatever path the
  specification asks for: a path that climbs out, or that names the root itself, is refused.
\<close>

theorem cgroup_path_below_root:
  assumes "list_all normal rs" "rs \<noteq> []" and "validate_id cid = Inr ()"
    and "container_cgroup_path (path_of rs) cid spec = Inr path"
  shows "\<exists>cs. cs \<noteq> [] \<and> list_all normal cs \<and> path = path_of (rs @ cs)"
proof (cases "(case spec_linux spec of None \<Rightarrow> [] | Some l \<Rightarrow> lx_cgroups_path l) = []")
  case True
  have "join_path [path_of rs, ''lightpod'', cid] = path_of (rs @ [''lightpod'', cid])"
    using join_path_normals [OF assms(1,2), of "[''lightpod'', cid]"] assms(2) validate_id_normal [OF assms(3)]
    by (cases rs) (auto simp: join_path_def normal_def)
  then show ?thesis
    using assms(4) True validate_id_normal [OF assms(3)]
    by (intro exI [of _ "[''lightpod'', cid]"]) (simp add: container_cgroup_path_def normal_def)
next
  case False
  then obtain s where path: "path = join_path [path_of rs, s]" and within: "is_within (path_of rs) path"
    and "path \<noteq> path_of rs"
    using assms(4) by (auto simp: container_cgroup_path_def Let_def split: if_splits)
  obtain ds where ds: "list_all normal ds" "path = (if ds = [] then ''/'' else path_of ds)"
    using join_comps [OF assms(1,2)] path by blast
  have "ds \<noteq> []" using ds(2) within root_not_within [OF assms(1,2)] by auto
  then have "prefix rs ds" using is_within_path_of [OF assms(1) ds(1) assms(2)] within ds(2) by simp
  then show ?thesis
    using ds \<open>ds \<noteq> []\<close> \<open>path \<noteq> path_of rs\<close> by (auto simp: prefix_def list_all_append intro!: exI [of _ "drop (length rs) ds"])
qed

lemma cgroup_path_below_root_witness:
  "\<exists>cs. cs \<noteq> [] \<and> list_all normal cs \<and>
     path_of [''sys'', ''lightpod'', ''web''] = path_of ([''sys''] @ cs)"
  using cgroup_path_below_root [of "[''sys'']" "''web''" "\<lparr>spec_version = [], spec_process = None, spec_root = None,
      spec_hostname = [], spec_domainname = [], spec_mounts = [], spec_hooks = None, spec_annotations = [],
      spec_linux = None\<rparr>" "path_of [''sys'', ''lightpod'', ''web'']"]
  by (simp add: normal_def validate_id_def contains_any_def container_cgroup_path_def join_path_def clean_def)

subsection \<open>Delegation\<close>

fun delegate_levels :: "string \<Rightarrow> string list \<Rightarrow> string list \<Rightarrow> cg_call list" where
  "delegate_levels enable rs [] = []"
| "delegate_levels enable rs (c # cs) =
     CgMkdir (path_of (rs @ [c])) # CgWrite (path_of (rs @ [c, ''cgroup.subtree_control''])) enable #
     delegate_levels enable (rs @ [c]) cs"

lemma join_file:
  "list_all normal rs \<Longrightarrow> rs \<noteq> [] \<Longrightarrow> normal f \<Longrightarrow> join_path [path_of rs, f] = path_of (rs @ [f])"
  by (rule join_path_normal)

lemma normal_files [simp]: "normal ''cgroup.subtree_control''" "normal ''cgroup.controllers''"
  by (simp_all add: normal_def)

lemma attempt_log: "attempt (syscall K c) p = (Inr r, q) \<Longrightarrow> map fst (snd q) = map fst (snd p) @ [c]"
  using syscall_log [of K c p r q] by (auto simp: attempt_Inr)

lemma enable_below_log:
  assumes "list_all normal rs" "rs \<noteq> []" "list_all normal cs"
    and "enable_below K enable (path_of rs) cs p = (Inr (), q)"
  shows "map fst (snd q) = map fst (snd p) @ delegate_levels enable rs cs"
  using assms
proof (induction cs arbitrary: rs p)
  case (Cons c cs)
  have c: "normal c" "list_all normal cs" using Cons.prems(3) by simp_all
  have dir: "join_path [path_of rs, c] = path_of (rs @ [c])"
    using Cons.prems(1,2) c(1) by (rule join_path_normal)
  have rs: "list_all normal (rs @ [c])" "rs @ [c] \<noteq> []" using Cons.prems(1) c(1) by simp_all
  have target: "join_path [path_of (rs @ [c]), ''cgroup.subtree_control''] = path_of (rs @ [c, ''cgroup.subtree_control''])"
    using join_path_normal [OF rs] by simp
  obtain a p1 b p2 where 1: "syscall K (CgMkdir (path_of (rs @ [c]))) p = (Inr a, p1)"
    and 2: "attempt (syscall K (CgWrite (path_of (rs @ [c, ''cgroup.subtree_control''])) enable)) p1 = (Inr b, p2)"
    and 3: "enable_below K enable (path_of (rs @ [c])) cs p2 = (Inr (), q)"
    using Cons.prems(4) c(1) by (auto simp: Let_def dir target andthen_Inr wrap_eff_Inr normalD simp del: split_paired_Ex)
  show ?case
    using syscall_Inr_log [OF 1] attempt_log [OF 2] Cons.IH [OF rs c(2) 3] by simp
qed (simp add: ret_def)

lemma drop_common_append: "drop_common as (as @ bs) = ([], bs)"
  by (induction as) (cases bs, simp_all)

lemma rel_path_below:
  assumes "list_all normal rs" "rs \<noteq> []" "list_all normal cs" "cs \<noteq> []"
  shows "rel_path (path_of rs) (path_of (rs @ cs)) = Inr (join_with ''/'' cs)"
proof -
  have all: "list_all normal (rs @ cs)" "rs @ cs \<noteq> []" using assms by simp_all
  have comps: "filter (\<lambda>c. c \<noteq> [] \<and> c \<noteq> ''.'') (split_on CHR ''/'' (path_of xs)) = xs" if "list_all normal xs" for xs
  proof -
    have "split_on CHR ''/'' (path_of xs) = [] # xs" using that by (intro split_path_of) (auto simp: list_all_iff normal_def)
    moreover have "filter (\<lambda>c. c \<noteq> [] \<and> c \<noteq> ''.'') xs = xs" using that by (auto simp: list_all_iff normal_def intro: filter_True)
    ultimately show ?thesis by simp
  qed
  show ?thesis
    using assms by (simp add: rel_path_def is_abs_path_of clean_path_of [OF assms(1,2)] clean_path_of [OF all]
        comps [OF assms(1)] comps [OF all(1)] drop_common_append)
qed

lemma split_join_normal:
  assumes "list_all normal cs" "cs \<noteq> []"
  shows "split_on CHR ''/'' (join_with ''/'' cs) = cs"
proof -
  have "path_of cs = CHR ''/'' # join_with ''/'' cs" using assms(2) path_of_join [of cs] by simp
  moreover have "split_on CHR ''/'' (path_of cs) = [] # cs"
    using assms(1) by (intro split_path_of) (auto simp: list_all_iff normal_def)
  ultimately show ?thesis by simp
qed

text \<open>
  The controllers are delegated at every level from the cgroup root down to the parent of the
  container's cgroup, each directory made before it is written to and parents before children, so
  no level is skipped; the calls are exactly these.
\<close>

theorem controllers_delegated_at_every_level:
  assumes "list_all normal rs" "rs \<noteq> []" "list_all normal (cs @ [c])" "cs \<noteq> []"
    and "syscall K (CgRead (path_of (rs @ [''cgroup.controllers'']))) p = (Inr a, p1)"
    and "wanted_controllers (cg_text a) \<noteq> []"
    and "enable_controllers K (path_of rs) (path_of (rs @ cs @ [c])) p = (Inr (), q)"
  shows "map fst (snd q) = map fst (snd p) @
    [CgRead (path_of (rs @ [''cgroup.controllers''])),
     CgWrite (path_of (rs @ [''cgroup.subtree_control''])) (join_with '' '' (wanted_controllers (cg_text a)))] @
    delegate_levels (join_with '' '' (wanted_controllers (cg_text a))) rs cs"
proof -
  let ?enable = "join_with '' '' (wanted_controllers (cg_text a))"
  have cs: "list_all normal cs" "normal c" using assms(3) by simp_all
  have "dir_of (path_of ((rs @ cs) @ [c])) = path_of (rs @ cs)"
    using assms(1,2) cs by (intro dir_of_path_of) (auto dest: normalD)
  then have rel: "rel_path (path_of rs) (dir_of (path_of (rs @ cs @ [c]))) = Inr (join_with ''/'' cs)"
    using rel_path_below [OF assms(1,2) cs(1) assms(4)] by simp
  have files: "join_path [path_of rs, ''cgroup.controllers''] = path_of (rs @ [''cgroup.controllers''])"
    "join_path [path_of rs, ''cgroup.subtree_control''] = path_of (rs @ [''cgroup.subtree_control''])"
    using assms(1,2) by (simp_all add: join_file)
  have below: "enable_below K ?enable (path_of rs) (''.'' # cs) p1 = (Inr (), q)"
    using assms(5-7) by (simp add: enable_controllers_def andthen_def wrap_eff_def lift_def files rel
        split_join_normal [OF cs(1) assms(4)] Let_def)
  obtain b p2 where 1: "attempt (syscall K (CgWrite (path_of (rs @ [''cgroup.subtree_control''])) ?enable)) p1 = (Inr b, p2)"
    and 2: "enable_below K ?enable (path_of rs) cs p2 = (Inr (), q)"
    using below by (auto simp: andthen_Inr files simp del: split_paired_Ex)
  show ?thesis
    using syscall_Inr_log [OF assms(5)] attempt_log [OF 1] enable_below_log [OF assms(1,2) cs(1) 2] by simp
qed

text \<open>A machine with version 2 only, every file in place.\<close>

fun cg_machine :: "unit cg_world" where
  "cg_machine (CgRead p) k =
     (Inr (CgText (if p = ''/proc/self/mountinfo''
        then ''29 23 0:26 / /cg rw,nosuid shared:9 - cgroup2 cgroup2 rw''
        else if p = ''/proc/self/cgroup'' then ''0::/user/session''
        else ''cpuset cpu io memory hugetlb pids'')), k)"
| "cg_machine (CgWritable p) k = (if p = ''/cg'' then Inl (EOTHER 13) else Inr CgOk, k)"
| "cg_machine _ k = (Inr CgOk, k)"

lemma controllers_delegated_at_every_level_witness:
  "map fst (snd (snd (enable_controllers cg_machine ''/cg'' ''/cg/lightpod/web'' ((), [])))) =
     [CgRead ''/cg/cgroup.controllers'',
      CgWrite ''/cg/cgroup.subtree_control'' ''+cpuset +cpu +io +memory +pids'',
      CgMkdir ''/cg/lightpod'',
      CgWrite ''/cg/lightpod/cgroup.subtree_control'' ''+cpuset +cpu +io +memory +pids'']"
proof -
  let ?p = "((), []) :: (cg_call, cg_answer, unit) run"
  have run: "fst (enable_controllers cg_machine ''/cg'' ''/cg/lightpod/web'' ((), [])) = Inr ()" by code_simp
  then obtain q where q: "enable_controllers cg_machine ''/cg'' ''/cg/lightpod/web'' ((), []) = (Inr (), q)"
    by (metis prod.collapse)
  let ?t = "CgText ''cpuset cpu io memory hugetlb pids''"
  have read: "syscall cg_machine (CgRead ''/cg/cgroup.controllers'') ?p =
      (Inr ?t, ((), [(CgRead ''/cg/cgroup.controllers'', Inr ?t)]))"
    by (simp add: syscall_def sys_def)
  have wanted: "wanted_controllers (cg_text ?t) = [''+cpuset'', ''+cpu'', ''+io'', ''+memory'', ''+pids'']" by code_simp
  show ?thesis
    using controllers_delegated_at_every_level [of "[''cg'']" "[''lightpod'']" "''web''" cg_machine ?p ?t _ q] read q wanted
    by (simp add: normal_def)
qed

text \<open>The answers to the access checks of the walk up from \<open>ms @ cs\<close>, deepest directory first.\<close>

lemma dir_of_single: "normal c \<Longrightarrow> dir_of (path_of [c]) = ''/''"
proof -
  assume "normal c"
  then have "dropWhile (\<lambda>x. x \<noteq> CHR ''/'') (rev c @ [CHR ''/'']) = [CHR ''/'']"
    by (subst dropWhile_append2) (auto dest: normalD)
  then show ?thesis by (simp add: dir_of_def clean_def)
qed

lemma climb_highest:
  assumes "list_all normal ms" "ms \<noteq> []" "list_all normal cs"
    and "climb K (path_of ms) (path_of (ms @ cs)) best p = (Inr root, q)"
  shows "(root = best \<and> (\<forall>j \<le> length cs. \<exists>e. (CgWritable (path_of (ms @ take j cs)), Inl e) \<in> set (snd q)) \<or>
     (\<exists>i \<le> length cs. root = path_of (ms @ take i cs) \<and> (\<exists>v. (CgWritable root, Inr v) \<in> set (snd q)) \<and>
       (\<forall>j < i. \<exists>e. (CgWritable (path_of (ms @ take j cs)), Inl e) \<in> set (snd q)))) \<and> set (snd p) \<subseteq> set (snd q)"
  using assms(3,4)
proof (induction cs arbitrary: best p rule: rev_induct)
  case Nil
  obtain r p' where 1: "syscall K (CgWritable (path_of ms)) p = (r, p')" by (meson surj_pair)
  have stop: "\<not> has_prefix (dir_of (path_of ms)) (path_of ms)"
  proof (cases ms rule: rev_cases)
    case (snoc ns n)
    show ?thesis
    proof (cases "ns = []")
      case True
      then have "dir_of (path_of ms) = ''/''" using snoc assms(1) dir_of_single [of n] by simp
      then show ?thesis using snoc True assms(1) by (cases n) (auto dest: normalD)
    next
      case False
      then have "dir_of (path_of ms) = path_of ns"
        using snoc assms(1) by (auto intro!: dir_of_path_of dest: normalD)
      then show ?thesis using snoc by (auto simp: path_of_append dest: prefix_length_le)
    qed
  qed (use assms(2) in simp)
  have "root = (if is_ok r then path_of ms else best)" "q = p'"
    using Nil(2) 1 stop by (auto simp: climb.simps [of K "path_of ms" "path_of ms"] Let_def)
  then show ?case using syscall_log [OF 1] by auto
next
  case (snoc c cs)
  have n: "list_all normal cs" "normal c" using snoc.prems(1) by simp_all
  obtain r p' where 1: "syscall K (CgWritable (path_of (ms @ cs @ [c]))) p = (r, p')" by (meson surj_pair)
  have "dir_of (path_of ((ms @ cs) @ [c])) = path_of (ms @ cs)"
    using assms(1,2) n by (intro dir_of_path_of) (auto dest: normalD)
  then have parent: "dir_of (path_of (ms @ cs @ [c])) = path_of (ms @ cs)" by simp
  have up: "path_of (ms @ cs) \<noteq> path_of (ms @ cs @ [c])" by (simp add: path_of_append)
  have pre: "has_prefix (path_of (ms @ cs)) (path_of ms)" by (simp add: path_of_append)
  have rec: "climb K (path_of ms) (path_of (ms @ cs)) (if is_ok r then path_of (ms @ cs @ [c]) else best) p' = (Inr root, q)"
    using snoc.prems(2) 1 up pre
    by (simp add: climb.simps [of K "path_of ms" "path_of (ms @ cs @ [c])"] parent Let_def)
  note log = syscall_log [OF 1]
  from snoc.IH [OF n(1) rec] show ?case
  proof (elim conjE disjE exE, goal_cases)
    case 1
    show ?case
    proof (cases "is_ok r")
      case True
      then show ?thesis using 1 log
        by (intro conjI disjI2 exI [of _ "Suc (length cs)"]) (auto simp: less_Suc_eq_le)
    next
      case False
      then show ?thesis using 1 log by (auto simp: le_Suc_eq)
    qed
  next
    case (2 i)
    then show ?case using log by (intro conjI disjI2 exI [of _ i]) auto
  qed
qed

text \<open>
  A rootless container's cgroups go below the highest directory, between the mount point and
  the user's own cgroup, that the user may write to: it was found writable, and every directory
  above it was tried and refused. Without any the container is refused.
\<close>

theorem delegated_root_highest:
  assumes "list_all normal ms" "ms \<noteq> []" "list_all normal cs"
    and "own_cgroup_path K p = (Inr (path_of cs), p1)" "cs \<noteq> []"
    and "delegated_root K (path_of ms) p = (r, q)"
  shows "(\<exists>i \<le> length cs. r = Inr (path_of (ms @ take i cs)) \<and>
      (\<exists>v. (CgWritable (path_of (ms @ take i cs)), Inr v) \<in> set (snd q)) \<and>
      (\<forall>j < i. \<exists>e. (CgWritable (path_of (ms @ take j cs)), Inl e) \<in> set (snd q))) \<or>
    (r = Inl errNoCgroupDelegation \<and>
      (\<forall>j \<le> length cs. \<exists>e. (CgWritable (path_of (ms @ take j cs)), Inl e) \<in> set (snd q)))"
proof -
  have "path_of cs = CHR ''/'' # join_with ''/'' cs" using assms(5) path_of_join [of cs] by simp
  then have start: "join_path [path_of ms, trim_prefix (path_of cs) ''/''] = path_of (ms @ cs)"
    using join_path_normals [OF assms(1-3)] by (simp add: trim_prefix_slash)
  obtain b p2 where climb: "climb K (path_of ms) (path_of (ms @ cs)) [] p1 = (b, p2)" by (meson surj_pair)
  obtain best where b: "b = Inr best"
  proof -
    have "\<exists>x. fst (climb K m cur best p) = Inr x" for m cur best p
      by (induction K m cur best p rule: climb.induct) (subst climb.simps, auto simp: Let_def split: prod.split)
    then show ?thesis using climb that by (metis fst_conv)
  qed
  have result: "(r, q) = (if best = [] then (Inl errNoCgroupDelegation, p2) else (Inr best, p2))"
    using assms(4,6) climb b by (auto simp: delegated_root_def andthen_def start fail_def ret_def)
  consider (none) "best = []" "\<forall>j \<le> length cs. \<exists>e. (CgWritable (path_of (ms @ take j cs)), Inl e) \<in> set (snd p2)"
    | (some) i v where "i \<le> length cs" "best = path_of (ms @ take i cs)" "(CgWritable best, Inr v) \<in> set (snd p2)"
      "\<forall>j < i. \<exists>e. (CgWritable (path_of (ms @ take j cs)), Inl e) \<in> set (snd p2)"
    using climb_highest [OF assms(1-3) climb [unfolded b]] by blast
  then show ?thesis
  proof cases
    case none
    then show ?thesis using result by simp
  next
    case some
    then have "best \<noteq> []" using assms(2) by simp
    then have rq: "r = Inr best" "q = p2" using result by auto
    show ?thesis using some(1,3,4) unfolding rq some(2) by blast
  qed
qed

lemma delegated_root_highest_witness:
  "fst (delegated_root cg_machine ''/cg'' ((), [])) = Inr ''/cg/user''"
proof -
  let ?p = "((), [(CgRead ''/proc/self/cgroup'', Inr (CgText ''0::/user/session''))])"
  have own: "own_cgroup_path cg_machine ((), []) = (Inr (path_of [''user'', ''session'']), ?p)"
    by (simp add: own_cgroup_path_def scan_lines_def max_scan_token_size_def drop_cr_def cut_prefix_def
        andthen_def wrap_eff_def syscall_def sys_def lift_def)
  have "climb cg_machine ''/cg'' ''/cg/user/session'' [] ?p = (Inr ''/cg/user'', ((), snd ?p @
      [(CgWritable ''/cg/user/session'', Inr CgOk), (CgWritable ''/cg/user'', Inr CgOk), (CgWritable ''/cg'', Inl (EOTHER 13))]))"
    by code_simp
  moreover have "join_path [''/cg'', trim_prefix ''/user/session'' ''/''] = ''/cg/user/session''" by code_simp
  ultimately obtain q where q: "delegated_root cg_machine ''/cg'' ((), []) = (Inr ''/cg/user'', q)"
    using own by (simp add: delegated_root_def andthen_def ret_def)
  show ?thesis
    using delegated_root_highest [of "[''cg'']" "[''user'', ''session'']" cg_machine "((), [])" ?p "Inr ''/cg/user''" q] own q
    by (simp add: normal_def)
qed

subsection \<open>A container whose limits cannot be enforced is refused\<close>

lemma removed_never_ok:
  "(case x of Inl e \<Rightarrow> andthen (attempt s) (\<lambda>_. fail e) | Inr u \<Rightarrow> ret u) p = (Inr (), q) \<longleftrightarrow> x = Inr () \<and> q = p"
  by (cases x) (auto simp: andthen_Inr fail_Inr ret_Inr)


definition limited_resources :: linux_resources where
  "limited_resources = empty_resources\<lparr>res_memory := Some \<lparr>mem_limit = Some 67108864, mem_reservation = None,
     mem_swap = Some 134217728, mem_swappiness = None, mem_disable_oom_killer = None\<rparr>,
     res_cpu := Some \<lparr>cpu_shares = Some 1024, cpu_quota = Some 50000, cpu_period = None, cpu_cpus = ''0-1'', cpu_mems = []\<rparr>\<rparr>"

definition limited_linux :: linux where
  "limited_linux = empty_linux\<lparr>lx_resources := Some limited_resources\<rparr>"

definition limited_spec :: spec where
  "limited_spec = \<lparr>spec_version = ''1.2.0'', spec_process = None, spec_root = None, spec_hostname = [],
     spec_domainname = [], spec_mounts = [], spec_hooks = None, spec_annotations = [], spec_linux = Some limited_linux\<rparr>"

lemma enable_example: "fst (enable_controllers cg_machine ''/cg'' ''/cg/lightpod/web'' p) = Inr ()"
proof -
  have paths: "rel_path ''/cg'' (dir_of ''/cg/lightpod/web'') = Inr ''lightpod''"
    "join_path [''/cg'', ''cgroup.controllers''] = ''/cg/cgroup.controllers''"
    "join_path [''/cg'', ''lightpod''] = ''/cg/lightpod''"
    and wanted: "wanted_controllers ''cpuset cpu io memory hugetlb pids'' = [''+cpuset'', ''+cpu'', ''+io'', ''+memory'', ''+pids'']"
    by code_simp+
  show ?thesis
    by (cases p) (simp add: enable_controllers_def paths wanted andthen_def wrap_eff_def syscall_def sys_def lift_def
        attempt_def ret_def Let_def)
qed


subsection \<open>The limits as they are written\<close>

text \<open>
  What the specification's numbers mean, over the integers: a limit that is not positive is
  \<open>max\<close>; version 1 counts memory and swap together, version 2 swap alone; shares from 2 to 262144
  become weights from 1 to 10000.
\<close>

definition limit_text :: "int \<Rightarrow> string" where
  "limit_text v = (if v \<le> 0 then ''max'' else format_nat (nat v))"

definition memory_writes :: "linux_memory \<Rightarrow> (string \<times> string) list" where
  "memory_writes m =
     (case mem_limit m of None \<Rightarrow> [] | Some l \<Rightarrow> [(''memory.max'', limit_text (sint l))]) @
     (case mem_reservation m of None \<Rightarrow> [] | Some l \<Rightarrow> [(''memory.low'', limit_text (sint l))]) @
     (case (mem_swap m, mem_limit m) of
        (Some s, Some l) \<Rightarrow> [(''memory.swap.max'', limit_text (if sint s \<le> 0 then sint s else sint s - sint l))]
      | _ \<Rightarrow> [])"

definition cpu_writes :: "linux_cpu \<Rightarrow> (string \<times> string) list" where
  "cpu_writes c =
     (case cpu_quota c of None \<Rightarrow> [] | Some q \<Rightarrow>
        [(''cpu.max'', limit_text (sint q) @ '' '' @
           format_nat (case cpu_period c of None \<Rightarrow> 100000 | Some t \<Rightarrow> if t = 0 then 100000 else unat t))]) @
     (case cpu_shares c of None \<Rightarrow> [] | Some s \<Rightarrow>
        if s = 0 then [] else [(''cpu.weight'', format_nat (1 + (unat s - 2) * 9999 div 262142))]) @
     (if cpu_cpus c = [] then [] else [(''cpuset.cpus'', cpu_cpus c)]) @
     (if cpu_mems c = [] then [] else [(''cpuset.mems'', cpu_mems c)])"

definition limit_writes :: "linux_resources \<Rightarrow> (string \<times> string) list" where
  "limit_writes r =
     (case res_memory r of None \<Rightarrow> [] | Some m \<Rightarrow> memory_writes m) @
     (case res_cpu r of None \<Rightarrow> [] | Some c \<Rightarrow> cpu_writes c) @
     (case res_pids r of None \<Rightarrow> [] | Some p \<Rightarrow> [(''pids.max'', limit_text (sint (pids_limit p)))])"

text \<open>The range in which no conversion wraps around.\<close>

definition in_range :: "linux_resources \<Rightarrow> bool" where
  "in_range r \<longleftrightarrow>
     (case res_memory r of None \<Rightarrow> True | Some m \<Rightarrow>
        (case (mem_swap m, mem_limit m) of (Some s, Some l) \<Rightarrow> sint s - sint l < 2 ^ 63 | _ \<Rightarrow> True)) \<and>
     (case res_cpu r of None \<Rightarrow> True | Some c \<Rightarrow>
        (case cpu_shares c of None \<Rightarrow> True | Some s \<Rightarrow> s = 0 \<or> (2 \<le> s \<and> s \<le> 262144)))"

lemma format_limit_text: "format_limit v = limit_text (sint v)"
  by (simp add: format_limit_def limit_text_def word_sle_eq format_int_def)

lemma shares_in_range:
  assumes "2 \<le> s" "s \<le> 262144"
  shows "unat (shares_to_weight s) = 1 + (unat s - 2) * 9999 div 262142 \<and>
    1 \<le> unat (shares_to_weight s) \<and> unat (shares_to_weight s) \<le> 10000"
proof -
  have s: "2 \<le> unat s" "unat s \<le> 262144"
    using assms by (simp_all add: word_le_nat_alt)
  define d where "d = s - 2"
  have diff: "unat d = unat s - 2" using assms(1) by (simp add: d_def unat_sub)
  have "unat d * 9999 < 2 ^ 64" using s diff by simp
  then have prod: "unat (d * 9999) = unat d * 9999" by (simp add: unat_word_ariths)
  have quot: "unat ((d * 9999) div 262142) = unat d * 9999 div 262142"
    by (simp add: unat_div prod)
  have le: "unat d * 9999 div 262142 \<le> 9999"
    using s diff by (intro div_le_mono [of _ "262142 * 9999" 262142, simplified]) simp
  have w: "unat (1 + (d * 9999) div 262142) = 1 + unat d * 9999 div 262142"
    using le by (simp add: unat_word_ariths quot)
  have "s \<noteq> 0" using s by auto
  then show ?thesis
    unfolding shares_to_weight_def Let_def d_def [symmetric] diff [symmetric]
    using le by (simp add: word_less_nat_alt w)
qed

lemma diff_in_range:
  fixes s l :: int64
  assumes "0 < sint s" "sint s - sint l < 2 ^ 63"
  shows "sint (s - l) = sint s - sint l"
proof -
  have "- (2 ^ 63) \<le> sint s - sint l" using assms(1) sint_lt [of l] by simp
  then show ?thesis using assms(2) by (simp add: sint_word_ariths(2) signed_take_bit_int_eq_self)
qed

lemma cg_write_log: "cg_write K m f v p = (Inr u, q) \<Longrightarrow> map fst (snd q) = map fst (snd p) @ [CgWrite (join_path [cg_path m, f]) v]"
proof -
  assume run: "cg_write K m f v p = (Inr u, q)"
  obtain r p1 where 1: "syscall K (CgWrite (join_path [cg_path m, f]) v) p = (r, p1)" by (meson surj_pair)
  have "p1 = q" using run 1 by (cases r) (auto simp: cg_write_def Let_def andthen_def attempt_def fail_def ret_def split: if_splits)
  then show ?thesis using syscall_log [OF 1] by auto
qed

definition cg_writes :: "cgroup_manager \<Rightarrow> (string \<times> string) list \<Rightarrow> cg_call list" where
  "cg_writes m ws = map (\<lambda>(f, v). CgWrite (join_path [cg_path m, f]) v) ws"

text \<open>\<open>fulfils m ws prog\<close>: when \<open>prog\<close> succeeds its calls were exactly the writes \<open>ws\<close>.\<close>

definition fulfils :: "cgroup_manager \<Rightarrow> (string \<times> string) list \<Rightarrow> ('k, unit) cg_prog \<Rightarrow> bool" where
  "fulfils m ws prog \<longleftrightarrow> (\<forall>p q. prog p = (Inr (), q) \<longrightarrow> map fst (snd q) = map fst (snd p) @ cg_writes m ws)"

lemma fulfils_write: "fulfils m [(f, v)] (cg_write K m f v)"
  unfolding fulfils_def cg_writes_def using cg_write_log by fastforce

lemma fulfils_ret: "fulfils m [] (ret ())"
  by (simp add: fulfils_def ret_def cg_writes_def)

lemma fulfils_then: "fulfils m as s \<Longrightarrow> fulfils m bs t \<Longrightarrow> fulfils m (as @ bs) (andthen s (\<lambda>_. t))"
  unfolding fulfils_def by (fastforce simp: andthen_Inr cg_writes_def)

lemma fulfils_option: "(x = None \<Longrightarrow> fulfils m as s) \<Longrightarrow> (\<And>y. x = Some y \<Longrightarrow> fulfils m (bs y) (t y)) \<Longrightarrow>
    fulfils m (case x of None \<Rightarrow> as | Some y \<Rightarrow> bs y) (case x of None \<Rightarrow> s | Some y \<Rightarrow> t y)"
  by (cases x) simp_all

lemma fulfils_memory:
  assumes "case (mem_swap mem, mem_limit mem) of (Some s, Some l) \<Rightarrow> sint s - sint l < 2 ^ 63 | _ \<Rightarrow> True"
  shows "fulfils m (memory_writes mem) (set_memory K m mem)"
proof -
  have "fulfils m (case (mem_swap mem, mem_limit mem) of
        (Some s, Some l) \<Rightarrow> [(''memory.swap.max'', limit_text (if sint s \<le> 0 then sint s else sint s - sint l))]
      | _ \<Rightarrow> [])
     (case mem_swap mem of None \<Rightarrow> ret () | Some swap \<Rightarrow> (case mem_limit mem of None \<Rightarrow> ret () | Some l \<Rightarrow>
       cg_write K m ''memory.swap.max'' (format_limit (if swap \<le>s 0 then swap else swap - l))))"
    using assms by (auto split: option.split simp: fulfils_ret format_limit_text word_sle_eq diff_in_range intro!: fulfils_write)
  then show ?thesis
    unfolding set_memory_def memory_writes_def
    by (auto intro!: fulfils_then fulfils_option fulfils_ret fulfils_write simp: format_limit_text)
qed

lemma fulfils_cpu:
  assumes "case cpu_shares c of None \<Rightarrow> True | Some s \<Rightarrow> s = 0 \<or> (2 \<le> s \<and> s \<le> 262144)"
  shows "fulfils m (cpu_writes c) (set_cpu K m c)"
proof -
  have weight: "format_nat (unat (shares_to_weight s)) = format_nat (1 + (unat s - 2) * 9999 div 262142)"
    if "cpu_shares c = Some s" "s \<noteq> 0" for s
    using shares_in_range [of s] assms that by simp
  have period: "unat (case cpu_period c of None \<Rightarrow> 100000 | Some per \<Rightarrow> if 0 < per then per else 100000) =
      (case cpu_period c of None \<Rightarrow> 100000 | Some t \<Rightarrow> if t = 0 then 100000 else unat t)"
    by (auto split: option.split simp: word_neq_0_conv)
  have quota: "(if 0 <s q then format_int (sint q) else ''max'') = limit_text (sint q)" for q :: int64
    by (auto simp: limit_text_def word_sless_alt format_int_def)
  have 1: "fulfils m (case cpu_quota c of None \<Rightarrow> [] | Some q \<Rightarrow>
        [(''cpu.max'', limit_text (sint q) @ '' '' @
           format_nat (case cpu_period c of None \<Rightarrow> 100000 | Some t \<Rightarrow> if t = 0 then 100000 else unat t))])
      (case cpu_quota c of None \<Rightarrow> ret () | Some q \<Rightarrow>
        let period = (case cpu_period c of None \<Rightarrow> 100000 | Some per \<Rightarrow> if 0 < per then per else 100000);
            quota = (if 0 <s q then format_int (sint q) else ''max'')
        in cg_write K m ''cpu.max'' (quota @ '' '' @ format_nat (unat period)))"
    unfolding Let_def period quota by (intro fulfils_option fulfils_ret fulfils_write)
  have 2: "fulfils m (case cpu_shares c of None \<Rightarrow> [] | Some s \<Rightarrow>
        if s = 0 then [] else [(''cpu.weight'', format_nat (1 + (unat s - 2) * 9999 div 262142))])
      (case cpu_shares c of None \<Rightarrow> ret () | Some s \<Rightarrow>
        if 0 < s then cg_write K m ''cpu.weight'' (format_nat (unat (shares_to_weight s))) else ret ())"
    by (intro fulfils_option) (auto intro: fulfils_ret fulfils_write simp: weight word_neq_0_conv)
  have 3: "fulfils m (if x = [] then [] else [(f, x)]) (if x \<noteq> [] then cg_write K m f x else ret ())" for x f
    by (auto intro: fulfils_ret fulfils_write)
  show ?thesis
    unfolding set_cpu_def cpu_writes_def by (intro fulfils_then 1 2 3)
qed

lemma fulfils_resources:
  assumes "\<not> cg_disabled m" and "in_range r"
  shows "fulfils m (limit_writes r) (set_resources K m (Some r))"
proof -
  have mem: "fulfils m (case res_memory r of None \<Rightarrow> [] | Some x \<Rightarrow> memory_writes x)
      (case res_memory r of None \<Rightarrow> ret () | Some x \<Rightarrow> set_memory K m x)"
    using assms(2) by (intro fulfils_option fulfils_ret fulfils_memory) (simp add: in_range_def)
  have cpu: "fulfils m (case res_cpu r of None \<Rightarrow> [] | Some x \<Rightarrow> cpu_writes x)
      (case res_cpu r of None \<Rightarrow> ret () | Some x \<Rightarrow> set_cpu K m x)"
    using assms(2) by (intro fulfils_option fulfils_ret fulfils_cpu) (simp add: in_range_def)
  have pids: "fulfils m (case res_pids r of None \<Rightarrow> [] | Some x \<Rightarrow> [(''pids.max'', limit_text (sint (pids_limit x)))])
      (case res_pids r of None \<Rightarrow> ret () | Some x \<Rightarrow> cg_write K m ''pids.max'' (format_limit (pids_limit x)))"
    unfolding format_limit_text by (intro fulfils_option fulfils_ret fulfils_write)
  show ?thesis
    unfolding limit_writes_def set_resources_def using assms(1) by (simp add: fulfils_then mem cpu pids)
qed

lemma fulfilsD: "fulfils m ws prog \<Longrightarrow> prog p = (Inr (), q) \<Longrightarrow> map fst (snd q) = map fst (snd p) @ cg_writes m ws"
  unfolding fulfils_def by blast


definition web_cgroup :: cgroup_manager where
  "web_cgroup = \<lparr>cg_path = ''/cg/lightpod/web'', cg_disabled = False\<rparr>"

lemma set_resources_example: "\<exists>l. set_resources cg_machine web_cgroup (Some limited_resources) ((), []) = (Inr (), ((), l))"
  by (simp add: set_resources_def web_cgroup_def limited_resources_def empty_resources_def set_memory_def set_cpu_def
      cg_write_def andthen_def attempt_def syscall_def sys_def ret_def Let_def)

lemma limited_in_range: "in_range limited_resources"
  by (simp add: in_range_def limited_resources_def empty_resources_def word_le_nat_alt)


text \<open>
  Weights rise with shares over the whole range of version 1 and stay between 1 and 10000; one
  share, which is below that range but positive, wraps around and becomes the largest weight.
\<close>

theorem cpu_weight_range:
  assumes "2 \<le> s" "s \<le> t" "t \<le> 262144"
  shows "shares_to_weight 2 = 1 \<and> 1 \<le> shares_to_weight s \<and> shares_to_weight s \<le> shares_to_weight t \<and>
    shares_to_weight t \<le> 10000 \<and> shares_to_weight 262144 = 10000 \<and> shares_to_weight 1 = 10000"
proof -
  have s: "2 \<le> s" "s \<le> 262144" and t: "2 \<le> t" "t \<le> 262144" using assms by auto
  have "unat s \<le> unat t" using assms(2) by (simp add: word_le_nat_alt)
  then have "(unat s - 2) * 9999 div 262142 \<le> (unat t - 2) * 9999 div 262142" by (intro div_le_mono) simp
  then have "shares_to_weight s \<le> shares_to_weight t"
    using shares_in_range [OF s] shares_in_range [OF t] by (simp add: word_le_nat_alt)
  moreover have "1 \<le> shares_to_weight s" "shares_to_weight t \<le> 10000"
    using shares_in_range [OF s] shares_in_range [OF t] by (simp_all add: word_le_nat_alt)
  moreover have "shares_to_weight 2 = 1" "shares_to_weight 262144 = 10000" "shares_to_weight 1 = 10000"
    by (simp_all add: shares_to_weight_def)
  ultimately show ?thesis by blast
qed

lemma cpu_weight_range_witness: "shares_to_weight 1024 \<le> 10000"
  using cpu_weight_range [of 1024 1024] by simp

text \<open>
  A container given memory and swap limits that are equal, which asks for no swap at all, is
  given unlimited swap.
\<close>

theorem no_swap_becomes_unlimited:
  assumes "res_memory r = Some mem" "mem_limit mem = Some l" "mem_swap mem = Some l" and "0 <s l"
    and "set_resources K m (Some r) p = (Inr (), q)" and "\<not> cg_disabled m" and "in_range r"
  shows "CgWrite (join_path [cg_path m, ''memory.swap.max'']) ''max'' \<in> set (map fst (snd q))"
proof -
  have "(''memory.swap.max'', ''max'') \<in> set (limit_writes r)"
    using assms(1-4) by (simp add: limit_writes_def memory_writes_def limit_text_def word_sless_alt)
  then show ?thesis
    using fulfilsD [OF fulfils_resources [OF assms(6,7)] assms(5)] by (force simp: cg_writes_def)
qed

definition no_swap :: linux_resources where
  "no_swap = empty_resources\<lparr>res_memory := Some \<lparr>mem_limit = Some 64, mem_reservation = None, mem_swap = Some 64,
     mem_swappiness = None, mem_disable_oom_killer = None\<rparr>\<rparr>"

lemma no_swap_becomes_unlimited_witness:
  "\<exists>l. set_resources cg_machine web_cgroup (Some no_swap) ((), []) = (Inr (), ((), l)) \<and>
     CgWrite (join_path [''/cg/lightpod/web'', ''memory.swap.max'']) ''max'' \<in> set (map fst l)"
proof -
  have "\<exists>l. set_resources cg_machine web_cgroup (Some no_swap) ((), []) = (Inr (), ((), l))"
    by (simp add: set_resources_def web_cgroup_def no_swap_def empty_resources_def set_memory_def
      cg_write_def andthen_def attempt_def syscall_def sys_def ret_def Let_def)
  then obtain l where l: "set_resources cg_machine web_cgroup (Some no_swap) ((), []) = (Inr (), ((), l))" by blast
  show ?thesis
    using no_swap_becomes_unlimited [OF _ _ _ _ l] l
    by (simp add: no_swap_def empty_resources_def web_cgroup_def in_range_def word_sless_alt)
qed

end
