(* ===== verification/Namespaces.thy ===== *)
theory Namespaces
  imports Effects Go_Scanner Oci_Load Privilege_Mode
begin

section \<open>Namespaces and id maps (pkg/runtime/ns.go)\<close>

text \<open>
  The clone flags of a specification, the uid and gid mappings of its user namespace, how they are
  installed for the child, and joining the namespaces given by path. The files, the user database
  and the ids of the caller are parameters; writing a file, running a helper and joining a
  namespace are calls of the world.
\<close>

unbundle bit_operations_syntax

subsection \<open>Clone flags\<close>

definition CLONE_NEWNS :: uint64 where "CLONE_NEWNS = 0x20000"
definition CLONE_NEWCGROUP :: uint64 where "CLONE_NEWCGROUP = 0x2000000"
definition CLONE_NEWUTS :: uint64 where "CLONE_NEWUTS = 0x4000000"
definition CLONE_NEWIPC :: uint64 where "CLONE_NEWIPC = 0x8000000"
definition CLONE_NEWUSER :: uint64 where "CLONE_NEWUSER = 0x10000000"
definition CLONE_NEWPID :: uint64 where "CLONE_NEWPID = 0x20000000"
definition CLONE_NEWNET :: uint64 where "CLONE_NEWNET = 0x40000000"

definition namespace_flag :: "namespace_type \<Rightarrow> uint64 result" where
  "namespace_flag t =
     (if t = UTSNamespace then Inr CLONE_NEWUTS
      else if t = IPCNamespace then Inr CLONE_NEWIPC
      else if t = NetworkNamespace then Inr CLONE_NEWNET
      else if t = PIDNamespace then Inr CLONE_NEWPID
      else if t = MountNamespace then Inr CLONE_NEWNS
      else if t = UserNamespace then Inr CLONE_NEWUSER
      else if t = CgroupNamespace then Inr CLONE_NEWCGROUP
      else if t = TimeNamespace then Inl (Errorf ''time namespaces are not supported yet'' [])
      else Inl (Errorf ''unknown namespace type %q'' [t]))"

definition add_namespace :: "namespace \<Rightarrow> uint64 \<Rightarrow> uint64 result" where
  "add_namespace ns flags =
     (if ns_path ns \<noteq> [] then Inr flags
      else ebind (namespace_flag (ns_type ns)) (\<lambda>f. Inr (flags OR f)))"

definition clone_flags :: "spec \<Rightarrow> uint64 result" where
  "clone_flags spec =
     (case spec_linux spec of None \<Rightarrow> Inr 0 | Some l \<Rightarrow> each add_namespace (lx_namespaces l) 0)"

subsection \<open>Id mappings\<close>

text \<open>
  \<open>read_file\<close> opens a file and reads it; \<open>lookup_id\<close> is \<^verbatim>\<open>user.LookupId\<close>, the user name of a uid
  written in decimal.
\<close>

definition sub_id_line :: "string list \<Rightarrow> string \<Rightarrow> (uint32 \<times> uint32) option" where
  "sub_id_line names line =
     (case split_on CHR '':'' (trim_space line) of
        [name, start, count] \<Rightarrow>
          if name \<notin> set names then None
          else (case parse_uint 32 start of
                  Inl _ \<Rightarrow> None
                | Inr s \<Rightarrow> (case parse_uint 32 count of Inl _ \<Rightarrow> None | Inr c \<Rightarrow> Some (of_nat s, of_nat c)))
      | _ \<Rightarrow> None)"

definition sub_id_range ::
  "(string \<Rightarrow> string result) \<Rightarrow> (string \<Rightarrow> string option) \<Rightarrow> string \<Rightarrow> uint32 \<Rightarrow> (uint32 \<times> uint32) result" where
  "sub_id_range read_file lookup_id path i =
     ebind (ewrap ''opening %s: %w'' [path] (read_file path)) (\<lambda>text.
     let number = format_nat (unat i);
         names = (case lookup_id number of None \<Rightarrow> [number] | Some name \<Rightarrow> [number, name]);
         (ls, too_long) = scan_lines text
     in case first_some (sub_id_line names) ls of
          Some r \<Rightarrow> Inr r
        | None \<Rightarrow>
            if too_long then Inl (Wrapf ''reading %s: %w'' [path] (Errorf ''bufio.Scanner: token too long'' []))
            else Inl (Errorf ''no subordinate id range for %d in %s'' [number, path]))"

definition default_mapping :: "uint32 \<Rightarrow> (uint32 \<times> uint32) result \<Rightarrow> id_mapping list" where
  "default_mapping host sub =
     \<lparr>map_container_id = 0, map_host_id = host, map_size = 1\<rparr> #
     (case sub of
        Inl _ \<Rightarrow> []
      | Inr (start, count) \<Rightarrow>
          if 0 < count then [\<lparr>map_container_id = 1, map_host_id = start, map_size = count\<rparr>] else [])"

definition id_mappings ::
  "(string \<Rightarrow> string result) \<Rightarrow> (string \<Rightarrow> string option) \<Rightarrow> uint32 \<Rightarrow> uint32 \<Rightarrow> spec \<Rightarrow> privilege_mode \<Rightarrow>
   id_mapping list \<times> id_mapping list" where
  "id_mappings read_file lookup_id uid gid spec mode =
     (case spec_linux spec of
        Some l \<Rightarrow>
          if lx_uid_mappings l \<noteq> [] then (lx_uid_mappings l, lx_gid_mappings l)
          else if mode = ModeRootfull then ([], [])
          else (default_mapping uid (sub_id_range read_file lookup_id ''/etc/subuid'' uid),
                default_mapping gid (sub_id_range read_file lookup_id ''/etc/subgid'' gid))
      | None \<Rightarrow>
          if mode = ModeRootfull then ([], [])
          else (default_mapping uid (sub_id_range read_file lookup_id ''/etc/subuid'' uid),
                default_mapping gid (sub_id_range read_file lookup_id ''/etc/subgid'' gid)))"

text \<open>\<^verbatim>\<open>isSelfMapping\<close>.\<close>

definition is_self_mapping :: "id_mapping list \<Rightarrow> uint32 \<Rightarrow> bool" where
  "is_self_mapping ms self \<longleftrightarrow>
     length ms = 1 \<and> map_size (ms ! 0) = 1 \<and> map_host_id (ms ! 0) = self"

subsection \<open>Installing them\<close>

datatype ns_call =
    PutProc string string
  | RunTool string "string list"
  | OpenNs string
  | Setns int
  | CloseNs int

datatype ns_answer = NsOk | NsFd int | NsExit bool string

type_synonym 'k ns_world = "(ns_call, ns_answer, 'k) world"
type_synonym ('k, 'a) ns_prog = "(ns_call, ns_answer, 'k, 'a) prog"

definition map_line :: "id_mapping \<Rightarrow> string" where
  "map_line m = format_nat (unat (map_container_id m)) @ '' '' @ format_nat (unat (map_host_id m)) @ '' '' @
     format_nat (unat (map_size m)) @ [CHR 0x0A]"

definition write_map_file :: "'k ns_world \<Rightarrow> string \<Rightarrow> id_mapping list \<Rightarrow> ('k, unit) ns_prog" where
  "write_map_file K path ms =
     (if ms = [] then ret ()
      else andthen (wrap_eff ''writing %s: %w'' [path] (syscall K (PutProc path (concat (map map_line ms))))) (\<lambda>_. ret ()))"

definition helper_args :: "int \<Rightarrow> id_mapping list \<Rightarrow> string list" where
  "helper_args pid ms =
     format_int pid # concat (map (\<lambda>m. [format_nat (unat (map_container_id m)), format_nat (unat (map_host_id m)),
       format_nat (unat (map_size m))]) ms)"

definition run_id_map_helper :: "'k ns_world \<Rightarrow> string \<Rightarrow> int \<Rightarrow> id_mapping list \<Rightarrow> ('k, unit) ns_prog" where
  "run_id_map_helper K tool pid ms =
     (if ms = [] then ret ()
      else
        andthen (wrap_eff ''%s failed: %w'' [tool] (syscall K (RunTool tool (helper_args pid ms)))) (\<lambda>a.
        case a of
          NsExit False stderr \<Rightarrow>
            fail (Errorf ''%s failed: (stderr: %s). Rootless containers need the uidmap package installed and an /etc/subuid entry for this user''
              [tool, trim_space stderr])
        | _ \<Rightarrow> ret ()))"

definition write_id_maps ::
  "'k ns_world \<Rightarrow> uint32 \<Rightarrow> uint32 \<Rightarrow> int \<Rightarrow> id_mapping list \<Rightarrow> id_mapping list \<Rightarrow> privilege_mode \<Rightarrow> ('k, unit) ns_prog" where
  "write_id_maps K uid gid pid uids gids mode =
     (if uids = [] \<and> gids = [] then ret ()
      else
        let proc = ''/proc/'' @ format_int pid
        in if mode = ModeRootfull \<or> (is_self_mapping uids uid \<and> is_self_mapping gids gid) then
             andthen (attempt (syscall K (PutProc (proc @ ''/setgroups'') ''deny''))) (\<lambda>r.
             case r of
               Inl e \<Rightarrow>
                 if e \<noteq> Errno ENOENT then fail (Wrapf ''denying setgroups for pid %d: %w'' [format_int pid] e)
                 else andthen (write_map_file K (proc @ ''/uid_map'') uids) (\<lambda>_. write_map_file K (proc @ ''/gid_map'') gids)
             | Inr _ \<Rightarrow>
                 andthen (write_map_file K (proc @ ''/uid_map'') uids) (\<lambda>_. write_map_file K (proc @ ''/gid_map'') gids))
           else
             andthen (run_id_map_helper K ''newuidmap'' pid uids) (\<lambda>_. run_id_map_helper K ''newgidmap'' pid gids))"

subsection \<open>Joining\<close>

definition join_namespace :: "'k ns_world \<Rightarrow> namespace \<Rightarrow> ('k, unit) ns_prog" where
  "join_namespace K ns =
     (if ns_path ns = [] then ret ()
      else
        andthen (wrap_eff ''opening namespace %s: %w'' [ns_path ns] (syscall K (OpenNs (ns_path ns)))) (\<lambda>a.
        let fd = (case a of NsFd n \<Rightarrow> n | _ \<Rightarrow> 0)
        in andthen (attempt (syscall K (Setns fd))) (\<lambda>r.
           andthen (attempt (syscall K (CloseNs fd))) (\<lambda>_.
           lift (ewrap ''joining %s namespace at %s: %w'' [ns_type ns, ns_path ns] (ebind r (\<lambda>_. Inr ())))))))"

definition join_namespaces :: "'k ns_world \<Rightarrow> spec \<Rightarrow> ('k, unit) ns_prog" where
  "join_namespaces K spec =
     (case spec_linux spec of None \<Rightarrow> ret () | Some l \<Rightarrow> for_each (join_namespace K) (lx_namespaces l))"

end
