(* ===== verification/Namespace_Safety.thy ===== *)
theory Namespace_Safety
  imports Namespaces
begin

section \<open>What the namespaces and id maps guarantee\<close>

text \<open>
  The flags are exactly the namespaces asked for; setgroups is denied before a map is written; a
  rootless container is given ids its user was assigned.
\<close>

subsection \<open>Clone flags\<close>

definition known_namespaces :: "namespace_type list" where
  "known_namespaces = [UTSNamespace, IPCNamespace, NetworkNamespace, PIDNamespace, MountNamespace,
     UserNamespace, CgroupNamespace]"

definition flag_bit :: "namespace_type \<Rightarrow> nat" where
  "flag_bit t =
     (if t = UTSNamespace then 26 else if t = IPCNamespace then 27 else if t = NetworkNamespace then 30
      else if t = PIDNamespace then 29 else if t = MountNamespace then 17 else if t = UserNamespace then 28 else 25)"

lemma namespace_flag_known:
  "t \<in> set known_namespaces \<Longrightarrow> namespace_flag t = Inr (push_bit (flag_bit t) 1)"
  by (auto simp: known_namespaces_def namespace_flag_def flag_bit_def CLONE_NEWNS_def CLONE_NEWCGROUP_def
      CLONE_NEWUTS_def CLONE_NEWIPC_def CLONE_NEWUSER_def CLONE_NEWPID_def CLONE_NEWNET_def)

lemma namespace_flag_ok: "is_ok (namespace_flag t) \<longleftrightarrow> t \<in> set known_namespaces"
  by (auto simp: known_namespaces_def namespace_flag_def)

lemma flag_bit_inj: "t \<in> set known_namespaces \<Longrightarrow> u \<in> set known_namespaces \<Longrightarrow> flag_bit t = flag_bit u \<Longrightarrow> t = u"
  by (auto simp: known_namespaces_def flag_bit_def split: if_splits)

definition asked_for :: "namespace list \<Rightarrow> namespace_type \<Rightarrow> bool" where
  "asked_for nss t \<longleftrightarrow> list_ex (\<lambda>ns. ns_type ns = t \<and> ns_path ns = []) nss"

lemma flag_bit_small: "flag_bit t < 64"
  by (simp add: flag_bit_def)

lemma each_add_namespace:
  "case each add_namespace nss f of
     Inl _ \<Rightarrow> list_ex (\<lambda>ns. ns_path ns = [] \<and> ns_type ns \<notin> set known_namespaces) nss
   | Inr g \<Rightarrow> list_all (\<lambda>ns. ns_path ns = [] \<longrightarrow> ns_type ns \<in> set known_namespaces) nss \<and>
       (\<forall>t \<in> set known_namespaces. bit g (flag_bit t) \<longleftrightarrow> bit f (flag_bit t) \<or> asked_for nss t)"
proof (induction nss arbitrary: f)
  case (Cons ns nss)
  show ?case
  proof (cases "ns_path ns \<noteq> []")
    case True
    then show ?thesis using Cons [of f] by (auto simp: add_namespace_def asked_for_def split: sum.splits)
  next
    case path: False
    show ?thesis
    proof (cases "ns_type ns \<in> set known_namespaces")
      case True
      let ?g = "f OR push_bit (flag_bit (ns_type ns)) 1"
      have step: "add_namespace ns f = Inr ?g" using path namespace_flag_known [OF True] by (simp add: add_namespace_def)
      have bits: "bit ?g (flag_bit t) \<longleftrightarrow> bit f (flag_bit t) \<or> t = ns_type ns" if "t \<in> set known_namespaces" for t
        using flag_bit_inj [OF that True] flag_bit_small [of t]
        by (auto simp: bit_or_iff bit_exp_iff)
      show ?thesis
        using Cons [of ?g] step path True bits by (auto simp: asked_for_def split: sum.splits)
    next
      case False
      then obtain e where "namespace_flag (ns_type ns) = Inl e"
        using namespace_flag_ok [of "ns_type ns"] by (cases "namespace_flag (ns_type ns)") auto
      then show ?thesis using path False by (simp add: add_namespace_def)
    qed
  qed
qed (simp add: asked_for_def)

text \<open>
  C25. The clone flags contain exactly the namespaces the specification lists without a path; the
  ones with a path are left to be joined. A kind that is unknown, or the time namespace, is an
  error and never dropped.
\<close>

theorem clone_flags_exact:
  assumes "spec_linux spec = Some l"
  shows "case clone_flags spec of
     Inl _ \<Rightarrow> \<exists>ns \<in> set (lx_namespaces l). ns_path ns = [] \<and> ns_type ns \<notin> set known_namespaces
   | Inr flags \<Rightarrow> (\<forall>ns \<in> set (lx_namespaces l). ns_path ns = [] \<longrightarrow> ns_type ns \<in> set known_namespaces) \<and>
       (\<forall>t \<in> set known_namespaces.
          bit flags (flag_bit t) \<longleftrightarrow> (\<exists>ns \<in> set (lx_namespaces l). ns_type ns = t \<and> ns_path ns = []))"
  using each_add_namespace [of "lx_namespaces l" 0] assms
  by (auto simp: clone_flags_def asked_for_def list_ex_iff list_all_iff split: sum.splits)

definition pod_linux :: linux where
  "pod_linux = empty_linux\<lparr>lx_namespaces := [\<lparr>ns_type = PIDNamespace, ns_path = []\<rparr>,
     \<lparr>ns_type = NetworkNamespace, ns_path = ''/proc/7/ns/net''\<rparr>]\<rparr>"

definition pod_spec :: spec where
  "pod_spec = \<lparr>spec_version = ''1.2.0'', spec_process = None, spec_root = None, spec_hostname = [],
     spec_domainname = [], spec_mounts = [], spec_hooks = None, spec_annotations = [], spec_linux = Some pod_linux\<rparr>"

lemma clone_flags_exact_witness:
  "clone_flags pod_spec = Inr CLONE_NEWPID \<and> bit CLONE_NEWPID (flag_bit PIDNamespace) \<and>
   \<not> bit CLONE_NEWPID (flag_bit NetworkNamespace)"
proof -
  have flags: "clone_flags pod_spec = Inr CLONE_NEWPID"
    by (simp add: clone_flags_def pod_spec_def pod_linux_def empty_linux_def add_namespace_def namespace_flag_def)
  show ?thesis
    using clone_flags_exact [of pod_spec pod_linux] flags
    by (simp add: pod_spec_def pod_linux_def empty_linux_def known_namespaces_def)
qed

subsection \<open>Installing the maps\<close>

text \<open>
  C23. When the maps are installed, a caller who may write them itself denied setgroups first, unless
  the kernel has no such file, and then wrote the uid map and the gid map, one line per mapping;
  any other caller left both to the helpers, with every mapping as arguments. Nothing else is written.
\<close>

theorem maps_installed_in_order:
  assumes "write_id_maps K uid gid pid uids gids mode p = (Inr (), q)" and "uids \<noteq> []" "gids \<noteq> []"
  shows "map fst (snd q) = map fst (snd p) @
    (if mode = ModeRootfull \<or> (is_self_mapping uids uid \<and> is_self_mapping gids gid)
     then [PutProc (''/proc/'' @ format_int pid @ ''/setgroups'') ''deny'',
           PutProc (''/proc/'' @ format_int pid @ ''/uid_map'') (concat (map map_line uids)),
           PutProc (''/proc/'' @ format_int pid @ ''/gid_map'') (concat (map map_line gids))]
     else [RunTool ''newuidmap'' (helper_args pid uids), RunTool ''newgidmap'' (helper_args pid gids)])"
proof -
  have wrote: "map fst (snd q) = map fst (snd p) @ [PutProc f (concat (map map_line ms))]"
    if "write_map_file K f ms p = (Inr u, q)" "ms \<noteq> []" for f ms p q u
    using that by (auto simp: write_map_file_def andthen_Inr wrap_eff_Inr ret_Inr dest!: syscall_Inr_log simp del: split_paired_Ex)
  have tool: "map fst (snd q) = map fst (snd p) @ [RunTool t (helper_args pid ms)]"
    if "run_id_map_helper K t pid ms p = (Inr u, q)" "ms \<noteq> []" for t ms p q u
  proof -
    obtain r p1 where 1: "syscall K (RunTool t (helper_args pid ms)) p = (r, p1)" by (meson surj_pair)
    have "p1 = q"
      using that 1 by (cases r) (auto simp: run_id_map_helper_def andthen_def wrap_eff_def fail_def ret_def
        split: ns_answer.splits bool.splits)
    then show ?thesis using syscall_log [OF 1] by auto
  qed
  show ?thesis
  proof (cases "mode = ModeRootfull \<or> (is_self_mapping uids uid \<and> is_self_mapping gids gid)")
    case True
    let ?proc = "''/proc/'' @ format_int pid"
    obtain r p1 where 1: "syscall K (PutProc (?proc @ ''/setgroups'') ''deny'') p = (r, p1)" by (meson surj_pair)
    obtain p2 where 2: "write_map_file K (?proc @ ''/uid_map'') uids p1 = (Inr (), p2)"
      and 3: "write_map_file K (?proc @ ''/gid_map'') gids p2 = (Inr (), q)"
      using assms True 1
      by (cases r; auto simp: write_id_maps_def Let_def andthen_Inr attempt_Inr fail_Inr split: if_splits simp del: split_paired_Ex)
    show ?thesis
      using wrote [OF 2 assms(2)] wrote [OF 3 assms(3)] syscall_log [OF 1] True by auto
  next
    case False
    then obtain p1 where 1: "run_id_map_helper K ''newuidmap'' pid uids p = (Inr (), p1)"
      and 2: "run_id_map_helper K ''newgidmap'' pid gids p1 = (Inr (), q)"
      using assms by (auto simp: write_id_maps_def Let_def andthen_Inr simp del: split_paired_Ex)
    show ?thesis using tool [OF 1 assms(2)] tool [OF 2 assms(3)] False by simp
  qed
qed

fun ns_machine :: "unit ns_world" where
  "ns_machine (OpenNs p) k = (Inr (NsFd 9), k)"
| "ns_machine (RunTool t as) k = (Inr (NsExit True []), k)"
| "ns_machine _ k = (Inr NsOk, k)"

lemma maps_installed_in_order_witness:
  "map fst (snd (snd (write_id_maps ns_machine 1000 100 7
      [\<lparr>map_container_id = 0, map_host_id = 1000, map_size = 1\<rparr>]
      [\<lparr>map_container_id = 0, map_host_id = 100, map_size = 1\<rparr>] ModeRootless ((), [])))) =
   [PutProc ''/proc/7/setgroups'' ''deny'', PutProc ''/proc/7/uid_map'' (''0 1000 1'' @ [CHR 0x0A]),
    PutProc ''/proc/7/gid_map'' (''0 100 1'' @ [CHR 0x0A])]"
proof -
  let ?us = "[\<lparr>map_container_id = 0, map_host_id = 1000, map_size = 1\<rparr> :: id_mapping]"
  let ?gs = "[\<lparr>map_container_id = 0, map_host_id = 100, map_size = 1\<rparr> :: id_mapping]"
  have texts: "format_int 7 = ''7''" "concat (map map_line ?us) = ''0 1000 1'' @ [CHR 0x0A]"
    "concat (map map_line ?gs) = ''0 100 1'' @ [CHR 0x0A]"
    by (simp_all add: format_int_def map_line_def format_nat.simps digit_char_def char_of_def bit_Suc_0_iff)
  have "\<exists>q. write_id_maps ns_machine 1000 100 7 ?us ?gs ModeRootless ((), []) = (Inr (), q)"
    by (simp add: write_id_maps_def is_self_mapping_def write_map_file_def andthen_def attempt_def wrap_eff_def
        syscall_def sys_def ret_def Let_def)
  then obtain q where q: "write_id_maps ns_machine 1000 100 7 ?us ?gs ModeRootless ((), []) = (Inr (), q)" by blast
  show ?thesis
    using maps_installed_in_order [OF q] q texts by (simp add: is_self_mapping_def)
qed

subsection \<open>Which ids a rootless container may use\<close>

definition authorised :: "string list \<Rightarrow> string \<Rightarrow> uint32 \<Rightarrow> bool" where
  "authorised names text i \<longleftrightarrow>
     (\<exists>line \<in> set (fst (scan_lines text)). \<exists>start count. sub_id_line names line = Some (start, count) \<and>
        unat start \<le> unat i \<and> unat i < unat start + unat count)"

lemma sub_id_range_line:
  assumes "sub_id_range read_file lookup_id path i = Inr (start, count)"
  shows "\<exists>text. read_file path = Inr text \<and>
    (\<exists>line \<in> set (fst (scan_lines text)).
       sub_id_line (case lookup_id (format_nat (unat i)) of None \<Rightarrow> [format_nat (unat i)]
         | Some name \<Rightarrow> [format_nat (unat i), name]) line = Some (start, count))"
proof -
  let ?names = "case lookup_id (format_nat (unat i)) of None \<Rightarrow> [format_nat (unat i)] | Some name \<Rightarrow> [format_nat (unat i), name]"
  obtain t where t: "read_file path = Inr t"
    using assms by (cases "read_file path") (auto simp: sub_id_range_def)
  obtain ls long where ls: "scan_lines t = (ls, long)" by fastforce
  have "first_some (sub_id_line ?names) ls = Some (start, count)"
    using assms t ls
    by (cases "first_some (sub_id_line ?names) ls") (simp_all add: sub_id_range_def Let_def split: if_splits)
  then show ?thesis using t ls by (auto simp: first_some_Some)
qed


text \<open>A host with two users; \<open>alice\<close> is user 1000 of group 100, \<open>bob\<close> is user 100.\<close>

definition host_users :: "string \<Rightarrow> string option" where
  "host_users n = (if n = ''1000'' then Some ''alice'' else if n = ''100'' then Some ''bob'' else None)"

definition host_files :: "string \<Rightarrow> string result" where
  "host_files p =
     (if p = ''/etc/subuid'' \<or> p = ''/etc/subgid''
      then Inr (''alice:200000:65536'' @ [CHR 0x0A] @ ''bob:300000:65536'' @ [CHR 0x0A])
      else Inl (Errno ENOENT))"

lemma host_lookup:
  "sub_id_range host_files host_users ''/etc/subuid'' 1000 = Inr (200000, 65536)"
  "sub_id_range host_files host_users ''/etc/subgid'' 100 = Inr (300000, 65536)"
  by (simp_all add: sub_id_range_def host_files_def host_users_def scan_lines_def max_scan_token_size_def drop_cr_def
      format_nat.simps digit_char_def char_of_def bit_Suc_0_iff sub_id_line_def trim_space_def is_space_def
      parse_uint_def digit_val_def)

definition user_spec :: spec where
  "user_spec = pod_spec\<lparr>spec_linux := Some empty_linux\<rparr>"


text \<open>
  The group ranges are looked up under the name of the user whose uid equals the caller's gid:
  with uid 1000 and gid 100, alice is given the range of bob, who is user 100, and not her own.
\<close>

theorem subgid_range_of_another_user:
  "snd (id_mappings host_files host_users 1000 100 user_spec ModeRootless) =
     [\<lparr>map_container_id = 0, map_host_id = 100, map_size = 1\<rparr>,
      \<lparr>map_container_id = 1, map_host_id = 300000, map_size = 65536\<rparr>]"
  by (simp add: id_mappings_def user_spec_def empty_linux_def default_mapping_def host_lookup)

end
