(* ===== verification/Handshake.thy ===== *)
theory Handshake
  imports Go_Prelude
begin

section \<open>The handshake of create (sync.go, container.go, init.go)\<close>

text \<open>
  While a container is created two processes work in turn: the host side in \<^verbatim>\<open>Create\<close> and the
  container side in \<^verbatim>\<open>InitStage1\<close>, \<^verbatim>\<open>InitStage2\<close> and \<^verbatim>\<open>initSetup\<close>. They share a socket pair, one
  message per step, and a pipe for the configuration. Each side is a script of actions; a step
  relation runs the two scripts in every interleaving, with every failure.
\<close>

subsection \<open>Messages (sync.go)\<close>

datatype sync_type = NsReady | MapsReady | HookPoint | HooksDone | ProcReady | SyncError

fun sync_text :: "sync_type \<Rightarrow> string" where
  "sync_text NsReady = ''nsReady''"
| "sync_text MapsReady = ''mapsReady''"
| "sync_text HookPoint = ''hookPoint''"
| "sync_text HooksDone = ''hooksDone''"
| "sync_text ProcReady = ''procReady''"
| "sync_text SyncError = ''error''"

record sync_message =
  msg_type :: sync_type
  msg_text :: string

definition plain :: "sync_type \<Rightarrow> sync_message" where
  "plain t = \<lparr>msg_type = t, msg_text = []\<rparr>"

text \<open>What \<^verbatim>\<open>await\<close> makes of a message, and of the end of the stream.\<close>

definition await_message :: "sync_type \<Rightarrow> sync_message \<Rightarrow> unit result" where
  "await_message expect m =
     (if msg_type m = expect then Inr ()
      else if msg_type m = SyncError then Inl (Errorf (msg_text m) [])
      else Inl (Errorf ''expected sync message %q but got %q'' [sync_text expect, sync_text (msg_type m)]))"

definition await_eof :: "sync_type \<Rightarrow> goerr" where
  "await_eof expect = Errorf ''waiting for %q: the other side exited unexpectedly'' [sync_text expect]"

subsection \<open>The two scripts\<close>

datatype stage =
    Reexec
    \<comment> \<open>stage 1 replaces itself by stage 2\<close>
  | Identity
    \<comment> \<open>id maps, cgroup, limits\<close>
  | Setup
    \<comment> \<open>join namespaces, hostname, every mount\<close>
  | HostHooks
    \<comment> \<open>prestart and createRuntime\<close>
  | ContainerHooks
  | Pivot
  | SaveCreated
  | WaitStart
    \<comment> \<open>block on the FIFO, startContainer hooks, then the user's command\<close>

datatype action =
    PutConfig
  | TakeConfig
  | Send sync_type
  | Await sync_type
  | Work stage

definition host_script :: "action list" where
  "host_script = [PutConfig, Await NsReady, Work Identity, Send MapsReady, Await HookPoint,
     Work HostHooks, Send HooksDone, Await ProcReady, Work SaveCreated]"

definition init_script :: "action list" where
  "init_script = [Send NsReady, Await MapsReady, Work Reexec, TakeConfig, Work Setup, Send HookPoint, Await HooksDone,
     Work ContainerHooks, Work Pivot, Send ProcReady, Work WaitStart]"

text \<open>
  The container side reports a failed \<^verbatim>\<open>exec\<close> of stage 2 and every failure of \<^verbatim>\<open>initSetup\<close> with
  \<^verbatim>\<open>sendError\<close> as long as its socket is open, up to its last message; the other steps of stage 1 and
  the reading of the configuration return without a message. The host side reports failed hooks.
\<close>

definition init_reports :: "nat \<Rightarrow> bool" where
  "init_reports i \<longleftrightarrow> i = 2 \<or> (4 \<le> i \<and> i \<le> 9)"

definition host_reports :: "nat \<Rightarrow> bool" where
  "host_reports i \<longleftrightarrow> i = 5"

subsection \<open>Steps\<close>

text \<open>
  \<open>capacity\<close> of the config pipe, \<open>size\<close> of the configuration, and whether the host keeps its copy of
  the container's end of the socket pair open, in which case it never sees the end of the stream.
\<close>

record setting =
  capacity :: nat
  size :: nat
  keeps_end :: bool

record handshake =
  host_at :: nat
  init_at :: nat
  host_failed :: bool
  init_gone :: bool
  to_host :: "sync_message list"
  to_init :: "sync_message list"
  put_left :: nat
  in_pipe :: nat
  take_left :: nat

definition start_state :: "setting \<Rightarrow> handshake" where
  "start_state g = \<lparr>host_at = 0, init_at = 0, host_failed = False, init_gone = False, to_host = [], to_init = [],
     put_left = size g, in_pipe = 0, take_left = size g\<rparr>"

text \<open>
  The configuration is encoded before the first byte is written, so its encoding can only fail then; a
  write to the pipe, whose reading end the host keeps open as well, blocks while the pipe is full and
  never fails. A failed host side kills the container and waits for it; its deferred functions then undo the rest.\<close>

definition fail_host :: "handshake \<Rightarrow> handshake" where
  "fail_host s = s\<lparr>host_failed := True, init_gone := True,
     to_init := to_init s @ (if host_reports (host_at s) then [\<lparr>msg_type = SyncError, msg_text = []\<rparr>] else [])\<rparr>"

definition fail_init :: "handshake \<Rightarrow> handshake" where
  "fail_init s = s\<lparr>init_gone := True,
     to_host := to_host s @ (if init_reports (init_at s) then [\<lparr>msg_type = SyncError, msg_text = []\<rparr>] else [])\<rparr>"

definition host_next :: "handshake \<Rightarrow> action option" where
  "host_next s = (if host_failed s \<or> length host_script \<le> host_at s then None else Some (host_script ! host_at s))"

definition init_next :: "handshake \<Rightarrow> action option" where
  "init_next s = (if init_gone s \<or> length init_script \<le> init_at s then None else Some (init_script ! init_at s))"

inductive step :: "setting \<Rightarrow> handshake \<Rightarrow> handshake \<Rightarrow> bool" for g :: setting where
  put: "host_next s = Some PutConfig \<Longrightarrow> 0 < put_left s \<Longrightarrow> in_pipe s < capacity g \<Longrightarrow>
    k = min (put_left s) (capacity g - in_pipe s) \<Longrightarrow>
    step g s (s\<lparr>put_left := put_left s - k, in_pipe := in_pipe s + k\<rparr>)"
| put_done: "host_next s = Some PutConfig \<Longrightarrow> put_left s = 0 \<Longrightarrow> step g s (s\<lparr>host_at := Suc (host_at s)\<rparr>)"
| host_send: "host_next s = Some (Send t) \<Longrightarrow>
    step g s (s\<lparr>host_at := Suc (host_at s), to_init := to_init s @ [plain t]\<rparr>)"
| host_await: "host_next s = Some (Await t) \<Longrightarrow> to_host s = m # ms \<Longrightarrow> await_message t m = Inr () \<Longrightarrow>
    step g s (s\<lparr>host_at := Suc (host_at s), to_host := ms\<rparr>)"
| host_refused: "host_next s = Some (Await t) \<Longrightarrow> to_host s = m # ms \<Longrightarrow> await_message t m = Inl e \<Longrightarrow>
    step g s (fail_host (s\<lparr>to_host := ms\<rparr>))"
| host_eof: "host_next s = Some (Await t) \<Longrightarrow> to_host s = [] \<Longrightarrow> init_gone s \<Longrightarrow> \<not> keeps_end g \<Longrightarrow>
    step g s (fail_host s)"
| host_work: "host_next s = Some (Work w) \<Longrightarrow> step g s (s\<lparr>host_at := Suc (host_at s)\<rparr>)"
| host_work_fails: "host_next s = Some (Work w) \<Longrightarrow> step g s (fail_host s)"
| host_io_fails: "host_next s = Some a \<Longrightarrow>
    (a = PutConfig \<and> put_left s = size g \<and> in_pipe s = 0) \<or> (\<exists>t. a = Send t) \<Longrightarrow> step g s (fail_host s)"
| take_some: "init_next s = Some TakeConfig \<Longrightarrow> 0 < in_pipe s \<Longrightarrow>
    step g s (s\<lparr>take_left := take_left s - in_pipe s, in_pipe := 0\<rparr>)"
| take_done: "init_next s = Some TakeConfig \<Longrightarrow> take_left s = 0 \<Longrightarrow> step g s (s\<lparr>init_at := Suc (init_at s)\<rparr>)"
| take_fails: "init_next s = Some TakeConfig \<Longrightarrow> take_left s = 0 \<Longrightarrow> step g s (fail_init s)"
| init_send: "init_next s = Some (Send t) \<Longrightarrow>
    step g s (s\<lparr>init_at := Suc (init_at s), to_host := to_host s @ [plain t]\<rparr>)"
| init_io_fails: "init_next s = Some (Send t) \<Longrightarrow> step g s (fail_init s)"
| init_await: "init_next s = Some (Await t) \<Longrightarrow> to_init s = m # ms \<Longrightarrow> await_message t m = Inr () \<Longrightarrow>
    step g s (s\<lparr>init_at := Suc (init_at s), to_init := ms\<rparr>)"
| init_refused: "init_next s = Some (Await t) \<Longrightarrow> to_init s = m # ms \<Longrightarrow> await_message t m = Inl e \<Longrightarrow>
    step g s (fail_init (s\<lparr>to_init := ms\<rparr>))"
| init_work: "init_next s = Some (Work w) \<Longrightarrow> step g s (s\<lparr>init_at := Suc (init_at s)\<rparr>)"
| init_work_fails: "init_next s = Some (Work w) \<Longrightarrow> step g s (fail_init s)"

text \<open>The container side may also be killed at any moment, without a word.\<close>

inductive step_or_kill :: "setting \<Rightarrow> handshake \<Rightarrow> handshake \<Rightarrow> bool" for g :: setting where
  normal_step: "step g s s' \<Longrightarrow> step_or_kill g s s'"
| killed: "\<not> init_gone s \<Longrightarrow> step_or_kill g s (s\<lparr>init_gone := True\<rparr>)"

definition reachable :: "setting \<Rightarrow> handshake \<Rightarrow> bool" where
  "reachable g s \<longleftrightarrow> (step_or_kill g)\<^sup>*\<^sup>* (start_state g) s"

definition finished :: "handshake \<Rightarrow> bool" where
  "finished s \<longleftrightarrow> host_failed s \<or> host_at s = length host_script"

inductive_cases stepE: "step g s s'"
inductive_cases step_or_killE: "step_or_kill g s s'"

subsection \<open>The invariant\<close>

text \<open>What is on its way, by how far the two sides are.\<close>

definition up :: "nat \<Rightarrow> nat \<Rightarrow> sync_message list" where
  "up h i = (if 1 \<le> i \<and> h < 2 then [plain NsReady] else if 6 \<le> i \<and> h < 5 then [plain HookPoint]
     else if 10 \<le> i \<and> h < 8 then [plain ProcReady] else [])"

definition down :: "nat \<Rightarrow> nat \<Rightarrow> sync_message list" where
  "down h i = (if 4 \<le> h \<and> i < 2 then [plain MapsReady] else if 7 \<le> h \<and> i < 7 then [plain HooksDone] else [])"

definition in_step :: "nat \<Rightarrow> nat \<Rightarrow> bool" where
  "in_step h i \<longleftrightarrow> h \<le> 9 \<and> i \<le> 11 \<and> (2 \<le> h \<longrightarrow> 1 \<le> i) \<and> (2 \<le> i \<longrightarrow> 4 \<le> h) \<and> (5 \<le> h \<longrightarrow> 6 \<le> i) \<and>
     (7 \<le> i \<longrightarrow> 7 \<le> h) \<and> (8 \<le> h \<longrightarrow> 10 \<le> i)"

definition invariant :: "setting \<Rightarrow> handshake \<Rightarrow> bool" where
  "invariant g s \<longleftrightarrow> in_step (host_at s) (init_at s) \<and>
     (host_failed s \<longrightarrow> init_gone s) \<and>
     (\<not> host_failed s \<longrightarrow>
        (\<exists>e. to_host s = up (host_at s) (init_at s) @ e \<and> (e = [] \<or> init_gone s \<and> (\<exists>t. e = [\<lparr>msg_type = SyncError, msg_text = t\<rparr>])))) \<and>
     (\<not> init_gone s \<longrightarrow> to_init s = down (host_at s) (init_at s)) \<and>
     take_left s = put_left s + in_pipe s \<and> in_pipe s \<le> capacity g \<and>
     (0 < host_at s \<longrightarrow> put_left s = 0) \<and> (init_at s < 3 \<longrightarrow> take_left s = size g) \<and> (3 < init_at s \<longrightarrow> take_left s = 0)"

lemma host_next_Some:
  "host_next s = Some a \<longleftrightarrow> \<not> host_failed s \<and>
     (host_at s = 0 \<and> a = PutConfig \<or> host_at s = 1 \<and> a = Await NsReady \<or> host_at s = 2 \<and> a = Work Identity \<or>
      host_at s = 3 \<and> a = Send MapsReady \<or> host_at s = 4 \<and> a = Await HookPoint \<or> host_at s = 5 \<and> a = Work HostHooks \<or>
      host_at s = 6 \<and> a = Send HooksDone \<or> host_at s = 7 \<and> a = Await ProcReady \<or> host_at s = 8 \<and> a = Work SaveCreated)"
proof (cases "host_at s < 9")
  case True
  then have "host_at s = 0 \<or> host_at s = 1 \<or> host_at s = 2 \<or> host_at s = 3 \<or> host_at s = 4 \<or> host_at s = 5 \<or>
      host_at s = 6 \<or> host_at s = 7 \<or> host_at s = 8"
    by presburger
  then show ?thesis by (elim disjE) (auto simp: host_next_def host_script_def)
qed (auto simp: host_next_def host_script_def)

lemma init_next_Some:
  "init_next s = Some a \<longleftrightarrow> \<not> init_gone s \<and>
     (init_at s = 0 \<and> a = Send NsReady \<or> init_at s = 1 \<and> a = Await MapsReady \<or> init_at s = 2 \<and> a = Work Reexec \<or>
      init_at s = 3 \<and> a = TakeConfig \<or> init_at s = 4 \<and> a = Work Setup \<or> init_at s = 5 \<and> a = Send HookPoint \<or>
      init_at s = 6 \<and> a = Await HooksDone \<or> init_at s = 7 \<and> a = Work ContainerHooks \<or> init_at s = 8 \<and> a = Work Pivot \<or>
      init_at s = 9 \<and> a = Send ProcReady \<or> init_at s = 10 \<and> a = Work WaitStart)"
proof (cases "init_at s < 11")
  case True
  then have "init_at s = 0 \<or> init_at s = 1 \<or> init_at s = 2 \<or> init_at s = 3 \<or> init_at s = 4 \<or> init_at s = 5 \<or>
      init_at s = 6 \<or> init_at s = 7 \<or> init_at s = 8 \<or> init_at s = 9 \<or> init_at s = 10"
    by presburger
  then show ?thesis by (elim disjE) (auto simp: init_next_def init_script_def)
qed (auto simp: init_next_def init_script_def)

lemma invariant_start: "invariant g (start_state g)"
  by (simp add: invariant_def start_state_def in_step_def up_def down_def)

lemma invariant_fail_host: "invariant g s \<Longrightarrow> invariant g (fail_host s)"
  by (auto simp: invariant_def fail_host_def)

lemma invariant_fail_init:
  assumes "invariant g s" "\<not> init_gone s"
  shows "invariant g (fail_init s)"
proof -
  obtain "\<not> host_failed s" "to_host s = up (host_at s) (init_at s)" using assms by (auto simp: invariant_def)
  then show ?thesis using assms(1) by (auto simp: invariant_def fail_init_def)
qed

lemma invariant_host_await:
  assumes "invariant g s" "host_next s = Some (Await t)" "to_host s = m # ms" "await_message t m = Inr ()"
  shows "invariant g (s\<lparr>host_at := Suc (host_at s), to_host := ms\<rparr>)"
proof -
  have h: "host_at s = 1 \<and> t = NsReady \<or> host_at s = 4 \<and> t = HookPoint \<or> host_at s = 7 \<and> t = ProcReady"
    and live: "\<not> host_failed s"
    using assms(2) by (auto simp: host_next_Some)
  obtain e where e: "to_host s = up (host_at s) (init_at s) @ e"
    "e = [] \<or> init_gone s \<and> (\<exists>t. e = [\<lparr>msg_type = SyncError, msg_text = t\<rparr>])"
    using assms(1) live by (auto simp: invariant_def)
  have "msg_type m = t" using assms(4) by (auto simp: await_message_def split: if_splits)
  then have "up (host_at s) (init_at s) = [m] \<and> ms = e"
    using e h assms(3) by (auto simp: up_def plain_def split: if_splits)
  then have "t = NsReady \<and> 1 \<le> init_at s \<or> t = HookPoint \<and> 6 \<le> init_at s \<or> t = ProcReady \<and> 10 \<le> init_at s"
    and ms: "ms = e"
    using h \<open>msg_type m = t\<close> by (auto simp: up_def plain_def split: if_splits)
  then show ?thesis
    using assms(1) h e(2) live by (elim disjE conjE) (auto simp: invariant_def in_step_def up_def down_def)
qed

lemma invariant_init_await:
  assumes "invariant g s" "init_next s = Some (Await t)" "to_init s = m # ms"
  shows "invariant g (s\<lparr>init_at := Suc (init_at s), to_init := ms\<rparr>)"
proof -
  have i: "init_at s = 1 \<and> t = MapsReady \<or> init_at s = 6 \<and> t = HooksDone" and live: "\<not> init_gone s"
    using assms(2) by (auto simp: init_next_Some)
  then have "to_init s = down (host_at s) (init_at s)" and "\<not> host_failed s" using assms(1) by (auto simp: invariant_def)
  then have "(init_at s = 1 \<and> 4 \<le> host_at s \<or> init_at s = 6 \<and> 7 \<le> host_at s) \<and> ms = []"
    using assms(3) i by (auto simp: down_def split: if_splits)
  then show ?thesis
    using assms(1) live by (elim disjE conjE) (auto simp: invariant_def in_step_def up_def down_def)
qed

lemma invariant_step:
  assumes "step g s s'" "invariant g s"
  shows "invariant g s'"
  using assms
proof (induction rule: step.induct)
  case (put s k)
  then show ?case by (auto simp: invariant_def host_next_Some)
next
  case (host_await s t m ms)
  then show ?case by (simp add: invariant_host_await)
next
  case (host_refused s t m ms e)
  then show ?case by (auto simp: invariant_def fail_host_def)
next
  case (take_some s)
  then show ?case by (auto simp: invariant_def init_next_Some)
next
  case (init_await s t m ms)
  then show ?case by (simp add: invariant_init_await)
next
  case (init_refused s t m ms e)
  then have "invariant g (fail_init s)" by (intro invariant_fail_init) (auto simp: init_next_Some)
  then show ?case by (auto simp: invariant_def fail_init_def)
qed (auto simp: invariant_fail_host invariant_fail_init init_next_Some host_next_Some,
     (auto simp: invariant_def in_step_def up_def down_def)+)

lemma invariant_reachable: "reachable g s \<Longrightarrow> invariant g s"
  unfolding reachable_def
proof (induction rule: rtranclp_induct)
  case base
  show ?case by (rule invariant_start)
next
  case (step s s')
  from step(2,3) show ?case
  proof (cases rule: step_or_kill.cases)
    case killed
    then show ?thesis using step(3) by (auto simp: invariant_def)
  qed (blast intro: invariant_step)
qed

end
