(* ===== verification/Handshake_Safety.thy ===== *)
theory Handshake_Safety
  imports Handshake
begin

section \<open>What the handshake guarantees\<close>

text \<open>
  The stages of create happen in the one order that is safe; the handshake ends as long as the
  container side does not vanish silently and the configuration fits the pipe; and it hangs for ever
  when one of these happens.
\<close>

subsection \<open>Order\<close>

definition host_done :: "handshake \<Rightarrow> stage \<Rightarrow> bool" where
  "host_done s w \<longleftrightarrow> Work w \<in> set (take (host_at s) host_script)"

definition init_done :: "handshake \<Rightarrow> stage \<Rightarrow> bool" where
  "init_done s w \<longleftrightarrow> Work w \<in> set (take (init_at s) init_script)"

lemma done_iff:
  "host_at s \<le> 9 \<Longrightarrow> host_done s Identity \<longleftrightarrow> 3 \<le> host_at s"
  "host_at s \<le> 9 \<Longrightarrow> host_done s HostHooks \<longleftrightarrow> 6 \<le> host_at s"
  "host_at s \<le> 9 \<Longrightarrow> host_done s SaveCreated \<longleftrightarrow> 9 \<le> host_at s"
  "init_at s \<le> 11 \<Longrightarrow> init_done s Reexec \<longleftrightarrow> 3 \<le> init_at s"
  "init_at s \<le> 11 \<Longrightarrow> init_done s Setup \<longleftrightarrow> 5 \<le> init_at s"
  "init_at s \<le> 11 \<Longrightarrow> init_done s ContainerHooks \<longleftrightarrow> 8 \<le> init_at s"
  "init_at s \<le> 11 \<Longrightarrow> init_done s Pivot \<longleftrightarrow> 9 \<le> init_at s"
  by (auto simp: host_done_def init_done_def host_script_def init_script_def take_Cons' split: if_splits)

text \<open>
  C8. In every interleaving, with every failure and at every moment: the container's second stage
  runs only after its id maps and its resource limits are in place; the hooks of the host run only
  when every mount is made and while the root is not pivoted; the container's own hooks and the
  pivot come after them; and a container is recorded as created only after its root is final.
\<close>

theorem stages_in_order:
  assumes "reachable g s"
  shows "(init_done s Reexec \<longrightarrow> host_done s Identity) \<and>
    (host_next s = Some (Work HostHooks) \<longrightarrow> init_done s Setup \<and> \<not> init_done s ContainerHooks \<and> \<not> init_done s Pivot) \<and>
    (host_done s HostHooks \<longrightarrow> init_done s Setup) \<and>
    (init_done s ContainerHooks \<longrightarrow> host_done s HostHooks) \<and>
    (init_done s Pivot \<longrightarrow> host_done s HostHooks) \<and>
    (host_done s SaveCreated \<longrightarrow> init_done s Pivot)"
proof -
  have inv: "in_step (host_at s) (init_at s)" using invariant_reachable [OF assms] by (simp add: invariant_def)
  then have "host_at s \<le> 9" "init_at s \<le> 11" by (simp_all add: in_step_def)
  then show ?thesis using inv by (auto simp: done_iff in_step_def host_next_Some)
qed

lemma stages_in_order_witness: "\<not> host_done (start_state \<lparr>capacity = 65536, size = 4000, keeps_end = True\<rparr>) SaveCreated"
  using stages_in_order [of "\<lparr>capacity = 65536, size = 4000, keeps_end = True\<rparr>" "start_state \<lparr>capacity = 65536, size = 4000, keeps_end = True\<rparr>"]
  by (auto simp: reachable_def init_done_def start_state_def)

subsection \<open>It ends\<close>

definition steps_left :: "handshake \<Rightarrow> nat" where
  "steps_left s = 2 * put_left s + in_pipe s + (9 - host_at s) + (11 - init_at s) +
     (if host_failed s then 0 else 1) + (if init_gone s then 0 else 1)"

lemma steps_left_decreases: "step g s s' \<Longrightarrow> steps_left s' < steps_left s"
  by (induction rule: step.induct)
    (auto simp: steps_left_def host_next_Some init_next_Some fail_host_def fail_init_def)

definition silently_gone :: "handshake \<Rightarrow> bool" where
  "silently_gone s \<longleftrightarrow> init_gone s \<and> \<not> host_failed s \<and> to_host s = []"

lemma await_step:
  assumes "host_next s = Some (Await t)" "to_host s \<noteq> []"
  shows "\<exists>s'. step g s s'"
proof -
  obtain m ms where m: "to_host s = m # ms" using assms(2) by (cases "to_host s") auto
  show ?thesis
  proof (cases "await_message t m")
    case (Inl e)
    then show ?thesis using step.host_refused [OF assms(1) m] by blast
  next
    case (Inr u)
    then show ?thesis using step.host_await [OF assms(1) m] by auto
  qed
qed

lemma await_step_init:
  assumes "init_next s = Some (Await t)" "to_init s \<noteq> []"
  shows "\<exists>s'. step g s s'"
proof -
  obtain m ms where m: "to_init s = m # ms" using assms(2) by (cases "to_init s") auto
  show ?thesis
  proof (cases "await_message t m")
    case (Inl e)
    then show ?thesis using step.init_refused [OF assms(1) m] by blast
  next
    case (Inr u)
    then show ?thesis using step.init_await [OF assms(1) m] by auto
  qed
qed

lemma quiet_down:
  "in_step h i \<Longrightarrow> h = 1 \<or> h = 4 \<or> h = 7 \<Longrightarrow> i = 1 \<or> i = 6 \<Longrightarrow> up h i = [] \<Longrightarrow> down h i \<noteq> []"
  by (elim disjE) (simp_all add: in_step_def up_def down_def)

lemma progress:
  assumes "invariant g s" "\<not> finished s" "size g \<le> capacity g" "\<not> (keeps_end g \<and> silently_gone s)"
  shows "\<exists>s'. step g s s'"
proof -
  have inv: "in_step (host_at s) (init_at s)" and live: "\<not> host_failed s" and h: "host_at s < 9"
    using assms(1,2) by (auto simp: invariant_def in_step_def finished_def host_script_def)
  obtain a where a: "host_next s = Some a" using live h by (simp add: host_next_def host_script_def)
  show ?thesis
  proof (cases "\<exists>t. a = Await t")
    case False
    show ?thesis
    proof (cases "a = PutConfig")
      case True
      show ?thesis
      proof (cases "put_left s = 0")
        case True
        then show ?thesis using step.put_done a \<open>a = PutConfig\<close> by blast
      next
        case False
        have "init_at s < 3" using inv a True by (auto simp: in_step_def host_next_Some)
        then have "put_left s + in_pipe s = size g" using assms(1) by (auto simp: invariant_def)
        then have "in_pipe s < capacity g" using assms(3) False by linarith
        then show ?thesis using step.put [of s g] a True False by blast
      qed
    next
      case other: False
      then show ?thesis using False a step.host_send step.host_work by (cases a) (auto simp: host_next_Some, blast+)
    qed
  next
    case True
    then obtain t where t: "host_next s = Some (Await t)" using a by blast
    show ?thesis
    proof (cases "to_host s = []")
      case False
      then show ?thesis using await_step [OF t] by blast
    next
      case empty: True
      show ?thesis
      proof (cases "init_gone s")
        case True
        then have "\<not> keeps_end g" using assms(4) empty live by (auto simp: silently_gone_def)
        then show ?thesis using step.host_eof [OF t empty True] by blast
      next
        case False
        have up: "up (host_at s) (init_at s) = []" and down: "to_init s = down (host_at s) (init_at s)"
          using assms(1) live False empty by (auto simp: invariant_def)
        have i: "init_at s < 11"
          using up inv t by (auto simp: up_def in_step_def host_next_Some split: if_splits)
        then obtain b where b: "init_next s = Some b" using False by (simp add: init_next_def init_script_def)
        show ?thesis
        proof (cases "\<exists>u. b = Await u")
          case True
          then have "to_init s \<noteq> []"
            unfolding down using b t inv up by (intro quiet_down) (auto simp: host_next_Some init_next_Some)
          then show ?thesis using await_step_init True b by blast
        next
          case no_await: False
          show ?thesis
          proof (cases "b = TakeConfig")
            case True
            have "put_left s = 0" using assms(1) t by (auto simp: invariant_def host_next_Some)
            then have left: "take_left s = in_pipe s" using assms(1) by (simp add: invariant_def)
            show ?thesis
            proof (cases "in_pipe s = 0")
              case True
              have "take_left s = 0" using left True by simp
              then have "step g s (s\<lparr>init_at := Suc (init_at s)\<rparr>)"
                using b \<open>b = TakeConfig\<close> by (intro step.take_done) simp_all
              then show ?thesis by blast
            next
              case False
              then show ?thesis using step.take_some b \<open>b = TakeConfig\<close> by blast
            qed
          next
            case False
            then show ?thesis using no_await b step.init_send step.init_work by (cases b) (auto simp: init_next_Some, blast+)
          qed
        qed
      qed
    qed
  qed
qed


definition small_setting :: setting where
  "small_setting = \<lparr>capacity = 65536, size = 4000, keeps_end = True\<rparr>"

lemma reachable_start: "reachable g (start_state g)"
  by (simp add: reachable_def)

lemma reachable_step: "reachable g s \<Longrightarrow> step g s s' \<Longrightarrow> reachable g s'"
  unfolding reachable_def by (meson rtranclp.rtrancl_into_rtrancl step_or_kill.normal_step)


subsection \<open>It hangs\<close>

text \<open>The state in which the container has read a configuration it could not decode.\<close>

definition undecodable :: "setting \<Rightarrow> handshake" where
  "undecodable g = \<lparr>host_at = 4, init_at = 3, host_failed = False, init_gone = True, to_host = [], to_init = [],
     put_left = 0, in_pipe = 0, take_left = 0\<rparr>"

lemma undecodable_reachable:
  assumes "0 < size g" "size g \<le> capacity g"
  shows "reachable g (undecodable g)"
proof -
  define st where "st h i up down put pipe t = \<lparr>host_at = h, init_at = i, host_failed = False, init_gone = False,
     to_host = up, to_init = down, put_left = put, in_pipe = pipe, take_left = t\<rparr>" for h i up down put pipe t
  have [simp]: "host_next (st h i u d x y z) = (if 9 \<le> h then None else Some (host_script ! h))"
    "init_next (st h i u d x y z) = (if 11 \<le> i then None else Some (init_script ! i))" for h i u d x y z
    by (simp_all add: host_next_def init_next_def st_def host_script_def init_script_def)
  let ?n = "size g"
  have "reachable g (st 0 0 [] [] ?n 0 ?n)"
    using reachable_start [of g] by (simp add: start_state_def st_def)
  moreover have "step g (st 0 0 [] [] ?n 0 ?n) (st 0 0 [] [] 0 ?n ?n)"
    using step.put [of "st 0 0 [] [] ?n 0 ?n" g ?n] assms by (simp add: st_def [of 0 0] host_next_def host_script_def)
  moreover have "step g (st 0 0 [] [] 0 ?n ?n) (st 1 0 [] [] 0 ?n ?n)"
    using step.put_done [of "st 0 0 [] [] 0 ?n ?n" g] by (simp add: st_def host_next_def host_script_def)
  moreover have "step g (st 1 0 [] [] 0 ?n ?n) (st 1 1 [plain NsReady] [] 0 ?n ?n)"
    using step.init_send [of "st 1 0 [] [] 0 ?n ?n" NsReady g] by (simp add: st_def init_next_def init_script_def)
  moreover have "step g (st 1 1 [plain NsReady] [] 0 ?n ?n) (st 2 1 [] [] 0 ?n ?n)"
    using step.host_await [of "st 1 1 [plain NsReady] [] 0 ?n ?n" NsReady "plain NsReady" "[]" g]
    by (simp add: st_def host_next_def host_script_def await_message_def plain_def numeral_2_eq_2)
  moreover have "step g (st 2 1 [] [] 0 ?n ?n) (st 3 1 [] [] 0 ?n ?n)"
    using step.host_work [of "st 2 1 [] [] 0 ?n ?n" Identity g] by (simp add: st_def host_next_def host_script_def)
  moreover have "step g (st 3 1 [] [] 0 ?n ?n) (st 4 1 [] [plain MapsReady] 0 ?n ?n)"
    using step.host_send [of "st 3 1 [] [] 0 ?n ?n" MapsReady g] by (simp add: st_def host_next_def host_script_def)
  moreover have "step g (st 4 1 [] [plain MapsReady] 0 ?n ?n) (st 4 2 [] [] 0 ?n ?n)"
    using step.init_await [of "st 4 1 [] [plain MapsReady] 0 ?n ?n" MapsReady "plain MapsReady" "[]" g]
    by (simp add: st_def init_next_def init_script_def await_message_def plain_def numeral_2_eq_2)
  moreover have "step g (st 4 2 [] [] 0 ?n ?n) (st 4 3 [] [] 0 ?n ?n)"
    using step.init_work [of "st 4 2 [] [] 0 ?n ?n" Reexec g] by (simp add: st_def init_next_def init_script_def)
  moreover have "step g (st 4 3 [] [] 0 ?n ?n) (st 4 3 [] [] 0 0 0)"
    using step.take_some [of "st 4 3 [] [] 0 ?n ?n" g] assms(1) by (simp add: st_def init_next_def init_script_def)
  moreover have "step g (st 4 3 [] [] 0 0 0) (undecodable g)"
    using step.take_fails [of "st 4 3 [] [] 0 0 0" g]
    by (simp add: st_def init_next_def init_script_def undecodable_def fail_init_def init_reports_def)
  ultimately show ?thesis by (meson reachable_step)
qed

text \<open>
  The host keeps its copy of the container's end of the socket open until \<^verbatim>\<open>Create\<close> returns, so a
  container side that ends without a message, as stage 2 does when it cannot read its configuration,
  leaves \<^verbatim>\<open>Create\<close> waiting for ever: no step is possible any more. Without that copy the host
  would see the end of the stream and fail.
\<close>

theorem silent_exit_hangs_create:
  assumes "0 < size g" "size g \<le> capacity g"
  shows "\<exists>s. reachable g s \<and> init_gone s \<and> \<not> finished s \<and>
    (if keeps_end g then \<forall>s'. \<not> step_or_kill g s s' else step g s (fail_host s))"
proof (intro exI conjI)
  show "reachable g (undecodable g)" by (rule undecodable_reachable [OF assms])
  have host: "host_next (undecodable g) = Some (Await HookPoint)" and init: "init_next (undecodable g) = None"
    by (simp_all add: undecodable_def host_next_def init_next_def host_script_def)
  show "init_gone (undecodable g)" "\<not> finished (undecodable g)"
    by (simp_all add: undecodable_def finished_def host_script_def)
  show "if keeps_end g then \<forall>s'. \<not> step_or_kill g (undecodable g) s' else step g (undecodable g) (fail_host (undecodable g))"
  proof (cases "keeps_end g")
    case True
    have "\<not> step_or_kill g (undecodable g) s'" for s'
      using host init True by (auto elim!: step_or_killE stepE) (simp_all add: undecodable_def)
    then show ?thesis using True by simp
  next
    case False
    then show ?thesis using step.host_eof [OF host, of g] by (simp add: undecodable_def)
  qed
qed

lemma silent_exit_hangs_create_witness:
  "\<exists>s. reachable small_setting s \<and> init_gone s \<and> \<not> finished s \<and> (\<forall>s'. \<not> step_or_kill small_setting s s')"
  using silent_exit_hangs_create [of small_setting] by (simp add: small_setting_def)

text \<open>
  A configuration larger than the pipe deadlocks create: the host waits for the pipe to empty
  before it looks at the handshake, and the container reads the pipe only after the handshake. The
  host never gets past the write.
\<close>

theorem large_config_deadlocks:
  assumes "0 < capacity g" "capacity g < size g"
  shows "(\<forall>s. reachable g s \<longrightarrow> host_at s = 0) \<and>
    (\<exists>s. reachable g s \<and> \<not> init_gone s \<and> \<not> finished s \<and> (\<forall>s'. \<not> step g s s'))"
proof
  have "host_at s = 0" if "reachable g s" for s
    using that unfolding reachable_def
  proof (induction rule: rtranclp_induct)
    case base
    show ?case by (simp add: start_state_def)
  next
    case (step s s')
    have "invariant g s" using step(1) by (intro invariant_reachable) (simp add: reachable_def)
    then have "init_at s < 2" "put_left s + in_pipe s = size g" "in_pipe s \<le> capacity g"
      using step(3) by (auto simp: invariant_def in_step_def)
    then have left: "0 < put_left s" using assms(2) by linarith
    from step(2) show ?case
    proof (cases rule: step_or_kill.cases)
      case normal_step
      then show ?thesis using step(3) left
        by (elim stepE) (auto simp: host_next_Some fail_host_def fail_init_def)
    qed (use step(3) in simp)
  qed
  then show "\<forall>s. reachable g s \<longrightarrow> host_at s = 0" by blast
next
  define s1 where "s1 = (start_state g)\<lparr>put_left := size g - capacity g, in_pipe := capacity g\<rparr>"
  define s2 where "s2 = s1\<lparr>init_at := 1, to_host := [plain NsReady]\<rparr>"
  have "step g (start_state g) s1"
    using step.put [of "start_state g" g "capacity g"] assms
    by (simp add: s1_def start_state_def host_next_def host_script_def)
  moreover have "step g s1 s2"
    using step.init_send [of s1 NsReady g]
    by (simp add: s1_def s2_def start_state_def init_next_def init_script_def)
  ultimately have "reachable g s2" using reachable_start by (meson reachable_step)
  moreover have "\<not> step g s2 s'" for s'
  proof -
    have "host_next s2 = Some PutConfig" "init_next s2 = Some (Await MapsReady)" "to_init s2 = []"
      "put_left s2 \<noteq> 0" "in_pipe s2 = capacity g"
      using assms by (simp_all add: s1_def s2_def start_state_def host_next_def init_next_def host_script_def init_script_def)
    then show ?thesis using assms(1) by (auto elim!: stepE)
  qed
  ultimately show "\<exists>s. reachable g s \<and> \<not> init_gone s \<and> \<not> finished s \<and> (\<forall>s'. \<not> step g s s')"
    by (intro exI [of _ s2]) (auto simp: s1_def s2_def start_state_def finished_def host_script_def)
qed

lemma large_config_deadlocks_witness:
  "\<exists>s. reachable \<lparr>capacity = 65536, size = 70000, keeps_end = True\<rparr> s \<and> \<not> finished s \<and>
     (\<forall>s'. \<not> step \<lparr>capacity = 65536, size = 70000, keeps_end = True\<rparr> s s')"
  using large_config_deadlocks [of "\<lparr>capacity = 65536, size = 70000, keeps_end = True\<rparr>"] by auto

end
