(* ===== verification/Hooks.thy ===== *)
theory Hooks
  imports Effects Oci_Spec
begin

section \<open>Hooks (pkg/runtime/hooks.go)\<close>

text \<open>
  A hook is a program run with the container state on its standard input, under a time limit when it
  has one. Running it is one call of the world, which answers whether it succeeded, failed with a
  message and what it wrote to stderr, or was stopped at its limit.
\<close>

datatype hook_call = RunHook string "string list" "string list" oci_state "int64 option"
datatype hook_outcome = HookOk | HookFailed string string | HookTimedOut

type_synonym 'k hook_world = "(hook_call, hook_outcome, 'k) world"
type_synonym ('k, 'a) hook_prog = "(hook_call, hook_outcome, 'k, 'a) prog"

text \<open>\<^verbatim>\<open>time.Duration(*hook.Timeout)*time.Second\<close>: nanoseconds in an int64.\<close>

definition hook_limit :: "hook \<Rightarrow> int64 option" where
  "hook_limit h =
     (case hook_timeout h of None \<Rightarrow> None | Some t \<Rightarrow> if 0 <s t then Some (t * 1000000000) else None)"

definition hook_invocation :: "string list \<Rightarrow> hook \<Rightarrow> oci_state \<Rightarrow> hook_call" where
  "hook_invocation environ h st =
     RunHook (hook_path h) (if hook_args h = [] then [hook_path h] else hook_args h)
       (case hook_env h of None \<Rightarrow> environ | Some env \<Rightarrow> env) st (hook_limit h)"

definition run_hook :: "'k hook_world \<Rightarrow> string list \<Rightarrow> hook \<Rightarrow> oci_state \<Rightarrow> ('k, unit) hook_prog" where
  "run_hook K environ h st =
     andthen (attempt (syscall K (hook_invocation environ h st))) (\<lambda>r.
     case r of
       Inl e \<Rightarrow> fail (Wrapf ''%w (stderr: %s)'' [[]] e)
     | Inr HookOk \<Rightarrow> ret ()
     | Inr HookTimedOut \<Rightarrow>
         fail (Errorf ''timed out after %d seconds''
           [format_int (case hook_timeout h of None \<Rightarrow> 0 | Some t \<Rightarrow> sint t)])
     | Inr (HookFailed msg stderr) \<Rightarrow> fail (Wrapf ''%w (stderr: %s)'' [trim_space stderr] (Errorf msg [])))"

fun run_hooks_from :: "'k hook_world \<Rightarrow> string list \<Rightarrow> oci_state \<Rightarrow> nat \<Rightarrow> hook list \<Rightarrow> ('k, unit) hook_prog" where
  "run_hooks_from K environ st i [] = ret ()"
| "run_hooks_from K environ st i (h # hs) =
     andthen (wrap_eff ''hook %d (%s): %w'' [format_nat i, hook_path h] (run_hook K environ h st)) (\<lambda>_.
     run_hooks_from K environ st (Suc i) hs)"

definition run_hooks :: "'k hook_world \<Rightarrow> string list \<Rightarrow> hook list \<Rightarrow> oci_state \<Rightarrow> ('k, unit) hook_prog" where
  "run_hooks K environ hs st = run_hooks_from K environ st 0 hs"

text \<open>\<^verbatim>\<open>runPoststopHooks\<close>: a failure is printed and forgotten.\<close>

definition run_poststop_hooks :: "'k hook_world \<Rightarrow> string list \<Rightarrow> hook list \<Rightarrow> oci_state \<Rightarrow> ('k, unit) hook_prog" where
  "run_poststop_hooks K environ hs st = andthen (attempt (run_hooks K environ hs st)) (\<lambda>_. ret ())"

subsection \<open>Properties\<close>

definition hook_succeeds :: "errno + hook_outcome \<Rightarrow> bool" where
  "hook_succeeds a \<longleftrightarrow> a = Inr HookOk"

lemma run_hook_cases:
  assumes "run_hook K environ h st p = (r, q)"
  shows "\<exists>a. snd q = snd p @ [(hook_invocation environ h st, a)] \<and> (r = Inr () \<longleftrightarrow> hook_succeeds a)"
proof -
  obtain x p1 where 1: "syscall K (hook_invocation environ h st) p = (x, p1)" by (meson surj_pair)
  have "q = p1" and r: "r = Inr () \<longleftrightarrow> x = Inr HookOk"
    using assms 1 by (cases x; auto simp: run_hook_def andthen_def attempt_def fail_def ret_def split: hook_outcome.splits)+
  then show ?thesis using syscall_log [OF 1] by (auto simp: hook_succeeds_def)
qed

text \<open>
  C26. Hooks run one after the other in the order of the list, each with the state of the container;
  the first that fails or is stopped ends the list with an error, and success means that every one of
  them ran and succeeded.
\<close>

theorem hooks_run_in_order:
  assumes "run_hooks K environ hs st p = (r, q)"
  shows "\<exists>answers. snd q = snd p @ zip (map (\<lambda>h. hook_invocation environ h st) (take (length answers) hs)) answers \<and>
    length answers \<le> length hs \<and>
    (r = Inr () \<longleftrightarrow> length answers = length hs \<and> list_all hook_succeeds answers) \<and>
    (r \<noteq> Inr () \<longrightarrow> answers \<noteq> [] \<and> list_all hook_succeeds (butlast answers) \<and> \<not> hook_succeeds (last answers))"
proof -
  have "\<exists>answers. snd q = snd p @ zip (map (\<lambda>h. hook_invocation environ h st) (take (length answers) hs)) answers \<and>
      length answers \<le> length hs \<and>
      (r = Inr () \<longleftrightarrow> length answers = length hs \<and> list_all hook_succeeds answers) \<and>
      (r \<noteq> Inr () \<longrightarrow> answers \<noteq> [] \<and> list_all hook_succeeds (butlast answers) \<and> \<not> hook_succeeds (last answers))"
    if "run_hooks_from K environ st i hs p = (r, q)" for i
    using that
  proof (induction hs arbitrary: p i)
    case Nil
    then show ?case by (simp add: ret_def)
  next
    case (Cons h hs)
    obtain x p1 where 1: "run_hook K environ h st p = (x, p1)" by (meson surj_pair)
    obtain a where a: "snd p1 = snd p @ [(hook_invocation environ h st, a)]" "x = Inr () \<longleftrightarrow> hook_succeeds a"
      using run_hook_cases [OF 1] by blast
    show ?case
    proof (cases x)
      case (Inl e)
      then have "r \<noteq> Inr ()" "q = p1" using Cons.prems 1 by (auto simp: andthen_def wrap_eff_def)
      then show ?thesis using a Inl by (intro exI [of _ "[a]"]) simp
    next
      case (Inr u)
      then have "run_hooks_from K environ st (Suc i) hs p1 = (r, q)"
        using Cons.prems 1 by (simp add: andthen_def wrap_eff_def)
      then obtain answers where "snd q = snd p1 @ zip (map (\<lambda>h. hook_invocation environ h st) (take (length answers) hs)) answers"
        "length answers \<le> length hs" "r = Inr () \<longleftrightarrow> length answers = length hs \<and> list_all hook_succeeds answers"
        "r \<noteq> Inr () \<longrightarrow> answers \<noteq> [] \<and> list_all hook_succeeds (butlast answers) \<and> \<not> hook_succeeds (last answers)"
        using Cons.IH by blast
      then show ?thesis using a Inr by (intro exI [of _ "a # answers"]) auto
    qed
  qed
  then show ?thesis using assms by (simp add: run_hooks_def)
qed

fun hook_machine :: "unit hook_world" where
  "hook_machine (RunHook path args env st limit) k = (Inr (if path = ''/bad'' then HookFailed ''exit status 1'' [] else HookOk), k)"

definition plain_hook :: "string \<Rightarrow> hook" where
  "plain_hook path = \<lparr>hook_path = path, hook_args = [], hook_env = None, hook_timeout = None\<rparr>"

definition some_state :: oci_state where
  "some_state = \<lparr>st_version = ''1.2.0'', st_id = ''web'', st_status = StatusCreating, st_pid = 41, st_bundle = ''/b'',
     st_annotations = []\<rparr>"

lemma hooks_run_in_order_witness:
  "length (snd (snd (run_hooks hook_machine [] [plain_hook ''/a'', plain_hook ''/bad'', plain_hook ''/c''] some_state ((), [])))) = 2"
proof -
  let ?m = "run_hooks hook_machine [] [plain_hook ''/a'', plain_hook ''/bad'', plain_hook ''/c''] some_state ((), [])"
  have len: "length (snd (snd ?m)) = 2"
    by (simp add: run_hooks_def plain_hook_def run_hook_def hook_invocation_def hook_limit_def andthen_def wrap_eff_def
        attempt_def syscall_def sys_def ret_def fail_def)
  obtain r q where q: "?m = (r, q)" by (meson surj_pair)
  show ?thesis using hooks_run_in_order [OF q] len by simp
qed

text \<open>A time limit of more than about 292 years in nanoseconds wraps around and is over before the hook starts.\<close>

lemma huge_timeout_is_negative:
  "hook_limit (plain_hook ''/a''\<lparr>hook_timeout := Some 9223372037\<rparr>) = Some l \<Longrightarrow> l <s 0"
  by (simp add: hook_limit_def plain_hook_def word_sless_alt)

end
