(* ===== verification/Container.thy ===== *)
theory Container
  imports State_Store Cgroups Namespaces Hooks Handshake Rootfs
begin

section \<open>Containers (pkg/runtime/container.go)\<close>

text \<open>
  The host side of every container operation, composed of the store, the cgroup manager, the id
  maps, the hooks and the handshake. Each component runs on its own kind of call; \<open>embed\<close> runs it on
  the calls of the whole host and keeps its log. File descriptors that are closed again are not
  modelled; the relaying of signals while \<^verbatim>\<open>Run\<close> waits is theory Signal_Relay.
\<close>

subsection \<open>The calls of the host\<close>

datatype host_call =
    StoreCall store_call
  | CgCall cg_call
  | NsCall ns_call
  | HookCall hook_call
  | TimeNow
  | MakeFifo string
  | OpenFifo string
    \<comment> \<open>O_PATH: neither end\<close>
  | MakePipe
  | MakeSockets
  | StartInit uint64
    \<comment> \<open>clone with these flags and exec stage 1\<close>
  | SendConfig init_config

  | RecvMessage
  | SendMessage sync_message
  | KillInit int
  | WaitInit int
  | ReadFifo string
    \<comment> \<open>open the FIFO for reading, read a byte, close it\<close>
  | Signal int int
  | InTime
    \<comment> \<open>is the deadline of waitForExit still ahead\<close>
  | Nap

datatype host_answer =
    StoreAnswer store_answer
  | CgAnswer cg_answer
  | NsAnswer ns_answer
  | HookAnswer hook_outcome
  | Done
  | Stamp string
  | Started int
  | Message sync_message
  | EndOfStream
  | Exit int
  | Flag bool

type_synonym 'k host = "(host_call, host_answer, 'k) world"
type_synonym ('k, 'a) host_prog = "(host_call, host_answer, 'k, 'a) prog"

subsection \<open>Running a component on the host\<close>

text \<open>Both are stated for any kind of call, because the commands and the init process are composed the same way.\<close>

definition sub_world :: "('c \<Rightarrow> 'd) \<Rightarrow> ('w \<Rightarrow> 'v) \<Rightarrow> ('d, 'w, 'k) world \<Rightarrow> ('c, 'v, 'k) world" where
  "sub_world tag out H c k = (case H (tag c) k of (Inl e, k') \<Rightarrow> (Inl e, k') | (Inr v, k') \<Rightarrow> (Inr (out v), k'))"

definition embed ::
  "('c \<Rightarrow> 'd) \<Rightarrow> ('w \<Rightarrow> 'v) \<Rightarrow> ('v \<Rightarrow> 'w) \<Rightarrow> ('c, 'v, 'k, 'a) prog \<Rightarrow> ('d, 'w, 'k, 'a) prog" where
  "embed tag out into m p =
     (case p of (k, log) \<Rightarrow>
        case m (k, []) of (r, (k', l)) \<Rightarrow>
          (r, (k', log @ map (\<lambda>(c, a). (tag c, case a of Inl e \<Rightarrow> Inl e | Inr v \<Rightarrow> Inr (into v))) l)))"

fun store_out :: "host_answer \<Rightarrow> store_answer" where
  "store_out (StoreAnswer a) = a"
| "store_out _ = Ok"

fun cg_out :: "host_answer \<Rightarrow> cg_answer" where
  "cg_out (CgAnswer a) = a"
| "cg_out _ = CgOk"

fun ns_out :: "host_answer \<Rightarrow> ns_answer" where
  "ns_out (NsAnswer a) = a"
| "ns_out _ = NsOk"

fun hook_out :: "host_answer \<Rightarrow> hook_outcome" where
  "hook_out (HookAnswer a) = a"
| "hook_out _ = HookOk"

definition with_store :: "'k host \<Rightarrow> ('k store_world \<Rightarrow> ('k, 'a) store_prog) \<Rightarrow> ('k, 'a) host_prog" where
  "with_store H m = embed StoreCall store_out StoreAnswer (m (sub_world StoreCall store_out H))"

definition with_cgroup :: "'k host \<Rightarrow> ('k cg_world \<Rightarrow> ('k, 'a) cg_prog) \<Rightarrow> ('k, 'a) host_prog" where
  "with_cgroup H m = embed CgCall cg_out CgAnswer (m (sub_world CgCall cg_out H))"

definition with_ns :: "'k host \<Rightarrow> ('k ns_world \<Rightarrow> ('k, 'a) ns_prog) \<Rightarrow> ('k, 'a) host_prog" where
  "with_ns H m = embed NsCall ns_out NsAnswer (m (sub_world NsCall ns_out H))"

definition with_hooks :: "'k host \<Rightarrow> ('k hook_world \<Rightarrow> ('k, 'a) hook_prog) \<Rightarrow> ('k, 'a) host_prog" where
  "with_hooks H m = embed HookCall hook_out HookAnswer (m (sub_world HookCall hook_out H))"

subsection \<open>The handle\<close>

record container =
  ct_id :: string
  ct_bundle :: string
  ct_rootfs :: string
  ct_spec :: "spec option"
    \<comment> \<open>none when the container was adopted\<close>
  ct_mode :: privilege_mode
  ct_no_cgroup :: bool

text \<open>What the operations need of the process: its store, ids, files, clock and environment.\<close>

record host_setting =
  hs_root :: string
  hs_uid :: uint32
  hs_gid :: uint32
  hs_read_file :: "string \<Rightarrow> string result"
  hs_lookup_id :: "string \<Rightarrow> string option"
  hs_environ :: "string list"
  hs_version :: string
  hs_error_text :: "goerr \<Rightarrow> string"
    \<comment> \<open>the Error method\<close>

definition new_container ::
  "string \<Rightarrow> (string \<Rightarrow> bool result) \<Rightarrow> string \<Rightarrow> string \<Rightarrow> spec \<Rightarrow> privilege_mode \<Rightarrow> container result" where
  "new_container cwd stat cid bundle_dir spec mode =
     ebind (validate_id cid) (\<lambda>_.
     ebind (resolve_rootfs cwd stat spec bundle_dir) (\<lambda>rootfs.
     if (case spec_process spec of None \<Rightarrow> True | Some pr \<Rightarrow> proc_args pr = [])
     then Inl (Errorf ''spec has no process.args to execute'' [])
     else Inr \<lparr>ct_id = cid, ct_bundle = abs_path cwd bundle_dir, ct_rootfs = rootfs, ct_spec = Some spec,
               ct_mode = mode, ct_no_cgroup = False\<rparr>))"

definition adopt :: "string \<Rightarrow> container_record \<Rightarrow> privilege_mode \<Rightarrow> container" where
  "adopt cid r mode = \<lparr>ct_id = cid, ct_bundle = rec_bundle r, ct_rootfs = rec_rootfs r, ct_spec = None,
     ct_mode = mode, ct_no_cgroup = False\<rparr>"

definition fifo_path :: "host_setting \<Rightarrow> container \<Rightarrow> string" where
  "fifo_path hs c = join_path [store_dir (hs_root hs) (ct_id c), ''start.fifo'']"

text \<open>The runtime panic of a nil pointer: the goroutine ends, deferred functions run.\<close>

definition nil_dereference :: goerr where
  "nil_dereference = Errorf ''panic: runtime error: invalid memory address or nil pointer dereference'' []"

subsection \<open>Create\<close>

definition await_sync :: "'k host \<Rightarrow> sync_type \<Rightarrow> ('k, unit) host_prog" where
  "await_sync H t =
     andthen (wrap_eff ''waiting for %q: %w'' [sync_text t] (syscall H RecvMessage)) (\<lambda>a.
     case a of Message m \<Rightarrow> lift (await_message t m) | _ \<Rightarrow> fail (await_eof t))"

definition send_sync :: "'k host \<Rightarrow> sync_type \<Rightarrow> ('k, unit) host_prog" where
  "send_sync H t =
     andthen (wrap_eff ''sending sync message %q: %w'' [sync_text t] (syscall H (SendMessage (plain t)))) (\<lambda>_. ret ())"

definition reporting :: "'k host \<Rightarrow> host_setting \<Rightarrow> ('k, unit) host_prog \<Rightarrow> ('k, unit) host_prog" where
  "reporting H hs m =
     andthen (attempt m) (\<lambda>r.
     case r of
       Inr _ \<Rightarrow> ret ()
     | Inl e \<Rightarrow>
         andthen (attempt (syscall H (SendMessage \<lparr>msg_type = SyncError, msg_text = hs_error_text hs e\<rparr>))) (\<lambda>_. fail e))"

definition the_time :: "'k host \<Rightarrow> ('k, string) host_prog" where
  "the_time H =
     andthen (attempt (syscall H TimeNow)) (\<lambda>r.
     ret (case r of Inr (Stamp t) \<Rightarrow> t | _ \<Rightarrow> []))"

text \<open>From the claim to the started init process, whose pid is returned.\<close>

definition make_fifo :: "'k host \<Rightarrow> string \<Rightarrow> ('k, unit) host_prog" where
  "make_fifo H path =
     andthen (attempt (syscall H (MakeFifo path))) (\<lambda>r.
     case r of
       Inl e \<Rightarrow> if is_exist e then ret () else fail (Wrapf ''creating start FIFO: %w'' [] e)
     | Inr _ \<Rightarrow> ret ())"

definition create_setup :: "'k host \<Rightarrow> host_setting \<Rightarrow> container \<Rightarrow> spec \<Rightarrow> ('k, int) host_prog" where
  "create_setup H hs c spec =
     andthen (make_fifo H (fifo_path hs c)) (\<lambda>_.
     andthen (wrap_eff ''opening start FIFO: %w'' [] (syscall H (OpenFifo (fifo_path hs c)))) (\<lambda>_.
     andthen (wrap_eff ''creating config pipe: %w'' [] (syscall H MakePipe)) (\<lambda>_.
     andthen (wrap_eff ''creating sync socket pair: %w'' [] (syscall H MakeSockets)) (\<lambda>_.
     andthen (lift (clone_flags spec)) (\<lambda>flags.
     andthen (wrap_eff ''starting container init process: %w'' [] (syscall H (StartInit flags))) (\<lambda>a.
     ret (case a of Started pid \<Rightarrow> pid | _ \<Rightarrow> 0)))))))"

text \<open>Configuration, identity and the cgroup.\<close>

definition create_identity :: "'k host \<Rightarrow> host_setting \<Rightarrow> container \<Rightarrow> spec \<Rightarrow> int \<Rightarrow> ('k, cgroup_manager) host_prog" where
  "create_identity H hs c spec pid =
     andthen (wrap_eff ''sending config to init process: %w'' []
               (syscall H (SendConfig \<lparr>ic_spec = spec, ic_rootfs = ct_rootfs c, ic_id = ct_id c,
                  ic_bundle = ct_bundle c, ic_mode = ct_mode c, ic_host_pid = pid\<rparr>))) (\<lambda>_.
     andthen (await_sync H NsReady) (\<lambda>_.
     let (uids, gids) = id_mappings (hs_read_file hs) (hs_lookup_id hs) (hs_uid hs) (hs_gid hs) spec (ct_mode c) in
     andthen (with_ns H (\<lambda>K. write_id_maps K (hs_uid hs) (hs_gid hs) pid uids gids (ct_mode c))) (\<lambda>_.
     with_cgroup H (\<lambda>K. new_cgroup_manager K (ct_id c) spec (ct_mode c) (ct_no_cgroup c)))))"

text \<open>The limits, the rest of the handshake with the hooks of the host, and the final record.\<close>

definition creating_state :: "container \<Rightarrow> spec \<Rightarrow> int \<Rightarrow> oci_state" where
  "creating_state c spec pid = \<lparr>st_version = spec_version spec, st_id = ct_id c, st_status = StatusCreating,
     st_pid = pid, st_bundle = ct_bundle c, st_annotations = spec_annotations spec\<rparr>"

definition create_handshake ::
  "'k host \<Rightarrow> host_setting \<Rightarrow> container \<Rightarrow> spec \<Rightarrow> int \<Rightarrow> cgroup_manager \<Rightarrow> ('k, unit) host_prog" where
  "create_handshake H hs c spec pid cg =
     andthen (with_cgroup H (\<lambda>K. cg_apply K cg pid)) (\<lambda>_.
     andthen (case spec_linux spec of None \<Rightarrow> ret () | Some l \<Rightarrow> with_cgroup H (\<lambda>K. set_resources K cg (lx_resources l))) (\<lambda>_.
     andthen (send_sync H MapsReady) (\<lambda>_.
     andthen (await_sync H HookPoint) (\<lambda>_.
     andthen (case spec_hooks spec of
                None \<Rightarrow> ret ()
              | Some hooks \<Rightarrow>
                  andthen (reporting H hs (with_hooks H (\<lambda>K.
                             run_hooks K (hs_environ hs) (hooks_prestart hooks) (creating_state c spec pid)))) (\<lambda>_.
                  reporting H hs (with_hooks H (\<lambda>K.
                             run_hooks K (hs_environ hs) (hooks_create_runtime hooks) (creating_state c spec pid))))) (\<lambda>_.
     andthen (send_sync H HooksDone) (\<lambda>_.
     andthen (await_sync H ProcReady) (\<lambda>_.
     andthen (the_time H) (\<lambda>now.
     with_store H (\<lambda>K. save_record K (hs_root hs)
       \<lparr>rec_schema = 0, rec_id = ct_id c, rec_bundle = ct_bundle c, rec_rootfs = ct_rootfs c, rec_pid = pid,
        rec_status = StatusCreated, rec_cgroup_path = cg_path cg, rec_created = now,
        rec_annotations = spec_annotations spec\<rparr>)))))))))"

text \<open>The deferred functions of a create that failed, last registered first.\<close>

definition quietly :: "('k, 'a) host_prog \<Rightarrow> ('k, unit) host_prog" where
  "quietly m = andthen (attempt m) (\<lambda>_. ret ())"

definition undo_create ::
  "'k host \<Rightarrow> host_setting \<Rightarrow> container \<Rightarrow> int option \<Rightarrow> cgroup_manager option \<Rightarrow> ('k, unit) host_prog" where
  "undo_create H hs c pid cg =
     andthen (case pid of None \<Rightarrow> ret ()
              | Some n \<Rightarrow> andthen (quietly (syscall H (KillInit n))) (\<lambda>_. quietly (syscall H (WaitInit n)))) (\<lambda>_.
     andthen (case cg of None \<Rightarrow> ret () | Some m \<Rightarrow> quietly (with_cgroup H (\<lambda>K. cg_cleanup K m))) (\<lambda>_.
     quietly (with_store H (\<lambda>K. delete_record K (hs_root hs) (ct_id c)))))"

text \<open>The pid stands for \<^verbatim>\<open>c.cmd\<close>, which \<^verbatim>\<open>Run\<close> waits for.\<close>

definition create_claimed :: "'k host \<Rightarrow> host_setting \<Rightarrow> container \<Rightarrow> spec \<Rightarrow> ('k, int) host_prog" where
  "create_claimed H hs c spec p =
     (case create_setup H hs c spec p of
        (Inl e, p1) \<Rightarrow> (Inl e, snd (undo_create H hs c None None p1))
      | (Inr pid, p1) \<Rightarrow>
          (case create_identity H hs c spec pid p1 of
             (Inl e, p2) \<Rightarrow> (Inl e, snd (undo_create H hs c (Some pid) None p2))
           | (Inr cg, p2) \<Rightarrow>
               (case create_handshake H hs c spec pid cg p2 of
                  (Inl e, p3) \<Rightarrow> (Inl e, snd (undo_create H hs c (Some pid) (Some cg) p3))
                | (Inr _, p3) \<Rightarrow> (Inr pid, p3))))"

definition create_container :: "'k host \<Rightarrow> host_setting \<Rightarrow> container \<Rightarrow> ('k, int) host_prog" where
  "create_container H hs c =
     (case ct_spec c of
        None \<Rightarrow> fail nil_dereference
      | Some spec \<Rightarrow>
          andthen (the_time H) (\<lambda>now.
          andthen (with_store H (\<lambda>K. create_record K (hs_root hs)
            (zero_record\<lparr>rec_id := ct_id c, rec_bundle := ct_bundle c, rec_rootfs := ct_rootfs c,
               rec_status := StatusCreating, rec_created := now\<rparr>))) (\<lambda>_.
          create_claimed H hs c spec)))"

subsection \<open>Start, Run, Kill, Delete and State\<close>

definition start_container :: "'k host \<Rightarrow> host_setting \<Rightarrow> container \<Rightarrow> ('k, unit) host_prog" where
  "start_container H hs c =
     andthen (with_store H (\<lambda>K. load_record K (hs_root hs) (ct_id c))) (\<lambda>r.
     if rec_status r \<noteq> StatusCreated
     then fail (Errorf ''cannot start container %q in state %q'' [ct_id c, status_text (rec_status r)])
     else
       andthen (wrap_eff ''opening start FIFO: %w'' [] (syscall H (ReadFifo (fifo_path hs c)))) (\<lambda>_.
       let running = r\<lparr>rec_status := StatusRunning\<rparr> in
       andthen (with_store H (\<lambda>K. save_record K (hs_root hs) running)) (\<lambda>_.
       case ct_spec c of
         None \<Rightarrow> fail nil_dereference
       | Some spec \<Rightarrow>
           (case spec_hooks spec of
              None \<Rightarrow> ret ()
            | Some hooks \<Rightarrow>
                quietly (with_hooks H (\<lambda>K.
                  run_hooks K (hs_environ hs) (hooks_poststart hooks) (to_oci (hs_version hs) running)))))))"

definition run_container :: "'k host \<Rightarrow> host_setting \<Rightarrow> container \<Rightarrow> ('k, int) host_prog" where
  "run_container H hs c =
     andthen (create_container H hs c) (\<lambda>pid.
     andthen (start_container H hs c) (\<lambda>_.
     andthen (wrap_eff ''waiting for container: %w'' [] (syscall H (WaitInit pid))) (\<lambda>a.
     let code = (case a of Exit n \<Rightarrow> n | _ \<Rightarrow> 0) in
     andthen (attempt (with_store H (\<lambda>K. load_record K (hs_root hs) (ct_id c)))) (\<lambda>r.
     andthen (case r of
                Inl _ \<Rightarrow> ret ()
              | Inr record \<Rightarrow>
                  quietly (with_store H (\<lambda>K. save_record K (hs_root hs)
                    (record\<lparr>rec_status := StatusStopped, rec_pid := 0\<rparr>)))) (\<lambda>_.
     ret code)))))"

definition kill_container :: "'k host \<Rightarrow> host_setting \<Rightarrow> container \<Rightarrow> int \<Rightarrow> ('k, unit) host_prog" where
  "kill_container H hs c sig =
     andthen (with_store H (\<lambda>K. load_record K (hs_root hs) (ct_id c))) (\<lambda>r.
     if rec_status r = StatusStopped then fail (Errorf ''container %q is not running'' [ct_id c])
     else
       andthen (wrap_eff ''signalling container %q (pid %d): %w'' [ct_id c, format_int (rec_pid r)]
                 (syscall H (Signal (rec_pid r) sig))) (\<lambda>_. ret ()))"

text \<open>
  \<^verbatim>\<open>waitForExit\<close>: every round sleeps 10 milliseconds and the deadline is 5 seconds away, so 500 rounds
  are enough whatever the process does.
\<close>

definition exit_polls :: nat where
  "exit_polls = 500"

fun wait_for_exit :: "'k host \<Rightarrow> int \<Rightarrow> nat \<Rightarrow> ('k, unit) host_prog" where
  "wait_for_exit H pid 0 = ret ()"
| "wait_for_exit H pid (Suc n) =
     andthen (attempt (syscall H InTime)) (\<lambda>t.
     if t = Inr (Flag False) then ret ()
     else
       andthen (attempt (syscall H (Signal pid 0))) (\<lambda>r.
       case r of
         Inl _ \<Rightarrow> ret ()
       | Inr _ \<Rightarrow> andthen (quietly (syscall H Nap)) (\<lambda>_. wait_for_exit H pid n)))"

abbreviation SIGKILL :: int where "SIGKILL \<equiv> 9"

definition stop_container :: "'k host \<Rightarrow> int \<Rightarrow> ('k, unit) host_prog" where
  "stop_container H pid =
     (if 0 < pid
      then andthen (quietly (syscall H (Signal pid SIGKILL))) (\<lambda>_. wait_for_exit H pid exit_polls)
      else ret ())"

definition delete_container :: "'k host \<Rightarrow> host_setting \<Rightarrow> container \<Rightarrow> bool \<Rightarrow> ('k, unit) host_prog" where
  "delete_container H hs c force =
     andthen (with_store H (\<lambda>K. load_record K (hs_root hs) (ct_id c))) (\<lambda>r.
     andthen (if rec_status r \<noteq> StatusStopped then
                (if \<not> force
                 then fail (Errorf ''container %q is %s; stop it first or pass --force'' [ct_id c, status_text (rec_status r)])
                 else stop_container H (rec_pid r))
              else ret ()) (\<lambda>_.
     andthen (if rec_cgroup_path r \<noteq> []
              then quietly (with_cgroup H (\<lambda>K. cg_cleanup K \<lparr>cg_path = rec_cgroup_path r, cg_disabled = False\<rparr>))
              else ret ()) (\<lambda>_.
     andthen (case ct_spec c of
                None \<Rightarrow> ret ()
              | Some spec \<Rightarrow>
                  (case spec_hooks spec of
                     None \<Rightarrow> ret ()
                   | Some hooks \<Rightarrow>
                       with_hooks H (\<lambda>K.
                         run_poststop_hooks K (hs_environ hs) (hooks_poststop hooks) (to_oci (hs_version hs) r)))) (\<lambda>_.
     with_store H (\<lambda>K. delete_record K (hs_root hs) (ct_id c))))))"

definition container_state :: "'k host \<Rightarrow> host_setting \<Rightarrow> container \<Rightarrow> ('k, oci_state) host_prog" where
  "container_state H hs c =
     andthen (with_store H (\<lambda>K. load_record K (hs_root hs) (ct_id c))) (\<lambda>r. ret (to_oci (hs_version hs) r))"

end
