(* ===== verification/Nvidia.thy ===== *)
theory Nvidia
  imports Effects Go_Paths Oci_Spec
begin

section \<open>GPU support (pkg/device/nvidia.go, nvidia_runtime.go)\<close>

text \<open>
  The environment variables that ask the NVIDIA toolkit for GPUs, the prestart hook that injects
  them, and the run of the toolkit's runtime shim against a bundle with a stub in place of the
  low-level runtime. \<open>getenv\<close> is \<^verbatim>\<open>os.Getenv\<close>, \<open>stat\<close> tells whether a path exists, \<open>look_path\<close> is
  \<^verbatim>\<open>exec.LookPath\<close>.
\<close>

subsection \<open>Environment entries\<close>

definition env_name :: "string \<Rightarrow> string" where
  "env_name kv = fst (cut CHR ''='' kv)"

definition env_list :: "process \<Rightarrow> string list" where
  "env_list pr = (case proc_env pr of None \<Rightarrow> [] | Some kvs \<Rightarrow> kvs)"

definition has_env :: "process \<Rightarrow> string \<Rightarrow> bool" where
  "has_env pr key = list_ex (\<lambda>kv. env_name kv = key) (env_list pr)"

fun set_entry :: "string \<Rightarrow> string \<Rightarrow> string list \<Rightarrow> string list" where
  "set_entry key entry [] = [entry]"
| "set_entry key entry (kv # kvs) =
     (if env_name kv = key then entry # kvs else kv # set_entry key entry kvs)"

definition set_env :: "string \<Rightarrow> string \<Rightarrow> process \<Rightarrow> process" where
  "set_env key value pr = pr\<lparr>proc_env := Some (set_entry key (key @ ''='' @ value) (env_list pr))\<rparr>"

definition set_nvidia_env :: "spec \<Rightarrow> string \<Rightarrow> spec result" where
  "set_nvidia_env spec devices =
     (case spec_process spec of
        None \<Rightarrow> Inl (Errorf ''spec has no process section'' [])
      | Some pr \<Rightarrow>
          let pr1 = set_env ''NVIDIA_VISIBLE_DEVICES'' devices pr;
              pr2 = (if \<not> has_env pr1 ''NVIDIA_DRIVER_CAPABILITIES''
                     then set_env ''NVIDIA_DRIVER_CAPABILITIES'' ''all'' pr1 else pr1)
          in Inr (spec\<lparr>spec_process := Some pr2\<rparr>))"

text \<open>The value the first entry of a name gives it, as getenv(3) in the container reads it.\<close>

fun env_get :: "string \<Rightarrow> string list \<Rightarrow> string option" where
  "env_get key [] = None"
| "env_get key (kv # kvs) =
     (case cut CHR ''='' kv of (name, value, found) \<Rightarrow> if name = key then Some value else env_get key kvs)"

lemma env_get_set_entry:
  assumes "CHR ''='' \<notin> set key"
  shows "env_get k (set_entry key (key @ ''='' @ value) kvs) = (if k = key then Some value else env_get k kvs)"
proof -
  have cut: "cut CHR ''='' (key @ ''='' @ value) = (key, value, True)"
    using cut_found [OF assms] by simp
  show ?thesis
  proof (induction kvs)
    case Nil
    then show ?case using cut by simp
  next
    case (Cons kv kvs)
    then show ?case using cut by (auto simp: env_name_def split: prod.split)
  qed
qed

lemma has_env_get: "has_env pr key \<longleftrightarrow> env_get key (env_list pr) \<noteq> None"
proof -
  have "list_ex (\<lambda>kv. env_name kv = key) kvs \<longleftrightarrow> env_get key kvs \<noteq> None" for kvs
    by (induction kvs) (auto simp: env_name_def split: prod.split)
  then show ?thesis by (simp add: has_env_def)
qed

lemma env_list_set_env:
  "env_list (set_env key value pr) = set_entry key (key @ ''='' @ value) (env_list pr)"
  by (simp add: set_env_def env_list_def)

lemma env_get_set_env:
  "CHR ''='' \<notin> set key \<Longrightarrow>
   env_get k (env_list (set_env key value pr)) = (if k = key then Some value else env_get k (env_list pr))"
  unfolding env_list_set_env by (rule env_get_set_entry)

lemma set_env_only_env: "set_env key value pr = pr\<lparr>proc_env := proc_env (set_env key value pr)\<rparr>"
  by (simp add: set_env_def)

lemma set_env_twice_only_env:
  "set_env k v (set_env k' v' pr) = pr\<lparr>proc_env := proc_env (set_env k v (set_env k' v' pr))\<rparr>"
  by (simp add: set_env_def)

subsection \<open>The prestart hook\<close>

definition hook_binary :: string where
  "hook_binary = ''nvidia-container-runtime-hook''"

definition hook_search_paths :: "string list" where
  "hook_search_paths =
     [''/usr/bin/'' @ hook_binary, ''/usr/local/bin/'' @ hook_binary,
      ''/usr/local/nvidia/toolkit/'' @ hook_binary, ''/sbin/'' @ hook_binary]"

definition find_nvidia_hook :: "(string \<Rightarrow> string) \<Rightarrow> (string \<Rightarrow> unit result) \<Rightarrow> string result" where
  "find_nvidia_hook getenv stat =
     (let custom = getenv ''LIGHTPOD_NVIDIA_HOOK''
      in if custom \<noteq> [] then
           ebind (ewrap ''LIGHTPOD_NVIDIA_HOOK=%s: %w'' [custom] (stat custom)) (\<lambda>_. Inr custom)
         else case find (\<lambda>path. is_ok (stat path)) hook_search_paths of
                Some path \<Rightarrow> Inr path
              | None \<Rightarrow> Inl (Errorf ''%s not found in %s.'' [hook_binary, join_with '', '' hook_search_paths]))"

definition inject_nvidia_hook ::
  "(string \<Rightarrow> string) \<Rightarrow> (string \<Rightarrow> unit result) \<Rightarrow> spec \<Rightarrow> spec result" where
  "inject_nvidia_hook getenv stat spec =
     ebind (find_nvidia_hook getenv stat) (\<lambda>path.
     let hs = (case spec_hooks spec of None \<Rightarrow> empty_hooks | Some h \<Rightarrow> h);
         h = \<lparr>hook_path = path, hook_args = [hook_binary, ''prestart''], hook_env = None, hook_timeout = None\<rparr>
     in Inr (spec\<lparr>spec_hooks := Some (hs\<lparr>hooks_prestart := hooks_prestart hs @ [h]\<rparr>)\<rparr>))"

subsection \<open>The runtime shim\<close>

definition runtime_binary :: string where
  "runtime_binary = ''nvidia-container-runtime''"

definition find_nvidia_runtime ::
  "(string \<Rightarrow> string) \<Rightarrow> (string \<Rightarrow> unit result) \<Rightarrow> (string \<Rightarrow> string result) \<Rightarrow> string option" where
  "find_nvidia_runtime getenv stat look_path =
     (let custom = getenv ''LIGHTPOD_NVIDIA_RUNTIME''
      in if custom \<noteq> [] then (if is_ok (stat custom) then Some custom else None)
         else case look_path runtime_binary of Inl _ \<Rightarrow> None | Inr path \<Rightarrow> Some path)"

text \<open>
  The calls of \<^verbatim>\<open>PrepareBundleWithNVIDIA\<close>. Running the shim answers whether it exited with
  success, and what it wrote to stderr.
\<close>

datatype shim_call =
    MkdirTemp string
  | PutFile string string uint32
  | GetFile string
  | RunShim string "string list" "string list"
  | StatFile string
  | RemoveAll string

datatype shim_answer = Nothing | Text string | Exited bool string

fun text_of :: "shim_answer \<Rightarrow> string" where
  "text_of (Text s) = s"
| "text_of _ = []"

type_synonym 'k shim = "(shim_call, shim_answer, 'k) world"
type_synonym ('k, 'a) shim_prog = "(shim_call, shim_answer, 'k, 'a) prog"

definition run_shim :: "'k shim \<Rightarrow> string \<Rightarrow> string list \<Rightarrow> string list \<Rightarrow> ('k, unit) shim_prog" where
  "run_shim K path args env =
     andthen (wrap_eff ''%s failed: %w'' [runtime_binary] (syscall K (RunShim path args env))) (\<lambda>a.
     case a of
       Exited False stderr \<Rightarrow> fail (Errorf ''%s failed: %w'' [runtime_binary, trim_space stderr])
     | _ \<Rightarrow> ret ())"

text \<open>The two checks after the run: the stub was called, and the configuration has changed.\<close>

definition check_injected :: "'k shim \<Rightarrow> string \<Rightarrow> string \<Rightarrow> shim_answer \<Rightarrow> ('k, unit) shim_prog" where
  "check_injected K marker bundle_config before =
     andthen (attempt (syscall K (StatFile marker))) (\<lambda>m.
     case m of
       Inl _ \<Rightarrow> fail (Errorf ''%s did not use the stub runtime'' [runtime_binary])
     | Inr _ \<Rightarrow>
         andthen (wrap_eff ''re-reading bundle config: %w'' [] (syscall K (GetFile bundle_config))) (\<lambda>after.
         if text_of before = text_of after
         then fail (Errorf ''%s left the bundle unchanged, so no GPU was injected.'' [runtime_binary])
         else ret ()))"

definition prepare_in :: "'k shim \<Rightarrow> string list \<Rightarrow> string \<Rightarrow> string \<Rightarrow> string \<Rightarrow> string \<Rightarrow> ('k, unit) shim_prog" where
  "prepare_in K environ runtime_path bundle_dir container_id work =
     (let marker = join_path [work, ''called''];
          stub = join_path [work, ''stub-runtime''];
          script = ''#!/bin/sh'' @ [CHR 0x0A] @ ''touch '' @ marker @ [CHR 0x0A] @ ''exit 0'' @ [CHR 0x0A];
          config_path = join_path [work, ''config.toml''];
          config = ''[nvidia-container-runtime]'' @ [CHR 0x0A] @ ''runtimes = ['' @ [CHR 0x22] @ stub @
                   [CHR 0x22] @ '']'' @ [CHR 0x0A];
          bundle_config = join_path [bundle_dir, ''config.json'']
      in andthen (wrap_eff ''writing stub runtime: %w'' [] (syscall K (PutFile stub script 493))) (\<lambda>_.
         andthen (wrap_eff ''writing toolkit config: %w'' [] (syscall K (PutFile config_path config 420))) (\<lambda>_.
         andthen (wrap_eff ''reading bundle config: %w'' [] (syscall K (GetFile bundle_config))) (\<lambda>before.
         andthen (run_shim K runtime_path [''create'', ''--bundle'', bundle_dir, container_id]
                   (environ @ [''NVIDIA_CTK_CONFIG_FILE_PATH='' @ config_path])) (\<lambda>_.
         check_injected K marker bundle_config before)))))"

text \<open>The deferred \<^verbatim>\<open>os.RemoveAll\<close> runs on every return after the directory was made.\<close>

definition prepare_bundle_with_nvidia ::
  "'k shim \<Rightarrow> string list \<Rightarrow> string \<Rightarrow> string \<Rightarrow> string \<Rightarrow> ('k, unit) shim_prog" where
  "prepare_bundle_with_nvidia K environ runtime_path bundle_dir container_id =
     andthen (wrap_eff ''creating work directory: %w'' [] (syscall K (MkdirTemp ''lightpod-nvidia-''))) (\<lambda>a p.
     case prepare_in K environ runtime_path bundle_dir container_id (text_of a) p of
       (r, p') \<Rightarrow> (r, snd (syscall K (RemoveAll (text_of a)) p')))"

subsection \<open>Properties\<close>

text \<open>
  Asking for GPUs sets NVIDIA_VISIBLE_DEVICES to the devices asked for, in place of any earlier
  value; NVIDIA_DRIVER_CAPABILITIES keeps a value that was there and is \<open>all\<close> otherwise; every other
  variable reads as before, and nothing else of the spec changes.
\<close>

theorem set_nvidia_env_correct:
  assumes "set_nvidia_env spec devices = Inr spec'"
  shows "\<exists>pr pr'. spec_process spec = Some pr \<and> spec' = spec\<lparr>spec_process := Some pr'\<rparr> \<and>
    pr' = pr\<lparr>proc_env := proc_env pr'\<rparr> \<and>
    env_get ''NVIDIA_VISIBLE_DEVICES'' (env_list pr') = Some devices \<and>
    env_get ''NVIDIA_DRIVER_CAPABILITIES'' (env_list pr') =
      (case env_get ''NVIDIA_DRIVER_CAPABILITIES'' (env_list pr) of None \<Rightarrow> Some ''all'' | Some v \<Rightarrow> Some v) \<and>
    (\<forall>k. k \<noteq> ''NVIDIA_VISIBLE_DEVICES'' \<longrightarrow> k \<noteq> ''NVIDIA_DRIVER_CAPABILITIES'' \<longrightarrow>
       env_get k (env_list pr') = env_get k (env_list pr))"
proof -
  define V where "V = ''NVIDIA_VISIBLE_DEVICES''"
  define D where "D = ''NVIDIA_DRIVER_CAPABILITIES''"
  have names: "V \<noteq> D" "CHR ''='' \<notin> set V" "CHR ''='' \<notin> set D" by (simp_all add: V_def D_def)
  note get = env_get_set_env [OF names(2)] env_get_set_env [OF names(3)]
  obtain pr where pr: "spec_process spec = Some pr"
    using assms by (auto simp: set_nvidia_env_def split: option.splits)
  define pr' where "pr' = (if \<not> has_env (set_env V devices pr) D
    then set_env D ''all'' (set_env V devices pr) else set_env V devices pr)"
  have "spec' = spec\<lparr>spec_process := Some pr'\<rparr>"
    using assms pr by (auto simp: set_nvidia_env_def Let_def pr'_def V_def D_def)
  moreover have "pr' = pr\<lparr>proc_env := proc_env pr'\<rparr>"
    unfolding pr'_def using set_env_only_env set_env_twice_only_env by (simp split: if_split) 
  moreover have "env_get V (env_list pr') = Some devices"
    using names(1) by (simp add: pr'_def get)
  moreover have "env_get D (env_list pr') =
      (case env_get D (env_list pr) of None \<Rightarrow> Some ''all'' | Some v \<Rightarrow> Some v)"
    using names(1) by (auto simp: pr'_def get has_env_get split: option.split)
  moreover have "\<forall>k. k \<noteq> V \<longrightarrow> k \<noteq> D \<longrightarrow> env_get k (env_list pr') = env_get k (env_list pr)"
    by (simp add: pr'_def get)
  ultimately show ?thesis using pr unfolding V_def D_def by blast
qed

definition gpu_spec :: spec where
  "gpu_spec = \<lparr>spec_version = ''1.0.2'',
     spec_process = Some \<lparr>proc_terminal = False, proc_console_size = None,
       proc_user = \<lparr>user_uid = 0, user_gid = 0, user_umask = None, user_additional_gids = [], user_username = []\<rparr>,
       proc_args = [''/bin/sh''], proc_command_line = [], proc_env = Some [''TERM=xterm''], proc_cwd = ''/'',
       proc_capabilities = None, proc_rlimits = [], proc_no_new_privileges = True,
       proc_apparmor_profile = [], proc_oom_score_adj = None, proc_selinux_label = []\<rparr>,
     spec_root = None, spec_hostname = [], spec_domainname = [], spec_mounts = [], spec_hooks = None,
     spec_annotations = [], spec_linux = None\<rparr>"

theorem set_nvidia_env_correct_witness:
  "\<exists>pr'. (case set_nvidia_env gpu_spec ''0,1'' of Inl _ \<Rightarrow> None | Inr s \<Rightarrow> spec_process s) = Some pr' \<and>
     env_get ''NVIDIA_VISIBLE_DEVICES'' (env_list pr') = Some ''0,1'' \<and>
     env_get ''TERM'' (env_list pr') = Some ''xterm''"
proof -
  have "is_ok (set_nvidia_env gpu_spec ''0,1'')" by (simp add: set_nvidia_env_def gpu_spec_def Let_def)
  then obtain s where s: "set_nvidia_env gpu_spec ''0,1'' = Inr s" by (auto simp: is_ok_iff)
  have old: "\<forall>pr. spec_process gpu_spec = Some pr \<longrightarrow> env_get ''TERM'' (env_list pr) = Some ''xterm''"
    by (simp add: gpu_spec_def env_list_def)
  from set_nvidia_env_correct [OF s] obtain pr pr' where
    "spec_process gpu_spec = Some pr" "s = gpu_spec\<lparr>spec_process := Some pr'\<rparr>"
    "env_get ''NVIDIA_VISIBLE_DEVICES'' (env_list pr') = Some ''0,1''"
    "\<forall>k. k \<noteq> ''NVIDIA_VISIBLE_DEVICES'' \<longrightarrow> k \<noteq> ''NVIDIA_DRIVER_CAPABILITIES'' \<longrightarrow>
       env_get k (env_list pr') = env_get k (env_list pr)"
    by blast
  with s old show ?thesis by (intro exI [of _ pr']) simp
qed

lemma run_shim_Inr:
  assumes "run_shim K path args env p = (Inr (), q)"
  shows "\<exists>a. snd q = snd p @ [(RunShim path args env, Inr a)] \<and> (\<forall>e. a \<noteq> Exited False e)"
proof -
  from assms obtain a p1 where "syscall K (RunShim path args env) p = (Inr a, p1)"
    and "(case a of Exited False stderr \<Rightarrow> fail (Errorf ''%s failed: %w'' [runtime_binary, trim_space stderr])
          | _ \<Rightarrow> ret ()) p1 = (Inr (), q)"
    by (auto simp: run_shim_def andthen_Inr wrap_eff_Inr)
  then show ?thesis
    by (auto simp: fail_def ret_def dest!: syscall_Inr_log split: shim_answer.splits bool.splits)
qed

lemma check_injected_Inr:
  assumes "check_injected K marker cfg b1 p = (Inr (), q)"
  obtains m b2 where "snd q = snd p @ [(StatFile marker, Inr m), (GetFile cfg, Inr b2)]"
    and "text_of b1 \<noteq> text_of b2"
proof -
  from assms obtain m b2 p1 where "syscall K (StatFile marker) p = (Inr m, p1)"
    "syscall K (GetFile cfg) p1 = (Inr b2, q)" "text_of b1 \<noteq> text_of b2"
    unfolding check_injected_def andthen_Inr attempt_Inr sum_eff_Inr wrap_eff_Inr if_eff_Inr ret_Inr
    by blast
  then show thesis by (intro that [of m b2]) (simp_all add: syscall_Inr_log)
qed

definition injected :: "string \<Rightarrow> string \<Rightarrow> string \<Rightarrow> string \<Rightarrow> (shim_call \<times> (errno + shim_answer)) list \<Rightarrow> bool" where
  "injected shim bundle_dir cid work log \<longleftrightarrow>
     (\<exists>b1 b2 env a m.
        (GetFile (join_path [bundle_dir, ''config.json'']), Inr b1) \<in> set log \<and>
        (RunShim shim [''create'', ''--bundle'', bundle_dir, cid] env, Inr a) \<in> set log \<and>
        (\<forall>e. a \<noteq> Exited False e) \<and>
        (StatFile (join_path [work, ''called'']), Inr m) \<in> set log \<and>
        (GetFile (join_path [bundle_dir, ''config.json'']), Inr b2) \<in> set log \<and>
        text_of b1 \<noteq> text_of b2)"

lemma prepare_in_Inr:
  assumes "prepare_in K environ shim bundle_dir cid work p = (Inr (), q)"
  shows "\<exists>new. snd q = snd p @ new \<and> injected shim bundle_dir cid work new"
proof -
  let ?cfg = "join_path [bundle_dir, ''config.json'']" and ?marker = "join_path [work, ''called'']"
  from assms obtain c1 c2 a1 a2 env b1 p1 p2 p3 p4 where
    "syscall K c1 p = (Inr a1, p1)" "syscall K c2 p1 = (Inr a2, p2)"
    and 3: "syscall K (GetFile ?cfg) p2 = (Inr b1, p3)"
    and 4: "run_shim K shim [''create'', ''--bundle'', bundle_dir, cid] env p3 = (Inr (), p4)"
    and 5: "check_injected K ?marker ?cfg b1 p4 = (Inr (), q)"
    unfolding prepare_in_def Let_def andthen_Inr wrap_eff_Inr ex_unit by blast
  then have logs: "snd p1 = snd p @ [(c1, Inr a1)]" "snd p2 = snd p1 @ [(c2, Inr a2)]"
    "snd p3 = snd p2 @ [(GetFile ?cfg, Inr b1)]"
    by (simp_all add: syscall_Inr_log)
  obtain a where "snd p4 = snd p3 @ [(RunShim shim [''create'', ''--bundle'', bundle_dir, cid] env, Inr a)]"
    and a: "\<forall>e. a \<noteq> Exited False e"
    using run_shim_Inr [OF 4] by blast
  moreover obtain m b2 where "snd q = snd p4 @ [(StatFile ?marker, Inr m), (GetFile ?cfg, Inr b2)]"
    and ne: "text_of b1 \<noteq> text_of b2"
    by (rule check_injected_Inr [OF 5])
  ultimately have "snd q = snd p @ [(c1, Inr a1), (c2, Inr a2), (GetFile ?cfg, Inr b1),
      (RunShim shim [''create'', ''--bundle'', bundle_dir, cid] env, Inr a),
      (StatFile ?marker, Inr m), (GetFile ?cfg, Inr b2)]" (is "_ = _ @ ?new")
    using logs by simp
  moreover have "injected shim bundle_dir cid work ?new"
    unfolding injected_def
    by (intro exI [of _ b1] exI [of _ b2] exI [of _ env] exI [of _ a] exI [of _ m]) (simp add: a ne)
  ultimately show ?thesis by blast
qed

lemma prepare_in_log: "\<exists>new. snd (snd (prepare_in K environ shim bundle_dir cid work p)) = snd p @ new"
proof -
  have "only (\<lambda>_. True) (prepare_in K environ shim bundle_dir cid work)"
    unfolding prepare_in_def Let_def run_shim_def check_injected_def
    by (intro only_intros; (rule TrueI)?; simp split: shim_answer.split bool.split; intro conjI allI impI only_intros)
  then show ?thesis by (rule onlyE) blast
qed

text \<open>
  C35. When the shim run succeeds, the shim was run, exited with success and called the stub
  runtime, and the bundle's configuration is not what it was before; and however the run ends, the
  work directory, once made, is removed by the last call.
\<close>

theorem prepare_bundle_injects:
  assumes "prepare_bundle_with_nvidia K environ shim bundle_dir cid p = (r, q)"
    and "syscall K (MkdirTemp ''lightpod-nvidia-'') p = (Inr work, p1)"
  shows "\<exists>new. snd q = snd p1 @ new \<and> fst (last new) = RemoveAll (text_of work) \<and>
    (r = Inr () \<longrightarrow> injected shim bundle_dir cid (text_of work) new)"
proof -
  obtain r' p2 where in_work: "prepare_in K environ shim bundle_dir cid (text_of work) p1 = (r', p2)"
    by (meson surj_pair)
  obtain r3 p3 where rm: "syscall K (RemoveAll (text_of work)) p2 = (r3, p3)" by (meson surj_pair)
  have q: "r = r'" "q = p3"
    using assms in_work rm by (simp_all add: prepare_bundle_with_nvidia_def andthen_def wrap_eff_def)
  obtain m where m: "snd p3 = snd p2 @ [(RemoveAll (text_of work), m)]"
    using syscall_log [OF rm] by auto
  show ?thesis
  proof (cases "r = Inr ()")
    case True
    then obtain new where "snd p2 = snd p1 @ new" "injected shim bundle_dir cid (text_of work) new"
      using prepare_in_Inr in_work q by blast
    then show ?thesis
      using m q by (intro exI [of _ "new @ [(RemoveAll (text_of work), m)]"]) (auto simp: injected_def)
  next
    case False
    obtain new where "snd p2 = snd p1 @ new"
      using prepare_in_log [of K environ shim bundle_dir cid "text_of work" p1] in_work by auto
    then show ?thesis
      using m q False by (intro exI [of _ "new @ [(RemoveAll (text_of work), m)]"]) auto
  qed
qed

text \<open>A host where the shim rewrites the bundle: the state is the text of its configuration.\<close>

fun toolkit_host :: "string shim" where
  "toolkit_host (MkdirTemp _) c = (Inr (Text ''/tmp/w''), c)"
| "toolkit_host (GetFile _) c = (Inr (Text c), c)"
| "toolkit_host (RunShim _ _ _) c = (Inr (Exited True []), c @ ''gpu'')"
| "toolkit_host _ c = (Inr Nothing, c)"

theorem prepare_bundle_injects_witness:
  "\<exists>new. snd (snd (prepare_bundle_with_nvidia toolkit_host [] ''shim'' ''/b'' ''c1'' (''{}'', []))) =
       (MkdirTemp ''lightpod-nvidia-'', Inr (Text ''/tmp/w'')) # new \<and>
     fst (last new) = RemoveAll ''/tmp/w'' \<and> injected ''shim'' ''/b'' ''c1'' ''/tmp/w'' new"
proof -
  have "fst (prepare_bundle_with_nvidia toolkit_host [] ''shim'' ''/b'' ''c1'' (''{}'', [])) = Inr ()"
    by code_simp
  then obtain q where q: "prepare_bundle_with_nvidia toolkit_host [] ''shim'' ''/b'' ''c1'' (''{}'', []) = (Inr (), q)"
    by (metis prod.collapse)
  have "syscall toolkit_host (MkdirTemp ''lightpod-nvidia-'') (''{}'', []) =
      (Inr (Text ''/tmp/w''), (''{}'', [(MkdirTemp ''lightpod-nvidia-'', Inr (Text ''/tmp/w''))]))"
    by (simp add: syscall_def sys_def)
  from prepare_bundle_injects [OF q this] q show ?thesis by auto
qed

end
