(* ===== verification/Go_Flags.thy ===== *)
theory Go_Flags
  imports Go_Prelude
begin

section \<open>Packages flag and strconv: command lines and numbers\<close>

text \<open>
  What the commands use of Go's \<^verbatim>\<open>flag\<close> package: a flag set is a table of names with what each flag
  does to the variables it is bound to, and \<open>parse_flags\<close> is \<^verbatim>\<open>FlagSet.Parse\<close> with ContinueOnError. The
  number flags parse with \<^verbatim>\<open>strconv.ParseInt(s, 0, 64)\<close> and \<^verbatim>\<open>strconv.ParseFloat(s, 64)\<close>, which are
  here too. What Parse prints to stderr on an error is left out.
\<close>

subsection \<open>Integers in any base\<close>

definition hex_val :: "char \<Rightarrow> nat option" where
  "hex_val c =
     (case digit_val c of
        Some d \<Rightarrow> Some d
      | None \<Rightarrow>
          let l = lower_char c
          in if CHR ''a'' \<le> l \<and> l \<le> CHR ''z'' then Some (of_char l - 87) else None)"

text \<open>The base a literal's prefix announces, and what follows the prefix.\<close>

definition int_base :: "string \<Rightarrow> nat \<times> string" where
  "int_base s =
     (if \<not> has_prefix s ''0'' then (10, s)
      else if 3 \<le> length s \<and> lower_char (s ! 1) = CHR ''b'' then (2, drop 2 s)
      else if 3 \<le> length s \<and> lower_char (s ! 1) = CHR ''o'' then (8, drop 2 s)
      else if 3 \<le> length s \<and> lower_char (s ! 1) = CHR ''x'' then (16, drop 2 s)
      else (8, drop 1 s))"

fun base_val :: "nat \<Rightarrow> nat \<Rightarrow> string \<Rightarrow> nat option" where
  "base_val b acc [] = Some acc"
| "base_val b acc (c # s) =
     (if c = CHR ''_'' then base_val b acc s
      else case hex_val c of
             None \<Rightarrow> None
           | Some d \<Rightarrow> if d < b then base_val b (b * acc + d) s else None)"

text \<open>
  \<^verbatim>\<open>underscoreOK\<close>: an underscore stands between digits, or between a base prefix and a digit. The
  first argument says whether the last character was a digit, an underscore or something else.
\<close>

datatype seen = SeenDigit | SeenUnderscore | SeenOther

fun underscores_between :: "bool \<Rightarrow> seen \<Rightarrow> string \<Rightarrow> bool" where
  "underscores_between hex prev [] \<longleftrightarrow> prev \<noteq> SeenUnderscore"
| "underscores_between hex prev (c # s) \<longleftrightarrow>
     (if digit_val c \<noteq> None \<or> (hex \<and> CHR ''a'' \<le> lower_char c \<and> lower_char c \<le> CHR ''f'')
      then underscores_between hex SeenDigit s
      else if c = CHR ''_'' then prev = SeenDigit \<and> underscores_between hex SeenUnderscore s
      else prev \<noteq> SeenUnderscore \<and> underscores_between hex SeenOther s)"

definition drop_sign :: "string \<Rightarrow> string" where
  "drop_sign s = (if has_prefix s ''-'' \<or> has_prefix s ''+'' then drop 1 s else s)"

definition underscore_ok :: "string \<Rightarrow> bool" where
  "underscore_ok s0 =
     (let s = drop_sign s0
      in if 2 \<le> length s \<and> has_prefix s ''0'' \<and> lower_char (s ! 1) \<in> set ''box''
         then underscores_between (lower_char (s ! 1) = CHR ''x'') SeenDigit (drop 2 s)
         else underscores_between False SeenOther s)"

definition syntax_error :: "string \<Rightarrow> goerr" where
  "syntax_error s = Errorf ''parsing %q: invalid syntax'' [s]"

definition range_error :: "string \<Rightarrow> goerr" where
  "range_error s = Errorf ''parsing %q: value out of range'' [s]"

definition parse_int_any :: "string \<Rightarrow> int result" where
  "parse_int_any s =
     (let neg = has_prefix s ''-''; ds = drop_sign s
      in if ds = [] then Inl (syntax_error s)
         else case int_base ds of (b, rest) \<Rightarrow>
           (case base_val b 0 rest of
              None \<Rightarrow> Inl (syntax_error s)
            | Some n \<Rightarrow>
                if CHR ''_'' \<in> set s \<and> \<not> underscore_ok ds then Inl (syntax_error s)
                else if neg then if n \<le> 2 ^ 63 then Inr (- int n) else Inl (range_error s)
                else if n < 2 ^ 63 then Inr (int n) else Inl (range_error s)))"

subsection \<open>Floating point\<close>

text \<open>
  A \<^verbatim>\<open>float64\<close>: not a number, an infinity, or a sign, a significand of at most 53 bits and a binary
  exponent.
\<close>

datatype float64 = NotANumber | Infinite bool | Float bool nat int

definition positive :: "float64 \<Rightarrow> bool" where
  "positive x = (case x of NotANumber \<Rightarrow> False | Infinite neg \<Rightarrow> \<not> neg | Float neg m e \<Rightarrow> \<not> neg \<and> 0 < m)"

fun bit_length :: "nat \<Rightarrow> nat" where
  "bit_length n = (if n = 0 then 0 else Suc (bit_length (n div 2)))"

declare bit_length.simps [simp del]

text \<open>A quotient rounded to the nearest number, ties to even.\<close>

definition round_quotient :: "nat \<Rightarrow> nat \<Rightarrow> nat" where
  "round_quotient n d =
     (let q = n div d; r = n mod d in if d < 2 * r \<or> (d = 2 * r \<and> odd q) then q + 1 else q)"

text \<open>
  The float64 nearest to a fraction, as significand and exponent; none when it is beyond the largest
  one. The exponent is the least that leaves 53 bits, and at least that of the subnormal numbers.
\<close>

definition nearest :: "nat \<Rightarrow> nat \<Rightarrow> (nat \<times> int) option" where
  "nearest n d =
     (let k = int (bit_length n) - int (bit_length d) - 53;
          quotient = (\<lambda>e. if 0 \<le> e then (n, d * 2 ^ nat e) else (n * 2 ^ nat (- e), d));
          e = (case quotient k of (a, b) \<Rightarrow> if 2 ^ 53 * b \<le> a then k + 1 else k);
          e' = max e (- 1074);
          m = (case quotient e' of (a, b) \<Rightarrow> round_quotient a b)
      in if 1024 < e' + int (bit_length m) then None else Some (m, e'))"

text \<open>
  The digits of a mantissa up to a character that does not belong to it: their value, how many of them
  stand behind the point, whether there was a point, whether there was a digit, and the rest.
\<close>

fun mantissa :: "bool \<Rightarrow> nat \<Rightarrow> nat \<Rightarrow> bool \<Rightarrow> bool \<Rightarrow> string \<Rightarrow> nat \<times> nat \<times> bool \<times> string" where
  "mantissa hex m frac point any [] = (m, frac, any, [])"
| "mantissa hex m frac point any (c # s) =
     (if c = CHR ''_'' then mantissa hex m frac point any s
      else if c = CHR ''.'' then (if point then (m, frac, any, c # s) else mantissa hex m frac True any s)
      else case hex_val c of
             None \<Rightarrow> (m, frac, any, c # s)
           | Some d \<Rightarrow>
               if d < (if hex then 16 else 10)
               then mantissa hex ((if hex then 16 else 10) * m + d) (if point then frac + 1 else frac) point True s
               else (m, frac, any, c # s))"

text \<open>The digits of an exponent; beyond 10000 they no longer count.\<close>

fun exponent_val :: "nat \<Rightarrow> string \<Rightarrow> nat option" where
  "exponent_val acc [] = Some acc"
| "exponent_val acc (c # s) =
     (if c = CHR ''_'' then exponent_val acc s
      else case digit_val c of
             None \<Rightarrow> None
           | Some d \<Rightarrow> exponent_val (if acc < 10000 then 10 * acc + d else acc) s)"

definition exponent :: "string \<Rightarrow> int option" where
  "exponent s =
     (let ds = drop_sign s
      in if ds = [] \<or> digit_val (hd ds) = None then None
         else map_option (\<lambda>e. if has_prefix s ''-'' then - int e else int e) (exponent_val 0 ds))"

definition special_float :: "string \<Rightarrow> float64 option" where
  "special_float s =
     (let t = map lower_char s; u = drop_sign t
      in if u = ''inf'' \<or> u = ''infinity'' then Some (Infinite (has_prefix s ''-''))
         else if t = ''nan'' then Some NotANumber
         else None)"

definition scaled_by :: "nat \<Rightarrow> nat \<Rightarrow> int \<Rightarrow> nat \<times> nat" where
  "scaled_by m b e = (if 0 \<le> e then (m * b ^ nat e, 1) else (m, b ^ nat (- e)))"

definition parse_float :: "string \<Rightarrow> float64 result" where
  "parse_float s =
     (case special_float s of
        Some x \<Rightarrow> Inr x
      | None \<Rightarrow>
          let t = drop_sign s;
              hex = (3 \<le> length t \<and> has_prefix t ''0'' \<and> lower_char (t ! 1) = CHR ''x'')
          in case mantissa hex 0 0 False False (if hex then drop 2 t else t) of (m, frac, any, rest) \<Rightarrow>
             let e = (if rest = [] then if hex then None else Some 0
                      else if lower_char (hd rest) = (if hex then CHR ''p'' else CHR ''e'') then exponent (drop 1 rest)
                      else None)
             in case e of
                  None \<Rightarrow> Inl (syntax_error s)
                | Some e \<Rightarrow>
                    if \<not> any \<or> (CHR ''_'' \<in> set s \<and> \<not> underscore_ok s) then Inl (syntax_error s)
                    else
                      case (if hex then scaled_by m 2 (e - 4 * int frac) else scaled_by m 10 (e - int frac)) of
                        (n, d) \<Rightarrow>
                        (if n = 0 then Inr (Float (has_prefix s ''-'') 0 0)
                         else case nearest n d of
                                None \<Rightarrow> Inl (range_error s)
                              | Some (sig, ex) \<Rightarrow> Inr (Float (has_prefix s ''-'') sig ex)))"

subsection \<open>Booleans\<close>

definition parse_bool :: "string \<Rightarrow> bool result" where
  "parse_bool s =
     (if s \<in> {''1'', ''t'', ''T'', ''true'', ''TRUE'', ''True''} then Inr True
      else if s \<in> {''0'', ''f'', ''F'', ''false'', ''FALSE'', ''False''} then Inr False
      else Inl (syntax_error s))"

subsection \<open>Flag sets\<close>

datatype 'v flag_entry =
    BoolFlag "bool \<Rightarrow> 'v \<Rightarrow> 'v"
  | ValueFlag "string \<Rightarrow> 'v \<Rightarrow> 'v result"

definition string_flag :: "(string \<Rightarrow> 'v \<Rightarrow> 'v) \<Rightarrow> 'v flag_entry" where
  "string_flag put = ValueFlag (\<lambda>s v. Inr (put s v))"

definition int_flag :: "(int \<Rightarrow> 'v \<Rightarrow> 'v) \<Rightarrow> 'v flag_entry" where
  "int_flag put = ValueFlag (\<lambda>s v. ebind (parse_int_any s) (\<lambda>i. Inr (put i v)))"

definition float_flag :: "(float64 \<Rightarrow> 'v \<Rightarrow> 'v) \<Rightarrow> 'v flag_entry" where
  "float_flag put = ValueFlag (\<lambda>s v. ebind (parse_float s) (\<lambda>x. Inr (put x v)))"

type_synonym 'v flag_set = "(string \<times> 'v flag_entry) list"

fun is_flag :: "string \<Rightarrow> bool" where
  "is_flag (CHR ''-'' # c # s) \<longleftrightarrow> True"
| "is_flag s \<longleftrightarrow> False"

text \<open>The name and the value of a flag argument, whose one or two dashes are gone.\<close>

definition flag_parts :: "string \<Rightarrow> (string \<times> string option) option" where
  "flag_parts s =
     (let body = (if has_prefix s ''--'' then drop 2 s else drop 1 s)
      in if body = [] \<or> hd body \<in> set ''-='' then None
         else case cut CHR ''='' body of (name, v, found) \<Rightarrow> Some (name, if found then Some v else None))"

definition set_flag :: "'v flag_entry \<Rightarrow> string \<Rightarrow> string option \<Rightarrow> string list \<Rightarrow> 'v \<Rightarrow> ('v \<times> string list) result" where
  "set_flag entry name val args v =
     (case entry of
        BoolFlag put \<Rightarrow>
          (case val of
             None \<Rightarrow> Inr (put True v, args)
           | Some s \<Rightarrow> ebind (ewrap ''invalid boolean value %q for -%s: %w'' [s, name] (parse_bool s)) (\<lambda>b.
               Inr (put b v, args)))
      | ValueFlag put \<Rightarrow>
          (case (val, args) of
             (Some s, _) \<Rightarrow> ebind (ewrap ''invalid value %q for flag -%s: %w'' [s, name] (put s v)) (\<lambda>v'. Inr (v', args))
           | (None, s # args') \<Rightarrow>
               ebind (ewrap ''invalid value %q for flag -%s: %w'' [s, name] (put s v)) (\<lambda>v'. Inr (v', args'))
           | (None, []) \<Rightarrow> Inl (Errorf ''flag needs an argument: -%s'' [name])))"

lemma set_flag_shrinks: "set_flag entry name val args v = Inr (v', args') \<Longrightarrow> length args' \<le> length args"
  by (auto simp: set_flag_def result_iffs split: flag_entry.splits option.splits list.splits)

function parse_flags :: "'v flag_set \<Rightarrow> string list \<Rightarrow> 'v \<Rightarrow> ('v \<times> string list) result" where
  "parse_flags tbl [] v = Inr (v, [])"
| "parse_flags tbl (s # args) v =
     (if \<not> is_flag s then Inr (v, s # args)
      else if s = ''--'' then Inr (v, args)
      else case flag_parts s of
             None \<Rightarrow> Inl (Errorf ''bad flag syntax: %s'' [s])
           | Some (name, val) \<Rightarrow>
               (case map_of tbl name of
                  None \<Rightarrow> if name = ''help'' \<or> name = ''h'' then Inl (Errorf ''flag: help requested'' [])
                          else Inl (Errorf ''flag provided but not defined: -%s'' [name])
                | Some entry \<Rightarrow>
                    (case set_flag entry name val args v of
                       Inl e \<Rightarrow> Inl e
                     | Inr (v', args') \<Rightarrow> parse_flags tbl args' v')))"
  by pat_completeness auto

termination
  by (relation "measure (\<lambda>(tbl, args, v). length args)") (auto dest: set_flag_shrinks simp: less_Suc_eq_le)

text \<open>
  Parsing stops at the first argument that is no flag, or after \<^verbatim>\<open>--\<close>, and leaves everything from there
  on as it was given, the flags of a command to run included.
\<close>

theorem parse_flags_leaves_rest:
  "parse_flags tbl args v = Inr (v', rest) \<Longrightarrow>
   \<exists>used. args = used @ rest \<and> (rest = [] \<or> \<not> is_flag (hd rest) \<or> (used \<noteq> [] \<and> List.last used = ''--''))"
proof (induction tbl args v rule: parse_flags.induct)
  case (2 tbl s args v)
  show ?case
  proof (cases "is_flag s \<and> s \<noteq> ''--''")
    case False
    then consider "\<not> is_flag s" | "is_flag s" "s = ''--''" by blast
    then show ?thesis
    proof cases
      case 1
      then show ?thesis using "2.prems" by (intro exI [of _ "[]"]) auto
    next
      case 2
      then show ?thesis using "2.prems" by (intro exI [of _ "[s]"]) auto
    qed
  next
    case True
    with "2.prems" obtain name val entry args' v1 where parts: "flag_parts s = Some (name, val)" "map_of tbl name = Some entry"
      and one: "set_flag entry name val args v = Inr (v1, args')" and rest: "parse_flags tbl args' v1 = Inr (v', rest)"
      by (auto split: option.splits sum.splits if_splits)
    have "\<exists>xs. args = xs @ args'"
      using one by (auto simp: set_flag_def result_iffs split: flag_entry.splits option.splits list.splits)
    then obtain xs where xs: "args = xs @ args'" by blast
    have "\<exists>used. args' = used @ rest \<and> (rest = [] \<or> \<not> is_flag (hd rest) \<or> (used \<noteq> [] \<and> List.last used = ''--''))"
      using "2.IH" [OF _ _ parts(1) refl parts(2) one refl rest] True by simp
    then obtain used where "args' = used @ rest"
      "rest = [] \<or> \<not> is_flag (hd rest) \<or> (used \<noteq> [] \<and> List.last used = ''--'')" by blast
    then show ?thesis using xs by (intro exI [of _ "s # xs @ used"]) auto
  qed
qed simp

end
