(* ===== verification/Run_Flags.thy ===== *)
theory Run_Flags
  imports Oci_Defaults Oci_Load Nvidia Devices Go_Flags
begin

section \<open>The shortcuts of run and create (flags.go and run.go in cmd/lightpod)\<close>

text \<open>
  How the flags of \<^verbatim>\<open>run\<close> and \<^verbatim>\<open>create\<close> are folded into a spec, with the parsers they need: sizes in
  wrapping 64-bit arithmetic, volumes, users, and the CPU quota computed in floating point. Warnings
  printed to stderr are left out.
\<close>

subsection \<open>The CPU quota\<close>

text \<open>
  \<^verbatim>\<open>int64(rf.cpus * period)\<close> for a positive number: the product is rounded to 53 bits and then truncated. What
  a product beyond the range of an int64 gives is left to the platform by Go: \<open>out_of_range\<close>.
  (Underflow of the product rounds differently but truncates to zero all the same.)
\<close>

definition scaled :: "nat \<Rightarrow> int \<Rightarrow> nat" where
  "scaled m e =
     (let n = m * 100000;
          s = bit_length n - 53;
          r = round_quotient n (2 ^ s);
          e' = e + int s
      in if 0 \<le> e' then r * 2 ^ nat e' else r div 2 ^ nat (- e'))"

definition cpu_quota_of :: "int64 \<Rightarrow> float64 \<Rightarrow> int64" where
  "cpu_quota_of out_of_range x =
     (case x of
        Float False m e \<Rightarrow> if scaled m e < 2 ^ 63 then of_nat (scaled m e) else out_of_range
      | _ \<Rightarrow> out_of_range)"

subsection \<open>The flags\<close>

record run_flags =
  rf_bundle :: string
  rf_rootfs :: string
  rf_memory :: string
  rf_cpus :: float64
  rf_pids :: int64
  rf_hostname :: string
  rf_cgroup :: string
  rf_seccomp :: string
  rf_readonly :: bool
  rf_tty :: bool
  rf_shm_size :: string
  rf_ipc :: string
  rf_workdir :: string
  rf_user :: string
  rf_gpu :: string
  rf_volumes :: "string list"
  rf_devices :: "string list"
  rf_env :: "string list"
  rf_add_caps :: "string list"

definition no_flags :: run_flags where
  "no_flags = \<lparr>rf_bundle = [], rf_rootfs = [], rf_memory = [], rf_cpus = Float False 0 0, rf_pids = 0,
     rf_hostname = [], rf_cgroup = [], rf_seccomp = [], rf_readonly = False, rf_tty = False, rf_shm_size = [],
     rf_ipc = [], rf_workdir = [], rf_user = [], rf_gpu = [], rf_volumes = [], rf_devices = [], rf_env = [],
     rf_add_caps = []\<rparr>"

subsection \<open>Sizes\<close>

definition size_multiplier :: "string \<Rightarrow> int64" where
  "size_multiplier s =
     (if has_suffix s ''g'' \<or> has_suffix s ''gb'' then 2 ^ 30
      else if has_suffix s ''m'' \<or> has_suffix s ''mb'' then 2 ^ 20
      else if has_suffix s ''k'' \<or> has_suffix s ''kb'' then 2 ^ 10
      else 1)"

definition parse_size :: "string \<Rightarrow> int64 result" where
  "parse_size s0 =
     (let s = trim_space (to_lower s0)
      in case parse_int 64 (trim_right s ''kmgb'') of
           Inl _ \<Rightarrow> Inl (Errorf ''%q is not a valid size'' [s])
         | Inr v \<Rightarrow> Inr (word_of_int v * size_multiplier s))"

subsection \<open>The process\<close>

definition append_unique :: "string list \<Rightarrow> string \<Rightarrow> string list" where
  "append_unique xs x = (if x \<in> set xs then xs else xs @ [x])"

definition append_env :: "string list option \<Rightarrow> string list \<Rightarrow> string list option" where
  "append_env env extra =
     (case env of None \<Rightarrow> if extra = [] then None else Some extra | Some xs \<Rightarrow> Some (xs @ extra))"

definition set_user :: "string \<Rightarrow> process \<Rightarrow> process result" where
  "set_user u pr =
     (if u = [] then Inr pr
      else case cut CHR '':'' u of (uid_part, gid_part, has_gid) \<Rightarrow>
        (case parse_uint 32 uid_part of
           Inl _ \<Rightarrow> Inl (Errorf ''--user %q: uid must be numeric (name lookup needs the image's /etc/passwd, which is not read yet)'' [u])
         | Inr uid \<Rightarrow>
             let pr1 = pr\<lparr>proc_user := (proc_user pr)\<lparr>user_uid := of_nat uid, user_gid := of_nat uid\<rparr>\<rparr>
             in if has_gid then
                  (case parse_uint 32 gid_part of
                     Inl _ \<Rightarrow> Inl (Errorf ''--user %q: gid must be numeric'' [u])
                   | Inr gid \<Rightarrow> Inr (pr1\<lparr>proc_user := (proc_user pr1)\<lparr>user_gid := of_nat gid\<rparr>\<rparr>))
                else Inr pr1))"

definition capability_name :: "string \<Rightarrow> string" where
  "capability_name name = (let n = to_upper name in if has_prefix n ''CAP_'' then n else ''CAP_'' @ n)"

definition add_capability :: "string \<Rightarrow> process \<Rightarrow> process" where
  "add_capability name0 pr =
     (let name = capability_name name0;
          caps = (case proc_capabilities pr of None \<Rightarrow> empty_capabilities | Some c \<Rightarrow> c)
      in pr\<lparr>proc_capabilities := Some (caps\<lparr>
              caps_bounding := append_unique (caps_bounding caps) name,
              caps_effective := append_unique (caps_effective caps) name,
              caps_permitted := append_unique (caps_permitted caps) name\<rparr>)\<rparr>)"

definition apply_process_flags :: "spec \<Rightarrow> run_flags \<Rightarrow> spec result" where
  "apply_process_flags spec rf =
     (case spec_process spec of
        None \<Rightarrow> Inl (Errorf ''spec has no process section'' [])
      | Some pr \<Rightarrow>
          let pr1 = pr\<lparr>proc_env := append_env (proc_env pr) (rf_env rf)\<rparr>
          in if rf_workdir rf \<noteq> [] \<and> \<not> has_prefix (rf_workdir rf) ''/''
             then Inl (Errorf ''--workdir %q must be an absolute path'' [rf_workdir rf])
             else
               let pr2 = (if rf_workdir rf \<noteq> [] then pr1\<lparr>proc_cwd := rf_workdir rf\<rparr> else pr1)
               in ebind (set_user (rf_user rf) pr2) (\<lambda>pr3.
                  Inr (spec\<lparr>spec_process := Some (fold add_capability (rf_add_caps rf) pr3)\<rparr>)))"

subsection \<open>Mounts\<close>

definition parse_volume :: "string \<Rightarrow> mount result" where
  "parse_volume v =
     (let parts = split_on CHR '':'' v
      in if length parts < 2 \<or> 3 < length parts then Inl (Errorf ''volume %q must be host:container[:ro]'' [v])
         else
           let host = parts ! 0; inside = parts ! 1
           in if \<not> has_prefix host ''/'' \<or> \<not> has_prefix inside ''/''
              then Inl (Errorf ''volume %q: both paths must be absolute'' [v])
              else
                let mode = (if length parts = 3 then parts ! 2 else ''rw'')
                in if mode \<noteq> ''rw'' \<and> mode \<noteq> ''ro''
                   then Inl (Errorf ''volume %q: mode must be ro or rw, got %q'' [v, mode])
                   else Inr \<lparr>mnt_destination = inside, mnt_type = ''none'', mnt_source = host,
                          mnt_options = [''rbind'', ''nosuid'', ''nodev''] @ (if mode = ''ro'' then [''ro''] else []),
                          mnt_uid_mappings = [], mnt_gid_mappings = []\<rparr>)"

definition sized :: "int64 \<Rightarrow> mount \<Rightarrow> mount" where
  "sized bytes m = m\<lparr>mnt_options := filter (\<lambda>opt. \<not> has_prefix opt ''size='') (mnt_options m) @
     [''size='' @ format_int (sint bytes)]\<rparr>"

fun resize_mounts :: "int64 \<Rightarrow> mount list \<Rightarrow> mount list result" where
  "resize_mounts bytes [] = Inl (Errorf ''--shm-size: this bundle has no /dev/shm mount to resize'' [])"
| "resize_mounts bytes (m # ms) =
     (if mnt_destination m = ''/dev/shm'' then Inr (sized bytes m # ms)
      else ebind (resize_mounts bytes ms) (\<lambda>ms'. Inr (m # ms')))"

definition resize_shm :: "int64 \<Rightarrow> spec \<Rightarrow> spec result" where
  "resize_shm bytes spec = ebind (resize_mounts bytes (spec_mounts spec)) (\<lambda>ms. Inr (spec\<lparr>spec_mounts := ms\<rparr>))"

fun point_namespace :: "namespace_type \<Rightarrow> string \<Rightarrow> namespace list \<Rightarrow> namespace list" where
  "point_namespace kind path [] = [\<lparr>ns_type = kind, ns_path = path\<rparr>]"
| "point_namespace kind path (n # ns) =
     (if ns_type n = kind then n\<lparr>ns_path := path\<rparr> # ns else n # point_namespace kind path ns)"

definition linux_of :: "spec \<Rightarrow> linux" where
  "linux_of spec = (case spec_linux spec of None \<Rightarrow> empty_linux | Some l \<Rightarrow> l)"

definition set_namespace_path :: "namespace_type \<Rightarrow> string \<Rightarrow> spec \<Rightarrow> spec" where
  "set_namespace_path kind path spec =
     (let l = linux_of spec in spec\<lparr>spec_linux := Some (l\<lparr>lx_namespaces := point_namespace kind path (lx_namespaces l)\<rparr>)\<rparr>)"

definition apply_mount_flags :: "spec \<Rightarrow> run_flags \<Rightarrow> spec result" where
  "apply_mount_flags spec rf =
     ebind (each (\<lambda>v s. ebind (parse_volume v) (\<lambda>m. Inr (s\<lparr>spec_mounts := spec_mounts s @ [m]\<rparr>))) (rf_volumes rf) spec) (\<lambda>spec1.
     ebind (if rf_shm_size rf = [] then Inr spec1
            else ebind (ewrap ''--shm-size: %w'' [] (parse_size (rf_shm_size rf))) (\<lambda>bytes. resize_shm bytes spec1)) (\<lambda>spec2.
     if rf_ipc rf = [] then Inr spec2
     else if rf_ipc rf = ''host'' then Inr (set_namespace_path IPCNamespace ''/proc/1/ns/ipc'' spec2)
     else Inl (Errorf ''--ipc %q is not supported (only \"host\")'' [rf_ipc rf])))"

subsection \<open>Devices\<close>

definition add_device :: "(string \<Rightarrow> node_stat result) \<Rightarrow> string \<Rightarrow> spec \<Rightarrow> spec result" where
  "add_device stat v spec =
     (if \<not> has_prefix v ''/'' then Inl (Errorf ''--device %q must be a host path like /dev/video0 (for GPUs use --gpu)'' [v])
      else ebind (parse_raw_device stat v) (\<lambda>dev.
        let l = linux_of spec in Inr (spec\<lparr>spec_linux := Some (l\<lparr>lx_devices := lx_devices l @ [dev]\<rparr>)\<rparr>)))"

definition apply_device_flags :: "(string \<Rightarrow> node_stat result) \<Rightarrow> spec \<Rightarrow> run_flags \<Rightarrow> spec result" where
  "apply_device_flags stat spec rf =
     (let spec1 = (if rf_devices rf = [] then spec else spec\<lparr>spec_linux := Some (linux_of spec)\<rparr>)
      in ebind (each (add_device stat) (rf_devices rf) spec1) (\<lambda>spec2.
         if rf_gpu rf = [] then Inr spec2 else set_nvidia_env spec2 (rf_gpu rf)))"

subsection \<open>All of them\<close>

text \<open>Changing the resources and the rest of a spec whose linux section is there.\<close>

definition with_resources :: "(linux_resources \<Rightarrow> linux_resources) \<Rightarrow> spec \<Rightarrow> spec" where
  "with_resources f spec =
     (let l = linux_of spec; r = (case lx_resources l of None \<Rightarrow> empty_resources | Some r \<Rightarrow> r)
      in spec\<lparr>spec_linux := Some (l\<lparr>lx_resources := Some (f r)\<rparr>)\<rparr>)"

definition limit_memory :: "int64 \<Rightarrow> linux_resources \<Rightarrow> linux_resources" where
  "limit_memory bytes r = r\<lparr>res_memory := Some \<lparr>mem_limit = Some bytes, mem_reservation = None, mem_swap = None,
     mem_swappiness = None, mem_disable_oom_killer = None\<rparr>\<rparr>"

definition limit_cpu :: "int64 \<Rightarrow> linux_resources \<Rightarrow> linux_resources" where
  "limit_cpu quota r = r\<lparr>res_cpu := Some \<lparr>cpu_shares = None, cpu_quota = Some quota, cpu_period = Some 100000,
     cpu_cpus = [], cpu_mems = []\<rparr>\<rparr>"

text \<open>\<^verbatim>\<open>applyRunFlags\<close> begins with the sections, the host name and the read-only root \<dots>\<close>

definition basic_flags :: "spec \<Rightarrow> run_flags \<Rightarrow> spec" where
  "basic_flags spec0 rf =
     (let spec1 = with_resources (\<lambda>r. r) spec0;
          spec2 = (if rf_hostname rf \<noteq> [] then spec1\<lparr>spec_hostname := rf_hostname rf\<rparr> else spec1)
      in case spec_root spec2 of
           Some root \<Rightarrow> if rf_readonly rf then spec2\<lparr>spec_root := Some (root\<lparr>root_readonly := True\<rparr>)\<rparr> else spec2
         | None \<Rightarrow> spec2)"

text \<open>\<dots> and ends with the limits and the seccomp switch.\<close>

definition limit_flags :: "int64 \<Rightarrow> spec \<Rightarrow> run_flags \<Rightarrow> spec result" where
  "limit_flags out_of_range spec0 rf =
     ebind (if rf_memory rf = [] then Inr spec0
            else ebind (ewrap ''--memory: %w'' [] (parse_size (rf_memory rf))) (\<lambda>bytes.
              Inr (with_resources (limit_memory bytes) spec0))) (\<lambda>spec1.
     let spec2 = (if positive (rf_cpus rf)
                  then with_resources (limit_cpu (cpu_quota_of out_of_range (rf_cpus rf))) spec1 else spec1);
         spec3 = (if 0 <s rf_pids rf
                  then with_resources (\<lambda>r. r\<lparr>res_pids := Some \<lparr>pids_limit = rf_pids rf\<rparr>\<rparr>) spec2 else spec2);
         l = linux_of spec3
     in Inr (if rf_seccomp rf = ''unconfined'' then spec3\<lparr>spec_linux := Some (l\<lparr>lx_seccomp := None\<rparr>)\<rparr> else spec3))"

definition apply_run_flags :: "int64 \<Rightarrow> (string \<Rightarrow> node_stat result) \<Rightarrow> spec \<Rightarrow> run_flags \<Rightarrow> spec result" where
  "apply_run_flags out_of_range stat spec0 rf =
     (let spec1 = basic_flags spec0 rf
      in if rf_tty rf then Inl (Errorf ''--tty is not implemented yet: lightpod does not allocate a pty. Run without it, or use `lightpod exec` once that lands'' [])
         else
           ebind (apply_process_flags spec1 rf) (\<lambda>spec2.
           ebind (apply_mount_flags spec2 rf) (\<lambda>spec3.
           ebind (apply_device_flags stat spec3 rf) (\<lambda>spec4.
           limit_flags out_of_range spec4 rf))))"

end
