(* ===== verification/Commands.thy ===== *)
theory Commands
  imports Container Run_Flags Privilege_Mode
begin

section \<open>The command line (cmd/lightpod)\<close>

text \<open>
  From the arguments of the process to the container operations: the flag sets of every command, the
  choice of the command, opening the store, producing the bundle, the GPU toolkit, and the commands
  themselves. A command is a program over the calls of the host, those of the toolkit, and three of its
  own; what it only looks at (files, directories, the search path) is read off the state of the world.
  What a command prints is its result; the layout of the output (indented JSON, columns) and warnings
  are left out.
\<close>

subsection \<open>Signals\<close>

definition signal_names :: "(string \<times> int) list" where
  "signal_names = [
     (''HUP'', 1), (''INT'', 2), (''QUIT'', 3),
     (''KILL'', 9), (''USR1'', 10), (''USR2'', 12),
     (''TERM'', 15), (''STOP'', 19), (''CONT'', 18),
     (''ABRT'', 6), (''ALRM'', 14), (''PIPE'', 13)]"

definition parse_signal :: "string \<Rightarrow> int result" where
  "parse_signal s =
     (case atoi s of
        Inr n \<Rightarrow> Inr n
      | Inl _ \<Rightarrow>
          (case map_of signal_names (trim_prefix (to_upper s) ''SIG'') of
             Some sig \<Rightarrow> Inr sig
           | None \<Rightarrow> Inl (Errorf ''unknown signal %q'' [s])))"

subsection \<open>The flag sets\<close>

definition int64_flag :: "(int64 \<Rightarrow> 'v \<Rightarrow> 'v) \<Rightarrow> 'v flag_entry" where
  "int64_flag put = int_flag (\<lambda>i. put (word_of_int i))"

text \<open>\<^verbatim>\<open>repeatedFlag\<close>: each use appends.\<close>

definition repeated_flag :: "((string list \<Rightarrow> string list) \<Rightarrow> 'v \<Rightarrow> 'v) \<Rightarrow> 'v flag_entry" where
  "repeated_flag upd = string_flag (\<lambda>s. upd (\<lambda>xs. xs @ [s]))"

definition run_flag_set :: "run_flags flag_set" where
  "run_flag_set = [
     (''bundle'', string_flag (\<lambda>s. rf_bundle_update (\<lambda>_. s))),
     (''rootfs'', string_flag (\<lambda>s. rf_rootfs_update (\<lambda>_. s))),
     (''v'', repeated_flag rf_volumes_update),
     (''volume'', repeated_flag rf_volumes_update),
     (''device'', repeated_flag rf_devices_update),
     (''gpu'', string_flag (\<lambda>s. rf_gpu_update (\<lambda>_. s))),
     (''env'', repeated_flag rf_env_update),
     (''e'', repeated_flag rf_env_update),
     (''cap-add'', repeated_flag rf_add_caps_update),
     (''user'', string_flag (\<lambda>s. rf_user_update (\<lambda>_. s))),
     (''workdir'', string_flag (\<lambda>s. rf_workdir_update (\<lambda>_. s))),
     (''memory'', string_flag (\<lambda>s. rf_memory_update (\<lambda>_. s))),
     (''cpus'', float_flag (\<lambda>x. rf_cpus_update (\<lambda>_. x))),
     (''pids'', int64_flag (\<lambda>i. rf_pids_update (\<lambda>_. i))),
     (''shm-size'', string_flag (\<lambda>s. rf_shm_size_update (\<lambda>_. s))),
     (''ipc'', string_flag (\<lambda>s. rf_ipc_update (\<lambda>_. s))),
     (''hostname'', string_flag (\<lambda>s. rf_hostname_update (\<lambda>_. s))),
     (''cgroup'', string_flag (\<lambda>s. rf_cgroup_update (\<lambda>_. s))),
     (''seccomp'', string_flag (\<lambda>s. rf_seccomp_update (\<lambda>_. s))),
     (''read-only'', BoolFlag (\<lambda>b. rf_readonly_update (\<lambda>_. b))),
     (''tty'', BoolFlag (\<lambda>b. rf_tty_update (\<lambda>_. b)))]"

text \<open>The flags of \<^verbatim>\<open>create\<close>: its own list, with the pid file beside the run flags.\<close>

definition on_flags :: "'v flag_entry \<Rightarrow> ('v \<times> 'w) flag_entry" where
  "on_flags entry =
     (case entry of
        BoolFlag put \<Rightarrow> BoolFlag (\<lambda>b (v, w). (put b v, w))
      | ValueFlag put \<Rightarrow> ValueFlag (\<lambda>s (v, w). ebind (put s v) (\<lambda>v'. Inr (v', w))))"

definition create_flag_set :: "(run_flags \<times> string) flag_set" where
  "create_flag_set = [
     (''bundle'', on_flags (string_flag (\<lambda>s. rf_bundle_update (\<lambda>_. s)))),
     (''rootfs'', on_flags (string_flag (\<lambda>s. rf_rootfs_update (\<lambda>_. s)))),
     (''memory'', on_flags (string_flag (\<lambda>s. rf_memory_update (\<lambda>_. s)))),
     (''cpus'', on_flags (float_flag (\<lambda>x. rf_cpus_update (\<lambda>_. x)))),
     (''pids'', on_flags (int64_flag (\<lambda>i. rf_pids_update (\<lambda>_. i)))),
     (''hostname'', on_flags (string_flag (\<lambda>s. rf_hostname_update (\<lambda>_. s)))),
     (''cgroup'', on_flags (string_flag (\<lambda>s. rf_cgroup_update (\<lambda>_. s)))),
     (''seccomp'', on_flags (string_flag (\<lambda>s. rf_seccomp_update (\<lambda>_. s)))),
     (''read-only'', on_flags (BoolFlag (\<lambda>b. rf_readonly_update (\<lambda>_. b)))),
     (''pid-file'', string_flag (\<lambda>s (rf, _). (rf, s))),
     (''console-socket'', string_flag (\<lambda>s v. v)),
     (''no-pivot'', BoolFlag (\<lambda>b v. v)),
     (''no-new-keyring'', BoolFlag (\<lambda>b v. v))]"

definition switch_set :: "string list \<Rightarrow> bool flag_set" where
  "switch_set names = map (\<lambda>name. (name, BoolFlag (\<lambda>b _. b))) names"

subsection \<open>The command\<close>

record global_options =
  opt_root :: string
  opt_log_file :: string
  opt_log_format :: string
  opt_systemd_group :: bool
  opt_debug :: bool

definition no_options :: global_options where
  "no_options = \<lparr>opt_root = [], opt_log_file = [], opt_log_format = [], opt_systemd_group = False, opt_debug = False\<rparr>"

text \<open>The second component is \<^verbatim>\<open>showVersion\<close>.\<close>

definition global_flag_set :: "(global_options \<times> bool) flag_set" where
  "global_flag_set = [
     (''root'', on_flags (string_flag (\<lambda>s. opt_root_update (\<lambda>_. s)))),
     (''log'', on_flags (string_flag (\<lambda>s. opt_log_file_update (\<lambda>_. s)))),
     (''log-format'', on_flags (string_flag (\<lambda>s. opt_log_format_update (\<lambda>_. s)))),
     (''systemd-cgroup'', on_flags (BoolFlag (\<lambda>b. opt_systemd_group_update (\<lambda>_. b)))),
     (''debug'', on_flags (BoolFlag (\<lambda>b. opt_debug_update (\<lambda>_. b)))),
     (''version'', BoolFlag (\<lambda>b (opts, _). (opts, b))),
     (''criu'', string_flag (\<lambda>s v. v)),
     (''rootless-compat'', BoolFlag (\<lambda>b v. v))]"

datatype verb =
    Init1 | Init2 | CreateVerb | StartVerb | RunVerb | StateVerb | KillVerb | DeleteVerb | PsVerb | PruneVerb
  | SpecVerb | HelpVerb | VersionVerb

definition verbs :: "(string \<times> verb) list" where
  "verbs = [
     (''init'', Init1), (''init2'', Init2), (''create'', CreateVerb), (''start'', StartVerb), (''run'', RunVerb),
     (''state'', StateVerb), (''kill'', KillVerb), (''delete'', DeleteVerb), (''rm'', DeleteVerb),
     (''ps'', PsVerb), (''list'', PsVerb), (''prune'', PruneVerb), (''spec'', SpecVerb),
     (''help'', HelpVerb), (''version'', VersionVerb)]"

definition select_command :: "string list \<Rightarrow> (global_options \<times> verb \<times> string list) result" where
  "select_command args =
     ebind (parse_flags global_flag_set args (no_options, False)) (\<lambda>((opts, show_version), rest).
     if show_version then Inr (opts, VersionVerb, [])
     else case rest of
            [] \<Rightarrow> Inl (Errorf ''no command given'' [])
          | command # rest' \<Rightarrow>
              (case map_of verbs command of
                 Some v \<Rightarrow> Inr (opts, v, rest')
               | None \<Rightarrow> Inl (Errorf ''unknown command %q (try `lightpod help`)'' [command])))"

subsection \<open>What a command calls and sees\<close>

datatype cmd_call =
    OnHost host_call
  | OnShim shim_call
  | MakeDirs string uint32
  | WriteText string string uint32

datatype cmd_answer =
    HostAnswer host_answer
  | ShimAnswer shim_answer
  | Performed

type_synonym 'k commands = "(cmd_call, cmd_answer, 'k) world"
type_synonym ('k, 'a) command = "(cmd_call, cmd_answer, 'k, 'a) prog"

fun host_of :: "cmd_answer \<Rightarrow> host_answer" where
  "host_of (HostAnswer a) = a"
| "host_of _ = Done"

fun shim_of :: "cmd_answer \<Rightarrow> shim_answer" where
  "shim_of (ShimAnswer a) = a"
| "shim_of _ = Nothing"

definition on_host :: "'k commands \<Rightarrow> ('k host \<Rightarrow> ('k, 'a) host_prog) \<Rightarrow> ('k, 'a) command" where
  "on_host W m = embed OnHost host_of HostAnswer (m (sub_world OnHost host_of W))"

definition on_shim :: "'k commands \<Rightarrow> ('k shim \<Rightarrow> ('k, 'a) shim_prog) \<Rightarrow> ('k, 'a) command" where
  "on_shim W m = embed OnShim shim_of ShimAnswer (m (sub_world OnShim shim_of W))"

text \<open>
  What holds of the process (its ids, environment and working directory), what it reads off the world
  without changing it (\<^verbatim>\<open>os.Stat\<close> in three uses, \<^verbatim>\<open>os.ReadFile\<close>, \<^verbatim>\<open>exec.LookPath\<close>), and encoding/json on
  specs.
\<close>

record 'k cmd_setting =
  cs_host :: host_setting
  cs_euid :: nat
  cs_getenv :: "string \<Rightarrow> string"
  cs_cwd :: string
  cs_exists :: "'k \<Rightarrow> string \<Rightarrow> unit result"
  cs_is_dir :: "'k \<Rightarrow> string \<Rightarrow> bool result"
  cs_node :: "'k \<Rightarrow> string \<Rightarrow> node_stat result"
  cs_read :: "'k \<Rightarrow> string \<Rightarrow> string result"
  cs_look_path :: "'k \<Rightarrow> string \<Rightarrow> string result"
  cs_marshal :: "spec \<Rightarrow> string result"
  cs_unmarshal :: "string \<Rightarrow> spec result"
  cs_out_of_range :: int64

text \<open>A pure function of what the world looks like now.\<close>

definition observe :: "('k \<Rightarrow> 'a result) \<Rightarrow> ('c, 'v, 'k, 'a) prog" where
  "observe f p = (f (fst p), p)"

subsection \<open>The store and the bundle\<close>

definition open_store :: "'k commands \<Rightarrow> 'k cmd_setting \<Rightarrow> global_options \<Rightarrow> ('k, host_setting \<times> privilege_mode) command" where
  "open_store W cs opts =
     (let mode = detect_privilege_mode (cs_euid cs)
      in andthen (if opt_root opts = []
                  then observe (\<lambda>k. state_root (cs_getenv cs) (unat (hs_uid (cs_host cs))) (cs_exists cs k) mode)
                  else ret (opt_root opts)) (\<lambda>dir.
         andthen (wrap_eff ''creating state directory %s: %w'' [dir] (syscall W (MakeDirs dir 448))) (\<lambda>_.
         ret ((cs_host cs)\<lparr>hs_root := dir\<rparr>, mode))))"

definition load_bundle :: "'k cmd_setting \<Rightarrow> string \<Rightarrow> ('k, spec) command" where
  "load_bundle cs bundle_dir = observe (\<lambda>k. load_spec (cs_read cs k) (cs_unmarshal cs) bundle_dir)"

text \<open>\<^verbatim>\<open>oci.Save\<close> on the calls of the commands.\<close>

definition save_bundle :: "'k commands \<Rightarrow> 'k cmd_setting \<Rightarrow> spec \<Rightarrow> string \<Rightarrow> ('k, unit) command" where
  "save_bundle W cs =
     save_spec (cs_marshal cs) (\<lambda>path body p.
       case syscall W (WriteText path body 420) p of (r, q) \<Rightarrow> (ebind r (\<lambda>_. Inr ()), q))"

definition run_flags_on :: "'k cmd_setting \<Rightarrow> run_flags \<Rightarrow> spec \<Rightarrow> ('k, spec) command" where
  "run_flags_on cs rf spec = observe (\<lambda>k. apply_run_flags (cs_out_of_range cs) (cs_node cs k) spec rf)"

definition resolve_bundle ::
  "'k commands \<Rightarrow> 'k cmd_setting \<Rightarrow> run_flags \<Rightarrow> string list \<Rightarrow> privilege_mode \<Rightarrow> string \<Rightarrow> ('k, string \<times> spec) command" where
  "resolve_bundle W cs rf command mode work_dir =
     (if rf_bundle rf \<noteq> [] \<and> rf_rootfs rf \<noteq> [] then fail (Errorf ''--bundle and --rootfs are mutually exclusive'' [])
      else if rf_bundle rf \<noteq> [] then
        andthen (load_bundle cs (rf_bundle rf)) (\<lambda>spec0.
        let spec = (case spec_process spec0 of
                      Some pr \<Rightarrow> if command \<noteq> [] then spec0\<lparr>spec_process := Some (pr\<lparr>proc_args := command\<rparr>)\<rparr> else spec0
                    | None \<Rightarrow> spec0)
        in andthen (run_flags_on cs rf spec) (\<lambda>spec'. ret (rf_bundle rf, spec')))
      else if rf_rootfs rf = [] then fail (Errorf ''run needs either --bundle or --rootfs'' [])
      else if command = [] then fail (Errorf ''run needs a command to execute'' [])
      else
        andthen (run_flags_on cs rf (default_spec (abs_path (cs_cwd cs) (rf_rootfs rf)) command (mode = ModeRootless))) (\<lambda>spec.
        let bundle_dir = join_path [work_dir, ''bundle'']
        in andthen (wrap_eff ''creating generated bundle directory: %w'' [] (syscall W (MakeDirs bundle_dir 448))) (\<lambda>_.
           andthen (save_bundle W cs spec bundle_dir) (\<lambda>_.
           ret (bundle_dir, spec)))))"

definition apply_gpu ::
  "'k commands \<Rightarrow> 'k cmd_setting \<Rightarrow> string \<Rightarrow> string \<Rightarrow> spec \<Rightarrow> string \<Rightarrow> ('k, spec) command" where
  "apply_gpu W cs bundle_dir cid spec gpu =
     (if gpu = [] then ret spec
      else
        let mode = cs_getenv cs ''LIGHTPOD_GPU_MODE''
        in andthen (observe (\<lambda>k. Inr (find_nvidia_runtime (cs_getenv cs) (cs_exists cs k) (cs_look_path cs k)))) (\<lambda>found.
           if mode \<noteq> ''hook'' \<and> mode = ''runtime'' \<and> found = None
           then fail (Errorf ''LIGHTPOD_GPU_MODE=runtime but nvidia-container-runtime was not found'' [])
           else if mode \<noteq> [] \<and> mode \<noteq> ''hook'' \<and> mode \<noteq> ''runtime''
           then fail (Errorf ''LIGHTPOD_GPU_MODE=%q is not valid (want runtime or hook)'' [mode])
           else case (if mode = ''hook'' then None else found) of
                  Some path \<Rightarrow>
                    andthen (on_shim W (\<lambda>K. prepare_bundle_with_nvidia K (hs_environ (cs_host cs)) path bundle_dir cid)) (\<lambda>_.
                    load_bundle cs bundle_dir)
                | None \<Rightarrow>
                    andthen (observe (\<lambda>k. inject_nvidia_hook (cs_getenv cs) (cs_exists cs k) spec)) (\<lambda>spec'.
                    andthen (save_bundle W cs spec' bundle_dir) (\<lambda>_.
                    ret spec'))))"

subsection \<open>Handles\<close>

definition make_container ::
  "'k cmd_setting \<Rightarrow> string \<Rightarrow> string \<Rightarrow> spec \<Rightarrow> privilege_mode \<Rightarrow> ('k, container) command" where
  "make_container cs cid bundle_dir spec mode =
     observe (\<lambda>k. new_container (cs_cwd cs) (cs_is_dir cs k) cid bundle_dir spec mode)"

definition load_container ::
  "'k commands \<Rightarrow> 'k cmd_setting \<Rightarrow> global_options \<Rightarrow> string \<Rightarrow> ('k, host_setting \<times> container) command" where
  "load_container W cs opts cid =
     andthen (open_store W cs opts) (\<lambda>(hs, mode).
     andthen (on_host W (\<lambda>H. with_store H (\<lambda>K. load_record K (hs_root hs) cid))) (\<lambda>r.
     andthen (attempt (load_bundle cs (rec_bundle r))) (\<lambda>s.
     case s of
       Inl _ \<Rightarrow> ret (hs, adopt cid r mode)
     | Inr spec \<Rightarrow> andthen (make_container cs cid (rec_bundle r) spec mode) (\<lambda>c. ret (hs, c)))))"

text \<open>What \<^verbatim>\<open>create\<close> and \<^verbatim>\<open>run\<close> share: from the flags to the handle.\<close>

definition new_from_flags ::
  "'k commands \<Rightarrow> 'k cmd_setting \<Rightarrow> global_options \<Rightarrow> run_flags \<Rightarrow> string \<Rightarrow> string list \<Rightarrow> ('k, host_setting \<times> container) command" where
  "new_from_flags W cs opts rf cid command =
     andthen (open_store W cs opts) (\<lambda>(hs, mode).
     andthen (resolve_bundle W cs rf command mode (store_dir (hs_root hs) cid)) (\<lambda>(bundle_dir, spec).
     andthen (apply_gpu W cs bundle_dir cid spec (rf_gpu rf)) (\<lambda>spec'.
     andthen (make_container cs cid bundle_dir spec' mode) (\<lambda>c.
     ret (hs, c\<lparr>ct_no_cgroup := (rf_cgroup rf = ''none'')\<rparr>)))))"

subsection \<open>The commands\<close>

definition cmd_create :: "'k commands \<Rightarrow> 'k cmd_setting \<Rightarrow> global_options \<Rightarrow> string list \<Rightarrow> ('k, unit) command" where
  "cmd_create W cs opts args =
     andthen (lift (parse_flags create_flag_set args (no_flags, []))) (\<lambda>((rf0, pid_file), rest).
     case rest of
       [] \<Rightarrow> fail (Errorf ''create needs a container id'' [])
     | cid # command \<Rightarrow>
         let rf = (if rf_bundle rf0 = [] \<and> rf_rootfs rf0 = [] then rf0\<lparr>rf_bundle := ''.''\<rparr> else rf0)
         in andthen (new_from_flags W cs opts rf cid command) (\<lambda>(hs, c).
            andthen (on_host W (\<lambda>H. create_container H hs c)) (\<lambda>_.
            if pid_file = [] then ret ()
            else
              andthen (on_host W (\<lambda>H. container_state H hs c)) (\<lambda>st.
              andthen (wrap_eff ''writing pid file: %w'' [] (syscall W (WriteText pid_file (format_int (st_pid st)) 420))) (\<lambda>_.
              ret ())))))"

definition cmd_start :: "'k commands \<Rightarrow> 'k cmd_setting \<Rightarrow> global_options \<Rightarrow> string list \<Rightarrow> ('k, unit) command" where
  "cmd_start W cs opts args =
     (case args of
        [cid] \<Rightarrow> andthen (load_container W cs opts cid) (\<lambda>(hs, c). on_host W (\<lambda>H. start_container H hs c))
      | _ \<Rightarrow> fail (Errorf ''start needs exactly one container id'' []))"

definition cmd_state :: "'k commands \<Rightarrow> 'k cmd_setting \<Rightarrow> global_options \<Rightarrow> string list \<Rightarrow> ('k, oci_state) command" where
  "cmd_state W cs opts args =
     (case args of
        [cid] \<Rightarrow> andthen (load_container W cs opts cid) (\<lambda>(hs, c). on_host W (\<lambda>H. container_state H hs c))
      | _ \<Rightarrow> fail (Errorf ''state needs exactly one container id'' []))"

abbreviation SIGTERM :: int where "SIGTERM \<equiv> 15"

definition cmd_kill :: "'k commands \<Rightarrow> 'k cmd_setting \<Rightarrow> global_options \<Rightarrow> string list \<Rightarrow> ('k, unit) command" where
  "cmd_kill W cs opts args =
     andthen (lift (parse_flags (switch_set [''all'']) args False)) (\<lambda>(everyone, rest).
     case rest of
       [] \<Rightarrow> fail (Errorf ''kill needs a container id'' [])
     | cid # sigs \<Rightarrow>
         if everyone then fail (Errorf ''--all is not implemented yet: lightpod would signal only the container's init process, not every process in it. Run without it'' [])
         else
           andthen (lift (case sigs of [] \<Rightarrow> Inr SIGTERM | sig # _ \<Rightarrow> parse_signal sig)) (\<lambda>sig.
           andthen (load_container W cs opts cid) (\<lambda>(hs, c).
           on_host W (\<lambda>H. kill_container H hs c sig))))"

definition cmd_delete :: "'k commands \<Rightarrow> 'k cmd_setting \<Rightarrow> global_options \<Rightarrow> string list \<Rightarrow> ('k, unit) command" where
  "cmd_delete W cs opts args =
     andthen (lift (parse_flags (switch_set [''force'', ''f'']) args False)) (\<lambda>(force, rest).
     case rest of
       [cid] \<Rightarrow> andthen (load_container W cs opts cid) (\<lambda>(hs, c). on_host W (\<lambda>H. delete_container H hs c force))
     | _ \<Rightarrow> fail (Errorf ''delete needs exactly one container id'' []))"

text \<open>\<^verbatim>\<open>ps\<close> prints these records, as JSON or as a table.\<close>

definition cmd_ps :: "'k commands \<Rightarrow> 'k cmd_setting \<Rightarrow> global_options \<Rightarrow> string list \<Rightarrow> ('k, container_record list) command" where
  "cmd_ps W cs opts args =
     andthen (lift (parse_flags (switch_set [''json'']) args False)) (\<lambda>(json, rest).
     andthen (open_store W cs opts) (\<lambda>(hs, mode).
     on_host W (\<lambda>H. with_store H (\<lambda>K. list_records K (hs_root hs)))))"

text \<open>
  \<^verbatim>\<open>prune\<close> prints the ids it removed, or would remove. An error about one container is printed and the
  loop goes on.
\<close>

fun prune_each ::
  "'k commands \<Rightarrow> 'k cmd_setting \<Rightarrow> global_options \<Rightarrow> bool \<Rightarrow> container_record list \<Rightarrow> ('k, string list) command" where
  "prune_each W cs opts dry [] = ret []"
| "prune_each W cs opts dry (r # rs) =
     (if rec_status r \<noteq> StatusStopped then prune_each W cs opts dry rs
      else if dry then andthen (prune_each W cs opts dry rs) (\<lambda>ids. ret (rec_id r # ids))
      else
        andthen (attempt (andthen (load_container W cs opts (rec_id r)) (\<lambda>(hs, c).
                   on_host W (\<lambda>H. delete_container H hs c False)))) (\<lambda>done.
        andthen (prune_each W cs opts dry rs) (\<lambda>ids.
        ret (case done of Inl _ \<Rightarrow> ids | Inr _ \<Rightarrow> rec_id r # ids))))"

definition cmd_prune :: "'k commands \<Rightarrow> 'k cmd_setting \<Rightarrow> global_options \<Rightarrow> string list \<Rightarrow> ('k, string list) command" where
  "cmd_prune W cs opts args =
     andthen (lift (parse_flags (switch_set [''dry-run'']) args False)) (\<lambda>(dry, rest).
     andthen (open_store W cs opts) (\<lambda>(hs, mode).
     andthen (on_host W (\<lambda>H. with_store H (\<lambda>K. list_records K (hs_root hs)))) (\<lambda>rs.
     prune_each W cs opts dry rs)))"

text \<open>\<^verbatim>\<open>run\<close> exits with the code of the container; an error of the clean-up is only printed.\<close>

definition cmd_run :: "'k commands \<Rightarrow> 'k cmd_setting \<Rightarrow> global_options \<Rightarrow> string list \<Rightarrow> ('k, int) command" where
  "cmd_run W cs opts args =
     andthen (lift (parse_flags run_flag_set args no_flags)) (\<lambda>(rf, rest).
     case rest of
       [] \<Rightarrow> fail (Errorf ''run needs a container id'' [])
     | cid # command \<Rightarrow>
         andthen (new_from_flags W cs opts rf cid command) (\<lambda>(hs, c).
         andthen (on_host W (\<lambda>H. run_container H hs c)) (\<lambda>code.
         andthen (attempt (on_host W (\<lambda>H. delete_container H hs c True))) (\<lambda>_.
         ret code))))"

text \<open>The spec that \<^verbatim>\<open>spec\<close> prints, or none when it was written into a bundle.\<close>

definition spec_flag_set :: "(string \<times> string) flag_set" where
  "spec_flag_set = [
     (''rootfs'', string_flag (\<lambda>s (_, b). (s, b))),
     (''bundle'', string_flag (\<lambda>s (r, _). (r, s)))]"

definition cmd_spec :: "'k commands \<Rightarrow> 'k cmd_setting \<Rightarrow> string list \<Rightarrow> ('k, spec option) command" where
  "cmd_spec W cs args =
     andthen (lift (parse_flags spec_flag_set args (''rootfs'', []))) (\<lambda>((rootfs, bundle_dir), rest).
     let command = (if rest = [] then [''sh''] else rest);
         spec = default_spec rootfs command (detect_privilege_mode (cs_euid cs) = ModeRootless)
     in if bundle_dir \<noteq> []
        then andthen (wrap_eff ''creating bundle directory: %w'' [] (syscall W (MakeDirs bundle_dir 493))) (\<lambda>_.
             andthen (save_bundle W cs spec bundle_dir) (\<lambda>_. ret None))
        else ret (Some spec))"

text \<open>
  \<^verbatim>\<open>main\<close>: the exit status. The two stages of the init process are programs of their own (theory
  Container_Init); here they are an argument.
\<close>

definition void :: "('k, 'a) command \<Rightarrow> ('k, int) command" where
  "void m = andthen m (\<lambda>_. ret 0)"

definition run_command ::
  "'k commands \<Rightarrow> 'k cmd_setting \<Rightarrow> (verb \<Rightarrow> ('k, unit) command) \<Rightarrow> string list \<Rightarrow> ('k, int) command" where
  "run_command W cs init args =
     andthen (lift (select_command args)) (\<lambda>(opts, v, rest).
     case v of
       Init1 \<Rightarrow> void (init Init1)
     | Init2 \<Rightarrow> void (init Init2)
     | CreateVerb \<Rightarrow> void (cmd_create W cs opts rest)
     | StartVerb \<Rightarrow> void (cmd_start W cs opts rest)
     | RunVerb \<Rightarrow> cmd_run W cs opts rest
     | StateVerb \<Rightarrow> void (cmd_state W cs opts rest)
     | KillVerb \<Rightarrow> void (cmd_kill W cs opts rest)
     | DeleteVerb \<Rightarrow> void (cmd_delete W cs opts rest)
     | PsVerb \<Rightarrow> void (cmd_ps W cs opts rest)
     | PruneVerb \<Rightarrow> void (cmd_prune W cs opts rest)
     | SpecVerb \<Rightarrow> void (cmd_spec W cs rest)
     | HelpVerb \<Rightarrow> ret 0
     | VersionVerb \<Rightarrow> ret 0)"

definition exit_status :: "int result \<Rightarrow> int" where
  "exit_status r = (case r of Inl _ \<Rightarrow> 1 | Inr code \<Rightarrow> code)"

definition main ::
  "'k commands \<Rightarrow> 'k cmd_setting \<Rightarrow> (verb \<Rightarrow> ('k, unit) command) \<Rightarrow> string list \<Rightarrow> ('k, int) command" where
  "main W cs init args = andthen (attempt (run_command W cs init args)) (\<lambda>r. ret (exit_status r))"

end
