(* ===== verification/Host_Runs.thy ===== *)
theory Host_Runs
  imports Container Store_Safety
begin

section \<open>Runs on the host\<close>

text \<open>
  What holds of any run: the log is the trace of the world the program ran on, a component run on the
  host makes calls of its own kind only, and a run that makes no call to the store leaves a
  world's disk as it was.
\<close>

subsection \<open>The log is the trace of the run\<close>

definition after :: "('c, 'v, 'k) world \<Rightarrow> ('c \<times> 'r) list \<Rightarrow> 'k \<Rightarrow> 'k" where
  "after K xs k = fold (\<lambda>x k. snd (K (fst x) k)) xs k"

lemma after_simps [simp]: "after K [] k = k" "after K (x # xs) k = after K xs (snd (K (fst x) k))"
    "after K (xs @ ys) k = after K ys (after K xs k)"
  by (simp_all add: after_def)

definition traced :: "('c, 'v, 'k) world \<Rightarrow> ('c, 'v, 'k, 'a) prog \<Rightarrow> bool" where
  "traced K m \<longleftrightarrow> (\<forall>p. \<exists>new. snd (snd (m p)) = snd p @ new \<and> fst (snd (m p)) = after K new (fst p))"

named_theorems traced_intros \<open>programs whose log is the trace of their world\<close>

lemma tracedE:
  assumes "traced K m" "m p = (r, q)"
  obtains new where "snd q = snd p @ new" "fst q = after K new (fst p)"
  using assms unfolding traced_def by (metis snd_conv)

lemma traced_ret [traced_intros]: "traced K (ret x)"
  and traced_fail [traced_intros]: "traced K (fail e)"
  and traced_lift [traced_intros]: "traced K (lift r)"
  by (simp_all add: traced_def ret_def fail_def lift_def)

lemma traced_syscall [traced_intros]: "traced K (syscall K c)"
  by (auto simp: traced_def syscall_def sys_def split: prod.split sum.split)

lemma traced_wrap [traced_intros]: "traced K m \<Longrightarrow> traced K (wrap_eff s a m)"
  by (simp add: traced_def wrap_eff_def case_prod_beta)

lemma traced_attempt [traced_intros]: "traced K m \<Longrightarrow> traced K (attempt m)"
  by (simp add: traced_def attempt_def case_prod_beta)

lemma traced_andthen [traced_intros]:
  assumes m: "traced K m" and f: "\<And>x. traced K (f x)"
  shows "traced K (andthen m f)"
  unfolding traced_def
proof
  fix p
  obtain r p1 where mp: "m p = (r, p1)" by (meson surj_pair)
  obtain new where new: "snd p1 = snd p @ new" "fst p1 = after K new (fst p)" using m mp by (rule tracedE)
  show "\<exists>new. snd (snd (andthen m f p)) = snd p @ new \<and> fst (snd (andthen m f p)) = after K new (fst p)"
  proof (cases r)
    case (Inl e)
    then show ?thesis using mp new by (auto simp: andthen_def)
  next
    case (Inr x)
    obtain r' q where fx: "f x p1 = (r', q)" by (meson surj_pair)
    obtain new' where "snd q = snd p1 @ new'" "fst q = after K new' (fst p1)" using f fx by (rule tracedE)
    then show ?thesis using Inr mp new fx by (intro exI [of _ "new @ new'"]) (simp add: andthen_def)
  qed
qed

lemma traced_if [traced_intros]: "(b \<Longrightarrow> traced K m) \<Longrightarrow> (\<not> b \<Longrightarrow> traced K n) \<Longrightarrow> traced K (if b then m else n)"
  by simp

lemma traced_option [traced_intros]:
  "(x = None \<Longrightarrow> traced K m) \<Longrightarrow> (\<And>y. x = Some y \<Longrightarrow> traced K (f y)) \<Longrightarrow>
   traced K (case x of None \<Rightarrow> m | Some y \<Rightarrow> f y)"
  by (cases x) simp_all

lemma traced_sum [traced_intros]:
  "(\<And>e. x = Inl e \<Longrightarrow> traced K (f e)) \<Longrightarrow> (\<And>y. x = Inr y \<Longrightarrow> traced K (g y)) \<Longrightarrow>
   traced K (case x of Inl e \<Rightarrow> f e | Inr y \<Rightarrow> g y)"
  by (cases x) simp_all

lemma traced_for_each [traced_intros]: "(\<And>x. x \<in> set xs \<Longrightarrow> traced K (f x)) \<Longrightarrow> traced K (for_each f xs)"
  by (induction xs) (auto intro!: traced_intros)

lemma traced_log: "traced K m \<Longrightarrow> m p = (r, q) \<Longrightarrow> \<exists>new. snd q = snd p @ new"
  by (meson tracedE)

lemma traced_only: "traced K m \<Longrightarrow> only (\<lambda>_. True) m"
  by (auto simp: traced_def only_def list_all_iff)

text \<open>A part of the state that no call of a run changes is the same after it.\<close>

lemma traced_keeps:
  assumes "traced K m" "only P m" "m p = (r, q)" and "\<And>c k. P c \<Longrightarrow> f (snd (K c k)) = f k"
  shows "f (fst q) = f (fst p)"
proof -
  obtain new where new: "snd q = snd p @ new" "fst q = after K new (fst p)" using assms(1,3) by (rule tracedE)
  have P: "list_all (P \<circ> fst) new" using only_log [OF assms(2,3)] new(1) by simp
  have "list_all (P \<circ> fst) xs \<Longrightarrow> f (after K xs k) = f k" for xs k
    using assms(4) by (induction xs arbitrary: k) auto
  then show ?thesis using new(2) P by simp
qed

subsection \<open>A component on the host\<close>

locale host_part =
  fixes tag :: "'c \<Rightarrow> 'd"
    and out :: "'w \<Rightarrow> 'v"
    and into :: "'v \<Rightarrow> 'w"
  assumes out_into: "out (into v) = v"
    and tag_eq: "tag c = tag d \<longleftrightarrow> c = d"
begin

definition lift_entry :: "'c \<times> (errno + 'v) \<Rightarrow> 'd \<times> (errno + 'w)" where
  "lift_entry x = (case x of (c, a) \<Rightarrow> (tag c, case a of Inl e \<Rightarrow> Inl e | Inr v \<Rightarrow> Inr (into v)))"

lemma embed_run:
  assumes "embed tag out into m p = (r, q)"
  obtains k' l where "m (fst p, []) = (r, (k', l))" "q = (k', snd p @ map lift_entry l)"
  using assms that by (cases p) (auto simp: embed_def lift_entry_def split: prod.splits)

lemma lift_entry_eq: "lift_entry x = lift_entry y \<longleftrightarrow> x = y"
proof -
  have "into v = into w \<longleftrightarrow> v = w" for v w using out_into by metis
  then show ?thesis by (cases x; cases y; cases "snd x"; cases "snd y") (auto simp: lift_entry_def tag_eq)
qed

lemma only_embed: "only P m \<Longrightarrow> only (\<lambda>c. \<exists>d. c = tag d \<and> P d) (embed tag out into m)"
  unfolding only_def
proof (intro allI)
  fix p
  assume only: "\<forall>p. \<exists>new. snd (snd (m p)) = snd p @ new \<and> list_all (P \<circ> fst) new"
  obtain r q where run: "embed tag out into m p = (r, q)" by (meson surj_pair)
  obtain k' l where l: "m (fst p, []) = (r, (k', l))" "q = (k', snd p @ map lift_entry l)"
    using run by (rule embed_run)
  have "list_all (P \<circ> fst) l" using only [rule_format, of "(fst p, [])"] l(1) by auto
  then have "list_all ((\<lambda>c. \<exists>d. c = tag d \<and> P d) \<circ> fst) (map lift_entry l)"
    by (force simp: list_all_iff lift_entry_def)
  then show "\<exists>new. snd (snd (embed tag out into m p)) = snd p @ new \<and> list_all ((\<lambda>c. \<exists>d. c = tag d \<and> P d) \<circ> fst) new"
    using run l(2) by auto
qed

lemma traced_embed: "traced (sub_world tag out H) m \<Longrightarrow> traced H (embed tag out into m)"
  unfolding traced_def
proof
  fix p
  assume traced: "\<forall>p. \<exists>new. snd (snd (m p)) = snd p @ new \<and> fst (snd (m p)) = after (sub_world tag out H) new (fst p)"
  obtain r q where run: "embed tag out into m p = (r, q)" by (meson surj_pair)
  obtain k' l where l: "m (fst p, []) = (r, (k', l))" "q = (k', snd p @ map lift_entry l)"
    using run by (rule embed_run)
  have "snd (sub_world tag out H c k) = snd (H (tag c) k)" for c k
    by (simp add: sub_world_def split: prod.split sum.split)
  then have "after H (map lift_entry xs) k = after (sub_world tag out H) xs k" for xs k
    by (induction xs arbitrary: k) (simp_all add: lift_entry_def split: prod.split)
  moreover have "k' = after (sub_world tag out H) l (fst p)"
    using traced [rule_format, of "(fst p, [])"] l(1) by auto
  ultimately show "\<exists>new. snd (snd (embed tag out into m p)) = snd p @ new \<and>
      fst (snd (embed tag out into m p)) = after H new (fst p)"
    using run l(2) by auto
qed

end

interpretation store_part: host_part StoreCall store_out StoreAnswer
  by unfold_locales simp_all

interpretation cg_part: host_part CgCall cg_out CgAnswer
  by unfold_locales simp_all

interpretation ns_part: host_part NsCall ns_out NsAnswer
  by unfold_locales simp_all

interpretation hook_part: host_part HookCall hook_out HookAnswer
  by unfold_locales simp_all

subsection \<open>Every component leaves its trace\<close>

lemma traced_cg_write [traced_intros]: "traced K (cg_write K m f v)"
  unfolding cg_write_def Let_def by (intro traced_intros)

lemma traced_climb: "traced K (climb K mp cur best)"
proof -
  have "\<exists>new. snd (snd (climb K mp cur best p)) = snd p @ new \<and> fst (snd (climb K mp cur best p)) = after K new (fst p)" for p
  proof (induction K mp cur best p rule: climb.induct)
    case (1 K mp cur best p)
    obtain r p' where 2: "syscall K (CgWritable cur) p = (r, p')" by (meson surj_pair)
    obtain new where new: "snd p' = snd p @ new" "fst p' = after K new (fst p)" by (rule tracedE [OF traced_syscall 2])
    show ?case
    proof (cases "dir_of cur = cur \<or> \<not> has_prefix (dir_of cur) mp")
      case True
      then show ?thesis using 2 new by (simp add: climb.simps [of K mp cur best p])
    next
      case False
      then obtain new' where new': "snd (snd (climb K mp (dir_of cur) (if is_ok r then cur else best) p')) = snd p' @ new'"
        "fst (snd (climb K mp (dir_of cur) (if is_ok r then cur else best) p')) = after K new' (fst p')"
        using 1 [OF 2 [symmetric] refl refl] by blast
      show ?thesis using 2 new new' False
        by (intro exI [of _ "new @ new'"]) (simp add: climb.simps [of K mp cur best p] Let_def)
    qed
  qed
  then show ?thesis by (simp add: traced_def)
qed

lemma traced_enable_below: "traced K (enable_below K e d ps)"
  by (induction K e d ps rule: enable_below.induct) (auto intro!: traced_intros simp: Let_def)

lemma traced_check_controllers: "traced K (check_controllers K mp path r)"
  unfolding check_controllers_def root_has_no_controllers_def Let_def by (intro traced_intros)

lemma traced_new_cgroup_manager [traced_intros]: "traced K (new_cgroup_manager K i spec mode d)"
  unfolding new_cgroup_manager_def cgroup_root_def cgroup2_mountpoint_def delegated_root_def own_cgroup_path_def
    enable_controllers_def Let_def case_prod_beta
  by (intro traced_intros traced_climb traced_enable_below traced_check_controllers)

lemma traced_cg_apply [traced_intros]: "traced K (cg_apply K m pid)"
  unfolding cg_apply_def by (intro traced_intros)

lemma traced_set_resources [traced_intros]: "traced K (set_resources K m r)"
  unfolding set_resources_def set_memory_def set_cpu_def Let_def
  by (intro traced_intros traced_cg_write)

lemma traced_cg_cleanup [traced_intros]: "traced K (cg_cleanup K m)"
  unfolding cg_cleanup_def by (intro traced_intros)

lemma traced_write_id_maps [traced_intros]: "traced K (write_id_maps K uid gid pid us gs mode)"
proof -
  have helper: "traced K (case a of NsExit False s \<Rightarrow> fail (e s) | _ \<Rightarrow> ret ())" for a e
    by (cases a) (auto intro!: traced_intros split: bool.split)
  show ?thesis
    unfolding write_id_maps_def write_map_file_def run_id_map_helper_def Let_def
    by (intro traced_intros helper)
qed

lemma traced_run_hooks [traced_intros]: "traced K (run_hooks K env hs st)"
proof -
  have hook: "traced K (run_hook K env h st)" for h
  proof -
    have "traced K (case y of HookOk \<Rightarrow> ret () | HookFailed m s \<Rightarrow> fail (i m s) | HookTimedOut \<Rightarrow> fail g)" for y g i
      by (cases y) (auto intro!: traced_intros)
    then show ?thesis unfolding run_hook_def by (intro traced_intros)
  qed
  have "traced K (run_hooks_from K env st i hs)" for i
    by (induction hs arbitrary: i) (auto intro!: traced_intros hook)
  then show ?thesis by (simp add: run_hooks_def)
qed

lemma traced_poststop [traced_intros]: "traced K (run_poststop_hooks K env hs st)"
  unfolding run_poststop_hooks_def by (intro traced_intros traced_intros)

lemma traced_with_lock: "traced K m \<Longrightarrow> traced K (with_lock K root m)"
proof -
  assume m: "traced K m"
  have "traced K (\<lambda>p. case m p of (r, p') \<Rightarrow> (r, snd (syscall K c p')))" for c
    unfolding traced_def
  proof
    fix p
    obtain r p1 where 1: "m p = (r, p1)" by (meson surj_pair)
    obtain x p2 where 2: "syscall K c p1 = (x, p2)" by (meson surj_pair)
    show "\<exists>new. snd (snd (case m p of (r, p') \<Rightarrow> (r, snd (syscall K c p')))) = snd p @ new \<and>
        fst (snd (case m p of (r, p') \<Rightarrow> (r, snd (syscall K c p')))) = after K new (fst p)"
    proof -
      obtain new where "snd p1 = snd p @ new" "fst p1 = after K new (fst p)" by (rule tracedE [OF m 1])
      moreover obtain new' where "snd p2 = snd p1 @ new'" "fst p2 = after K new' (fst p1)"
        by (rule tracedE [OF traced_syscall 2])
      ultimately show ?thesis by (intro exI [of _ "new @ new'"]) (simp add: 1 2)
    qed
  qed
  then show ?thesis unfolding with_lock_def Let_def by (intro traced_intros)
qed

lemma traced_load_record [traced_intros]: "traced K (load_record K root i)"
  unfolding load_record_def process_alive_def by (intro traced_intros)

lemma traced_save_record [traced_intros]: "traced K (save_record K root c)"
  unfolding save_record_def Let_def by (intro traced_intros)

lemma traced_create_record [traced_intros]: "traced K (create_record K root c)"
  unfolding create_record_def by (rule traced_andthen, rule traced_lift, rule traced_with_lock) (intro traced_intros)

lemma traced_delete_record [traced_intros]: "traced K (delete_record K root i)"
  unfolding delete_record_def by (rule traced_andthen, rule traced_lift, rule traced_with_lock) (intro traced_intros)

text \<open>On the host, a component makes calls of its own kind only.\<close>

lemma only_with_store:
  assumes "\<And>K. traced K (m K)" and "\<And>d. P (StoreCall d)"
  shows "only P (with_store H m)"
  unfolding with_store_def by (rule only_mono [OF store_part.only_embed [OF traced_only [OF assms(1)]]]) (auto simp: assms(2))

lemma only_with_cgroup:
  assumes "\<And>K. traced K (m K)" and "\<And>d. P (CgCall d)"
  shows "only P (with_cgroup H m)"
  unfolding with_cgroup_def by (rule only_mono [OF cg_part.only_embed [OF traced_only [OF assms(1)]]]) (auto simp: assms(2))

lemma only_with_ns:
  assumes "\<And>K. traced K (m K)" and "\<And>d. P (NsCall d)"
  shows "only P (with_ns H m)"
  unfolding with_ns_def by (rule only_mono [OF ns_part.only_embed [OF traced_only [OF assms(1)]]]) (auto simp: assms(2))

lemma only_with_hooks:
  assumes "\<And>K. traced K (m K)" and "\<And>d. P (HookCall d)"
  shows "only P (with_hooks H m)"
  unfolding with_hooks_def by (rule only_mono [OF hook_part.only_embed [OF traced_only [OF assms(1)]]]) (auto simp: assms(2))

lemma traced_with_store [traced_intros]: "(\<And>K. traced K (m K)) \<Longrightarrow> traced H (with_store H m)"
  unfolding with_store_def by (intro store_part.traced_embed)

lemma traced_with_cgroup [traced_intros]: "(\<And>K. traced K (m K)) \<Longrightarrow> traced H (with_cgroup H m)"
  unfolding with_cgroup_def by (intro cg_part.traced_embed)

lemma traced_with_ns [traced_intros]: "(\<And>K. traced K (m K)) \<Longrightarrow> traced H (with_ns H m)"
  unfolding with_ns_def by (intro ns_part.traced_embed)

lemma traced_with_hooks [traced_intros]: "(\<And>K. traced K (m K)) \<Longrightarrow> traced H (with_hooks H m)"
  unfolding with_hooks_def by (intro hook_part.traced_embed)

lemmas only_parts = only_with_store only_with_cgroup only_with_ns only_with_hooks traced_intros

end
