(* ===== verification/Lifecycle.thy ===== *)
theory Lifecycle
  imports Host_Runs
begin

section \<open>The life of a container in the store\<close>

text \<open>
  The container operations on a host whose store is a disk that only lightpod writes to, and whose
  other calls answer as they like: every operation moves the record of its container along the
  life cycle of the runtime specification or leaves it alone, and never touches another record.
\<close>

subsection \<open>A host with a disk of its own\<close>

abbreviation elsewhere :: "host_call \<Rightarrow> bool" where
  "elsewhere c \<equiv> \<forall>s. c \<noteq> StoreCall s"

definition has_disk :: "'x disk_scheme host \<Rightarrow> bool" where
  "has_disk H \<longleftrightarrow> (\<forall>c d. H (StoreCall c) d =
     (case disk_world c d of (Inl e, d') \<Rightarrow> (Inl e, d') | (Inr v, d') \<Rightarrow> (Inr (StoreAnswer v), d')))"

definition steady :: "'x disk_scheme host \<Rightarrow> bool" where
  "steady H \<longleftrightarrow> has_disk H \<and> (\<forall>c d. elsewhere c \<longrightarrow> dk_files (snd (H c d)) = dk_files d)"

lemma steady_disk: "steady H \<Longrightarrow> has_disk H"
  by (simp add: steady_def)

lemma disk_sub_world: "has_disk H \<Longrightarrow> sub_world StoreCall store_out H = disk_world"
  unfolding fun_eq_iff sub_world_def has_disk_def by (auto split: prod.split sum.split)

lemma stored_cong: "dk_files d = dk_files d' \<Longrightarrow> stored root d = stored root d'"
  by (simp add: fun_eq_iff stored_def)

lemma stored_wf:
  assumes "stored root d cid = Some c"
  shows "wf_record c" "validate_id cid = Inr ()"
  using assms
  by (auto simp: stored_def read_record_def ebind_def ewrap_def split: if_splits option.splits sum.splits content.splits
      intro: decode_wf)

lemma with_store_disk:
  assumes "has_disk H" and "m disk_world (fst p, []) = (r, (d', l))"
  shows "\<exists>q. with_store H m p = (r, q) \<and> fst q = d'"
  using assms by (cases p) (simp add: with_store_def embed_def disk_sub_world)

lemma load_on_disk:
  assumes "has_disk H"
  shows "\<exists>r q. with_store H (\<lambda>K. load_record K root cid) p = (r, q) \<and> fst q = fst p \<and>
    (case stored root (fst p) cid of None \<Rightarrow> (\<exists>e. r = Inl e) | Some c \<Rightarrow> r = Inr (reconcile_record (disk_alive (fst p)) c))"
proof -
  obtain r l where "load_record disk_world root cid (fst p, []) = (r, (fst p, l))"
    "case stored root (fst p) cid of None \<Rightarrow> (\<exists>e. r = Inl e) | Some c \<Rightarrow> r = Inr (reconcile_record (disk_alive (fst p)) c)"
    using disk_load_record [of root cid "fst p" "[]"] by blast
  then show ?thesis using with_store_disk [where m = "\<lambda>K. load_record K root cid", OF assms] by blast
qed

lemma save_on_disk:
  assumes "has_disk H" and rs: "list_all normal rs" "rs \<noteq> []" and ok: "validate_id (rec_id c) = Inr ()" "wf_record c"
  shows "\<exists>q. with_store H (\<lambda>K. save_record K (path_of rs) c) p = (Inr (), q) \<and>
    stored (path_of rs) (fst q) = (stored (path_of rs) (fst p))(rec_id c \<mapsto> stamp c)"
proof -
  obtain l where "save_record disk_world (path_of rs) c (fst p, []) = (Inr (), (saved_disk (path_of rs) c (fst p), l))"
    using disk_save_runs [OF ok(1)] by blast
  then show ?thesis
    using with_store_disk [where m = "\<lambda>K. save_record K (path_of rs) c", OF assms(1)] stored_saved [OF rs ok] by metis
qed

lemma create_on_disk:
  assumes "has_disk H" and rs: "list_all normal rs" "rs \<noteq> []" and ok: "validate_id (rec_id c) = Inr ()" "wf_record c"
  shows "\<exists>r q. with_store H (\<lambda>K. create_record K (path_of rs) c) p = (r, q) \<and>
    (if stored (path_of rs) (fst p) (rec_id c) = None
     then r = Inr () \<and> stored (path_of rs) (fst q) = (stored (path_of rs) (fst p))(rec_id c \<mapsto> stamp c)
     else (\<exists>e. r = Inl e) \<and> fst q = fst p)"
proof -
  obtain r d' l where run: "create_record disk_world (path_of rs) c (fst p, []) = (r, (d', l))"
    and d': "if stored (path_of rs) (fst p) (rec_id c) = None
     then r = Inr () \<and> stored (path_of rs) d' = (stored (path_of rs) (fst p))(rec_id c \<mapsto> stamp c)
     else is_ok r = False \<and> d' = fst p"
    using disk_create_record [OF rs ok, of "fst p" "[]"] by blast
  obtain q where "with_store H (\<lambda>K. create_record K (path_of rs) c) p = (r, q)" "fst q = d'"
    using with_store_disk [where m = "\<lambda>K. create_record K (path_of rs) c", OF assms(1) run] by blast
  then show ?thesis using d' by (cases r) (auto split: if_splits)
qed

lemma delete_on_disk:
  assumes "has_disk H" and rs: "list_all normal rs" "rs \<noteq> []" and ok: "validate_id cid = Inr ()"
  shows "\<exists>q. with_store H (\<lambda>K. delete_record K (path_of rs) cid) p = (Inr (), q) \<and>
    stored (path_of rs) (fst q) = (stored (path_of rs) (fst p))(cid := None)"
proof -
  obtain d' l where "delete_record disk_world (path_of rs) cid (fst p, []) = (Inr (), (d', l))"
    "stored (path_of rs) d' = (stored (path_of rs) (fst p))(cid := None)"
    using disk_delete_record [OF rs ok] by blast
  then show ?thesis
    using with_store_disk [where m = "\<lambda>K. delete_record K (path_of rs) cid", OF assms(1)] by metis
qed

subsection \<open>What leaves the store alone\<close>

lemma traced_quietly [traced_intros]: "traced H m \<Longrightarrow> traced H (quietly m)"
  unfolding quietly_def by (intro traced_intros)

lemma only_quietly [only_intros]: "only P m \<Longrightarrow> only P (quietly m)"
  unfolding quietly_def by (intro only_intros)

definition aloof :: "'x disk_scheme host \<Rightarrow> ('x disk_scheme, 'a) host_prog \<Rightarrow> bool" where
  "aloof H m \<longleftrightarrow> traced H m \<and> only elsewhere m"

named_theorems aloof_intros \<open>programs that make no call to the store\<close>

lemma aloof_files: "steady H \<Longrightarrow> aloof H m \<Longrightarrow> m p = (r, q) \<Longrightarrow> dk_files (fst q) = dk_files (fst p)"
  unfolding aloof_def steady_def by (rule traced_keeps [of H m elsewhere]) auto

lemma aloof_stored: "steady H \<Longrightarrow> aloof H m \<Longrightarrow> m p = (r, q) \<Longrightarrow> stored root (fst q) = stored root (fst p)"
  by (intro stored_cong aloof_files)

lemma aloof_basic [aloof_intros]:
  "aloof H (ret x)" "aloof H (fail e)" "aloof H (lift r)" "elsewhere c \<Longrightarrow> aloof H (syscall H c)"
  "aloof H m \<Longrightarrow> aloof H (wrap_eff s a m)" "aloof H m \<Longrightarrow> aloof H (attempt m)" "aloof H m \<Longrightarrow> aloof H (quietly m)"
  by (auto simp: aloof_def intro!: traced_intros only_intros)

lemma aloof_andthen [aloof_intros]: "aloof H m \<Longrightarrow> (\<And>x. aloof H (f x)) \<Longrightarrow> aloof H (andthen m f)"
  by (auto simp: aloof_def intro!: traced_intros only_intros)

lemma aloof_if [aloof_intros]: "(b \<Longrightarrow> aloof H m) \<Longrightarrow> (\<not> b \<Longrightarrow> aloof H n) \<Longrightarrow> aloof H (if b then m else n)"
  by simp

lemma aloof_option [aloof_intros]:
  "(x = None \<Longrightarrow> aloof H m) \<Longrightarrow> (\<And>y. x = Some y \<Longrightarrow> aloof H (f y)) \<Longrightarrow> aloof H (case x of None \<Rightarrow> m | Some y \<Rightarrow> f y)"
  by (cases x) simp_all

lemma aloof_sum [aloof_intros]:
  "(\<And>e. x = Inl e \<Longrightarrow> aloof H (f e)) \<Longrightarrow> (\<And>y. x = Inr y \<Longrightarrow> aloof H (g y)) \<Longrightarrow>
   aloof H (case x of Inl e \<Rightarrow> f e | Inr y \<Rightarrow> g y)"
  by (cases x) simp_all

lemma aloof_parts [aloof_intros]:
  assumes "\<And>K. traced K (m K)"
  shows "aloof H (with_cgroup H m)"
  using assms by (auto simp: aloof_def intro!: traced_intros only_with_cgroup)

lemma aloof_ns [aloof_intros]: "(\<And>K. traced K (m K)) \<Longrightarrow> aloof H (with_ns H m)"
  by (auto simp: aloof_def intro!: traced_intros only_with_ns)

lemma aloof_hooks [aloof_intros]: "(\<And>K. traced K (m K)) \<Longrightarrow> aloof H (with_hooks H m)"
  by (auto simp: aloof_def intro!: traced_intros only_with_hooks)

lemma aloof_time [aloof_intros]: "aloof H (the_time H)"
  unfolding the_time_def by (intro aloof_intros) simp

lemma aloof_send [aloof_intros]: "aloof H (send_sync H t)"
  unfolding send_sync_def by (intro aloof_intros) simp

lemma aloof_await [aloof_intros]: "aloof H (await_sync H t)"
proof -
  have "aloof H (case a of Message m \<Rightarrow> lift (await_message t m) | _ \<Rightarrow> fail (await_eof t))" for a
    by (cases a) (auto intro!: aloof_intros)
  then show ?thesis unfolding await_sync_def by (intro aloof_intros) simp
qed

lemma aloof_reporting [aloof_intros]: "aloof H m \<Longrightarrow> aloof H (reporting H hs m)"
  unfolding reporting_def by (intro aloof_intros) simp_all

lemma aloof_setup: "aloof H (create_setup H hs c spec)"
  unfolding create_setup_def make_fifo_def by (intro aloof_intros) simp_all

lemma aloof_identity: "aloof H (create_identity H hs c spec pid)"
  unfolding create_identity_def Let_def case_prod_beta
  by (intro aloof_intros traced_intros) simp_all

lemma aloof_wait: "aloof H (wait_for_exit H pid n)"
  by (induction n) (auto intro!: aloof_intros)

lemma aloof_stop: "aloof H (stop_container H pid)"
  unfolding stop_container_def by (intro aloof_intros aloof_wait) simp

subsection \<open>The life cycle\<close>

text \<open>
  An operation that succeeds takes the record as it is loaded, reconciled with the live processes, to
  the record that is stored afterwards.
\<close>

datatype life_op = LifeCreate | LifeStart | LifeKill int | LifeDelete bool

fun life :: "life_op \<Rightarrow> container_record option \<Rightarrow> container_record option \<Rightarrow> bool" where
  "life LifeCreate None (Some c) \<longleftrightarrow> rec_status c = StatusCreated \<and> 0 < rec_pid c"
| "life LifeStart (Some c) (Some c') \<longleftrightarrow> rec_status c = StatusCreated \<and> c' = stamp (c\<lparr>rec_status := StatusRunning\<rparr>)"
| "life (LifeKill sig) (Some c) (Some c') \<longleftrightarrow> rec_status c \<noteq> StatusStopped \<and> c' = c"
| "life (LifeDelete force) (Some c) None \<longleftrightarrow> force \<or> rec_status c = StatusStopped"
| "life _ _ _ \<longleftrightarrow> False"

fun life_run :: "life_op \<Rightarrow> 'k host \<Rightarrow> host_setting \<Rightarrow> container \<Rightarrow> ('k, unit) host_prog" where
  "life_run LifeCreate H hs c = andthen (create_container H hs c) (\<lambda>_. ret ())"
| "life_run LifeStart H hs c = start_container H hs c"
| "life_run (LifeKill sig) H hs c = kill_container H hs c sig"
| "life_run (LifeDelete force) H hs c = delete_container H hs c force"

text \<open>Every record is filed under its own id.\<close>

definition well_filed :: "(string \<Rightarrow> container_record option) \<Rightarrow> bool" where
  "well_filed m \<longleftrightarrow> (\<forall>cid c. m cid = Some c \<longrightarrow> rec_id c = cid)"

text \<open>Init processes get positive pids; annotations of the spec are a map.\<close>

definition gives_pids :: "'k host \<Rightarrow> bool" where
  "gives_pids H \<longleftrightarrow> (\<forall>flags k. \<exists>pid. 0 < pid \<and> pid < 2 ^ 31 \<and>
     (fst (H (StartInit flags) k) = Inr (Started pid) \<or> (\<exists>e. fst (H (StartInit flags) k) = Inl e)))"

definition proper_handle :: "string list \<Rightarrow> host_setting \<Rightarrow> container \<Rightarrow> spec \<Rightarrow> bool" where
  "proper_handle rs hs c spec \<longleftrightarrow> list_all normal rs \<and> rs \<noteq> [] \<and> hs_root hs = path_of rs \<and>
     validate_id (ct_id c) = Inr () \<and> ct_spec c = Some spec \<and> sorted_wrt (<) (map fst (spec_annotations spec))"

definition settles :: "string \<Rightarrow>
    ((string \<Rightarrow> container_record option) \<Rightarrow> (string \<Rightarrow> container_record option) \<Rightarrow> bool) \<Rightarrow>
    ('x disk_scheme, 'a) host_prog \<Rightarrow> bool" where
  "settles root Q m \<longleftrightarrow> (\<forall>p r q. m p = (r, q) \<longrightarrow>
     (case r of Inl e \<Rightarrow> stored root (fst q) = stored root (fst p)
      | Inr x \<Rightarrow> Q (stored root (fst p)) (stored root (fst q))))"

lemma settlesD: "settles root Q m \<Longrightarrow> m p = (r, q) \<Longrightarrow>
    case r of Inl e \<Rightarrow> stored root (fst q) = stored root (fst p) | Inr x \<Rightarrow> Q (stored root (fst p)) (stored root (fst q))"
  unfolding settles_def by blast

lemma settles_then:
  assumes "steady H" "aloof H m" "\<And>x. settles root Q (f x)"
  shows "settles root Q (andthen m f)"
  unfolding settles_def
proof (intro allI impI)
  fix p r q
  assume run: "andthen m f p = (r, q)"
  obtain x p1 where 1: "m p = (x, p1)" by (meson surj_pair)
  have "stored root (fst p1) = stored root (fst p)" by (rule aloof_stored [OF assms(1,2) 1])
  then show "case r of Inl e \<Rightarrow> stored root (fst q) = stored root (fst p)
      | Inr x \<Rightarrow> Q (stored root (fst p)) (stored root (fst q))"
  proof (cases x)
    case (Inr y)
    then have "f y p1 = (r, q)" using run 1 by (simp add: andthen_def)
    from settlesD [OF assms(3) this] \<open>stored root (fst p1) = stored root (fst p)\<close>
    show ?thesis by (simp only:)
  qed (use run 1 in \<open>auto simp: andthen_def\<close>)
qed

lemma settles_save:
  assumes "steady H" "list_all normal rs" "rs \<noteq> []" "validate_id (rec_id c) = Inr ()" "wf_record c"
    and "\<And>m. Q m (m(rec_id c \<mapsto> stamp c))"
  shows "settles (path_of rs) Q (with_store H (\<lambda>K. save_record K (path_of rs) c))"
  unfolding settles_def
proof (intro allI impI)
  fix p r q
  assume "with_store H (\<lambda>K. save_record K (path_of rs) c) p = (r, q)"
  then show "case r of Inl e \<Rightarrow> stored (path_of rs) (fst q) = stored (path_of rs) (fst p)
      | Inr x \<Rightarrow> Q (stored (path_of rs) (fst p)) (stored (path_of rs) (fst q))"
    using save_on_disk [OF steady_disk [OF assms(1)] assms(2-5), of p] assms(6) by auto
qed

lemma settles_quiet:
  assumes "steady H" "settles root Q m" "aloof H h" "\<And>p. \<exists>q. h p = (Inr (), q)"
  shows "settles root Q (andthen m (\<lambda>_. h))"
  unfolding settles_def
proof (intro allI impI)
  fix p r q
  assume run: "andthen m (\<lambda>_. h) p = (r, q)"
  obtain x p1 where 1: "m p = (x, p1)" by (meson surj_pair)
  obtain p2 where 2: "h p1 = (Inr (), p2)" using assms(4) by blast
  note settlesD [OF assms(2) 1] aloof_stored [OF assms(1,3) 2, of root]
  then show "case r of Inl e \<Rightarrow> stored root (fst q) = stored root (fst p)
      | Inr x \<Rightarrow> Q (stored root (fst p)) (stored root (fst q))"
    using run 1 2 by (cases x) (auto simp: andthen_def simp del: split_paired_All)
qed

subsection \<open>Create\<close>

definition created_as :: "container \<Rightarrow> int \<Rightarrow> (string \<Rightarrow> container_record option) \<Rightarrow> (string \<Rightarrow> container_record option) \<Rightarrow> bool" where
  "created_as c pid m m' \<longleftrightarrow> (\<exists>r. rec_id r = ct_id c \<and> rec_status r = StatusCreated \<and> rec_pid r = pid \<and> m' = m(ct_id c \<mapsto> r))"

lemma handshake_settles:
  assumes "steady H" "proper_handle rs hs c spec" and "0 \<le> pid" "pid < 2 ^ 31"
  shows "settles (path_of rs) (created_as c pid) (create_handshake H hs c spec pid cg)"
proof -
  have h: "list_all normal rs" "rs \<noteq> []" "hs_root hs = path_of rs" "validate_id (ct_id c) = Inr ()"
    "sorted_wrt (<) (map fst (spec_annotations spec))"
    using assms(2) by (simp_all add: proper_handle_def)
  have "settles (path_of rs) (created_as c pid) (with_store H (\<lambda>K. save_record K (path_of rs)
       \<lparr>rec_schema = 0, rec_id = ct_id c, rec_bundle = ct_bundle c, rec_rootfs = ct_rootfs c, rec_pid = pid,
        rec_status = StatusCreated, rec_cgroup_path = cg_path cg, rec_created = now,
        rec_annotations = spec_annotations spec\<rparr>))" for now
    by (rule settles_save [OF assms(1) h(1,2)])
      (use h assms(3,4) in \<open>auto simp: wf_record_def status_of_text_def created_as_def stamp_def intro!: exI\<close>)
  then show ?thesis
    unfolding create_handshake_def h(3)
    by (intro settles_then [OF assms(1)]) (intro aloof_intros traced_intros | assumption)+
qed

lemma setup_pid:
  assumes "gives_pids H" "create_setup H hs c spec p = (Inr pid, q)"
  shows "0 < pid \<and> pid < 2 ^ 31"
proof -
  obtain flags p1 a where "wrap_eff ''starting container init process: %w'' [] (syscall H (StartInit flags)) p1 = (Inr a, q)"
    and pid: "pid = (case a of Started n \<Rightarrow> n | _ \<Rightarrow> 0)"
    using assms(2) unfolding create_setup_def by (auto simp: andthen_Inr ret_Inr simp del: split_paired_Ex)
  then have "syscall H (StartInit flags) p1 = (Inr a, q)" by (simp add: wrap_eff_Inr)
  then have "fst (H (StartInit flags) (fst p1)) = Inr a" by (cases p1) (auto simp: syscall_Inr)
  moreover obtain n where "0 < n" "n < 2 ^ 31"
    "fst (H (StartInit flags) (fst p1)) = Inr (Started n) \<or> (\<exists>e. fst (H (StartInit flags) (fst p1)) = Inl e)"
    using assms(1) unfolding gives_pids_def by blast
  ultimately have "\<exists>n. 0 < n \<and> n < 2 ^ 31 \<and> a = Started n" by auto
  then show ?thesis using pid by auto
qed

lemma quietly_runs: "\<exists>q. quietly m p = (Inr (), q)"
  by (cases "m p") (simp add: quietly_def andthen_def attempt_def ret_def)

lemma undo_removes:
  assumes "steady H" "list_all normal rs" "rs \<noteq> []" "hs_root hs = path_of rs" "validate_id (ct_id c) = Inr ()"
  shows "stored (path_of rs) (fst (snd (undo_create H hs c pid cg p))) = (stored (path_of rs) (fst p))(ct_id c := None)"
proof -
  define before where "before = (case pid of None \<Rightarrow> ret ()
    | Some n \<Rightarrow> andthen (quietly (syscall H (KillInit n))) (\<lambda>_. quietly (syscall H (WaitInit n))))"
  define clean where "clean = (case cg of None \<Rightarrow> ret () | Some m \<Rightarrow> quietly (with_cgroup H (\<lambda>K. cg_cleanup K m)))"
  obtain p1 where 1: "before p = (Inr (), p1)"
  proof (cases pid)
    case (Some n)
    obtain p' where "quietly (syscall H (KillInit n)) p = (Inr (), p')" using quietly_runs by blast
    moreover obtain p1 where "quietly (syscall H (WaitInit n)) p' = (Inr (), p1)" using quietly_runs by blast
    ultimately show ?thesis using that Some by (simp add: before_def andthen_def)
  qed (use that in \<open>simp add: before_def ret_def\<close>)
  obtain p2 where 2: "clean p1 = (Inr (), p2)"
  proof (cases cg)
    case (Some m)
    obtain p2 where "quietly (with_cgroup H (\<lambda>K. cg_cleanup K m)) p1 = (Inr (), p2)" using quietly_runs by blast
    then show ?thesis using that Some by (simp add: clean_def)
  qed (use that in \<open>simp add: clean_def ret_def\<close>)
  obtain q where 3: "with_store H (\<lambda>K. delete_record K (path_of rs) (ct_id c)) p2 = (Inr (), q)"
    "stored (path_of rs) (fst q) = (stored (path_of rs) (fst p2))(ct_id c := None)"
    using delete_on_disk [OF steady_disk [OF assms(1)] assms(2,3,5)] by blast
  have before: "aloof H before" and clean: "aloof H clean"
    unfolding before_def clean_def by (intro aloof_intros traced_intros; simp)+
  note aloof_stored [OF assms(1) before 1, of "path_of rs"] aloof_stored [OF assms(1) clean 2, of "path_of rs"]
  moreover have "undo_create H hs c pid cg p = (Inr (), q)"
    unfolding undo_create_def before_def [symmetric] clean_def [symmetric] assms(4)
    using 1 2 3(1) by (simp add: andthen_def quietly_def attempt_def ret_def)
  ultimately show ?thesis using 3(2) by simp
qed

lemma claimed_life:
  assumes "steady H" "gives_pids H" "proper_handle rs hs c spec" "create_claimed H hs c spec p = (r, q)"
  shows "case r of
      Inl e \<Rightarrow> stored (path_of rs) (fst q) = (stored (path_of rs) (fst p))(ct_id c := None)
    | Inr pid \<Rightarrow> 0 < pid \<and> created_as c pid (stored (path_of rs) (fst p)) (stored (path_of rs) (fst q))"
proof -
  have h: "list_all normal rs" "rs \<noteq> []" "hs_root hs = path_of rs" "validate_id (ct_id c) = Inr ()"
    using assms(3) by (simp_all add: proper_handle_def)
  note undo = undo_removes [OF assms(1) h]
  obtain x1 p1 where 1: "create_setup H hs c spec p = (x1, p1)" by (meson surj_pair)
  have s1: "stored (path_of rs) (fst p1) = stored (path_of rs) (fst p)" by (rule aloof_stored [OF assms(1) aloof_setup 1])
  show ?thesis
  proof (cases x1)
    case (Inl e)
    then show ?thesis using assms(4) 1 s1 undo [of None None p1] by (auto simp: create_claimed_def)
  next
    case pid: (Inr pid)
    have range: "0 < pid" "pid < 2 ^ 31" using setup_pid [OF assms(2)] 1 pid by auto
    obtain x2 p2 where 2: "create_identity H hs c spec pid p1 = (x2, p2)" by (meson surj_pair)
    have s2: "stored (path_of rs) (fst p2) = stored (path_of rs) (fst p)"
      using aloof_stored [OF assms(1) aloof_identity 2] s1 by simp
    show ?thesis
    proof (cases x2)
      case (Inl e)
      then show ?thesis using assms(4) 1 2 pid s2 undo [of "Some pid" None p2] by (auto simp: create_claimed_def)
    next
      case cg: (Inr cg)
      obtain x3 p3 where 3: "create_handshake H hs c spec pid cg p2 = (x3, p3)" by (meson surj_pair)
      have "settles (path_of rs) (created_as c pid) (create_handshake H hs c spec pid cg)"
        by (rule handshake_settles [OF assms(1,3)]) (use range in auto)
      from settlesD [OF this 3] show ?thesis
        using assms(4) 1 2 3 pid cg s2 undo [of "Some pid" "Some cg" p3] range by (cases x3) (auto simp: create_claimed_def)
    qed
  qed
qed

lemma create_life:
  assumes "steady H" "gives_pids H" "proper_handle rs hs c spec" "create_container H hs c p = (r, q)"
  shows "case r of
      Inl e \<Rightarrow> stored (path_of rs) (fst q) = stored (path_of rs) (fst p)
    | Inr pid \<Rightarrow> 0 < pid \<and> stored (path_of rs) (fst p) (ct_id c) = None \<and>
        created_as c pid (stored (path_of rs) (fst p)) (stored (path_of rs) (fst q))"
proof -
  have h: "list_all normal rs" "rs \<noteq> []" "hs_root hs = path_of rs" "validate_id (ct_id c) = Inr ()"
    "ct_spec c = Some spec" using assms(3) by (simp_all add: proper_handle_def)
  obtain x p1 where t: "the_time H p = (x, p1)" by (meson surj_pair)
  have "\<exists>now. x = Inr now"
    using t by (cases "syscall H TimeNow p") (auto simp: the_time_def andthen_def attempt_def ret_def)
  then obtain now where now: "x = Inr now" by blast
  have time: "aloof H (the_time H)" by (rule aloof_time)
  note s1 = aloof_stored [OF assms(1) time t, of "path_of rs"]
  define claim where "claim = zero_record\<lparr>rec_id := ct_id c, rec_bundle := ct_bundle c, rec_rootfs := ct_rootfs c,
     rec_status := StatusCreating, rec_created := now\<rparr>"
  have claim: "rec_id claim = ct_id c" "wf_record claim"
    by (simp_all add: claim_def zero_record_def wf_record_def status_of_text_def)
  obtain y p2 where 2: "with_store H (\<lambda>K. create_record K (path_of rs) claim) p1 = (y, p2)"
    and y: "if stored (path_of rs) (fst p1) (ct_id c) = None
     then y = Inr () \<and> stored (path_of rs) (fst p2) = (stored (path_of rs) (fst p1))(ct_id c \<mapsto> stamp claim)
     else (\<exists>e. y = Inl e) \<and> fst p2 = fst p1"
    using create_on_disk [OF steady_disk [OF assms(1)] h(1,2), of claim p1, unfolded claim(1), OF h(4) claim(2)] by blast
  have run: "create_container H hs c p = (case y of Inl e \<Rightarrow> (Inl e, p2) | Inr _ \<Rightarrow> create_claimed H hs c spec p2)"
    using t now 2 h(3,5) by (simp add: create_container_def andthen_def claim_def split: sum.split)
  show ?thesis
  proof (cases "stored (path_of rs) (fst p1) (ct_id c) = None")
    case True
    then have y': "y = Inr ()" "stored (path_of rs) (fst p2) = (stored (path_of rs) (fst p1))(ct_id c \<mapsto> stamp claim)"
      using y by simp_all
    have "create_claimed H hs c spec p2 = (r, q)" using run assms(4) y' by simp
    from claimed_life [OF assms(1-3) this] show ?thesis
      using y' s1 True by (cases r) (auto simp: created_as_def fun_upd_idem)
  next
    case False
    then show ?thesis using y run assms(4) s1 by auto
  qed
qed

subsection \<open>Start, kill and delete\<close>

definition release :: "'k host \<Rightarrow> host_setting \<Rightarrow> container \<Rightarrow> spec \<Rightarrow> container_record \<Rightarrow> ('k, unit) host_prog" where
  "release H hs c spec rec =
     andthen (wrap_eff ''opening start FIFO: %w'' [] (syscall H (ReadFifo (fifo_path hs c)))) (\<lambda>_.
     andthen (with_store H (\<lambda>K. save_record K (hs_root hs) (rec\<lparr>rec_status := StatusRunning\<rparr>))) (\<lambda>_.
     case spec_hooks spec of
       None \<Rightarrow> ret ()
     | Some hooks \<Rightarrow> quietly (with_hooks H (\<lambda>K. run_hooks K (hs_environ hs) (hooks_poststart hooks)
         (to_oci (hs_version hs) (rec\<lparr>rec_status := StatusRunning\<rparr>))))))"

lemma release_settles:
  assumes "steady H" "proper_handle rs hs c spec" "rec_id rec = ct_id c" "wf_record rec"
  shows "settles (path_of rs) (\<lambda>m m'. m' = m(ct_id c \<mapsto> stamp (rec\<lparr>rec_status := StatusRunning\<rparr>))) (release H hs c spec rec)"
proof -
  have h: "list_all normal rs" "rs \<noteq> []" "hs_root hs = path_of rs" "validate_id (ct_id c) = Inr ()"
    using assms(2) by (simp_all add: proper_handle_def)
  define hook where "hook = (case spec_hooks spec of None \<Rightarrow> ret ()
    | Some hooks \<Rightarrow> quietly (with_hooks H (\<lambda>K. run_hooks K (hs_environ hs) (hooks_poststart hooks)
        (to_oci (hs_version hs) (rec\<lparr>rec_status := StatusRunning\<rparr>)))))"
  have hook: "aloof H hook" unfolding hook_def by (intro aloof_intros traced_intros)
  have runs: "\<exists>q. hook p = (Inr (), q)" for p
    unfolding hook_def using quietly_runs by (cases "spec_hooks spec") (simp_all add: ret_def)
  have save: "settles (path_of rs) (\<lambda>m m'. m' = m(ct_id c \<mapsto> stamp (rec\<lparr>rec_status := StatusRunning\<rparr>)))
      (with_store H (\<lambda>K. save_record K (path_of rs) (rec\<lparr>rec_status := StatusRunning\<rparr>)))"
    by (rule settles_save [OF assms(1) h(1,2)])
      (use h(4) assms(3,4) in \<open>auto simp: wf_record_def status_of_text_def\<close>)
  show ?thesis
    unfolding release_def h(3) hook_def [symmetric]
    by (rule settles_then [OF assms(1)], intro aloof_intros, simp, rule settles_quiet [OF assms(1) save hook runs])
qed

lemma start_life:
  assumes "steady H" "proper_handle rs hs c spec" "well_filed (stored (path_of rs) (fst p))"
    and "start_container H hs c p = (r, q)"
  shows "case r of
      Inl e \<Rightarrow> stored (path_of rs) (fst q) = stored (path_of rs) (fst p)
    | Inr _ \<Rightarrow> \<exists>rec. stored (path_of rs) (fst p) (ct_id c) = Some rec \<and> rec_status rec = StatusCreated \<and>
        reconcile_record (disk_alive (fst p)) rec = rec \<and>
        stored (path_of rs) (fst q) = (stored (path_of rs) (fst p))(ct_id c \<mapsto> stamp (rec\<lparr>rec_status := StatusRunning\<rparr>))"
proof -
  have h: "hs_root hs = path_of rs" "ct_spec c = Some spec" using assms(2) by (simp_all add: proper_handle_def)
  obtain x p1 where 1: "with_store H (\<lambda>K. load_record K (path_of rs) (ct_id c)) p = (x, p1)" and p1: "fst p1 = fst p"
    and x: "case stored (path_of rs) (fst p) (ct_id c) of None \<Rightarrow> (\<exists>e. x = Inl e)
      | Some c \<Rightarrow> x = Inr (reconcile_record (disk_alive (fst p)) c)"
    using load_on_disk [OF steady_disk [OF assms(1)], of "path_of rs" "ct_id c" p] by blast
  show ?thesis
  proof (cases "\<exists>rec. x = Inr rec \<and> rec_status rec = StatusCreated")
    case False
    then have "(\<exists>e. r = Inl e)" "q = p1"
      using assms(4) 1 h by (cases x; auto simp: start_container_def andthen_def fail_def)+
    then show ?thesis using p1 by auto
  next
    case True
    then obtain rec c0 where rec: "x = Inr rec" "rec_status rec = StatusCreated"
      and c0: "stored (path_of rs) (fst p) (ct_id c) = Some c0" "rec = reconcile_record (disk_alive (fst p)) c0"
      using x by (auto split: option.splits)
    have same: "rec = c0" using c0(2) rec(2) by (auto simp: reconcile_record_def split: if_splits)
    have ok: "rec_id rec = ct_id c" "wf_record rec"
      using assms(3) c0(1) same stored_wf(1) [OF c0(1)] by (simp_all add: well_filed_def)
    have "start_container H hs c p = release H hs c spec rec p1"
      using 1 h rec by (simp add: start_container_def andthen_def release_def Let_def)
    then have "release H hs c spec rec p1 = (r, q)" using assms(4) by simp
    from settlesD [OF release_settles [OF assms(1,2) ok] this] show ?thesis
      using p1 c0 rec(2) same by (cases r) simp_all
  qed
qed

lemma kill_life:
  assumes "steady H" "hs_root hs = path_of rs" and "kill_container H hs c sig p = (r, q)"
  shows "stored (path_of rs) (fst q) = stored (path_of rs) (fst p) \<and>
    (r = Inr () \<longrightarrow> (\<exists>rec. stored (path_of rs) (fst p) (ct_id c) = Some rec \<and> rec_status rec \<noteq> StatusStopped \<and>
       reconcile_record (disk_alive (fst p)) rec = rec))"
proof -
  obtain x p1 where 1: "with_store H (\<lambda>K. load_record K (path_of rs) (ct_id c)) p = (x, p1)" and p1: "fst p1 = fst p"
    and x: "case stored (path_of rs) (fst p) (ct_id c) of None \<Rightarrow> (\<exists>e. x = Inl e)
      | Some c \<Rightarrow> x = Inr (reconcile_record (disk_alive (fst p)) c)"
    using load_on_disk [OF steady_disk [OF assms(1)], of "path_of rs" "ct_id c" p] by blast
  define rest where "rest rec = (if rec_status rec = StatusStopped then fail (Errorf ''container %q is not running'' [ct_id c])
     else andthen (wrap_eff ''signalling container %q (pid %d): %w'' [ct_id c, format_int (rec_pid rec)]
            (syscall H (Signal (rec_pid rec) sig))) (\<lambda>_. ret ()))" for rec :: container_record
  have rest: "aloof H (rest rec)" for rec unfolding rest_def by (intro aloof_intros) simp
  have run: "(case x of Inl e \<Rightarrow> (Inl e, p1) | Inr rec \<Rightarrow> rest rec p1) = (r, q)"
  proof -
    have "kill_container H hs c sig = andthen (with_store H (\<lambda>K. load_record K (path_of rs) (ct_id c))) rest"
      by (simp only: kill_container_def assms(2) rest_def [abs_def])
    then show ?thesis using assms(3) 1 by (simp add: andthen_def)
  qed
  show ?thesis
  proof (cases x)
    case (Inl e)
    then show ?thesis using run p1 by auto
  next
    case (Inr rec)
    then have "rest rec p1 = (r, q)" using run by simp
    from aloof_stored [OF assms(1) rest this, of "path_of rs"] this show ?thesis
      using x Inr p1 by (auto simp: rest_def fail_def reconcile_record_def split: option.splits if_splits)
  qed
qed

lemma delete_life:
  assumes "steady H" "proper_handle rs hs c spec" and "delete_container H hs c force p = (r, q)"
  shows "case r of
      Inl e \<Rightarrow> stored (path_of rs) (fst q) = stored (path_of rs) (fst p)
    | Inr _ \<Rightarrow> \<exists>rec. stored (path_of rs) (fst p) (ct_id c) = Some rec \<and>
        (force \<or> rec_status (reconcile_record (disk_alive (fst p)) rec) = StatusStopped) \<and>
        stored (path_of rs) (fst q) = (stored (path_of rs) (fst p))(ct_id c := None)"
proof -
  have h: "list_all normal rs" "rs \<noteq> []" "hs_root hs = path_of rs" "validate_id (ct_id c) = Inr ()"
    using assms(2) by (simp_all add: proper_handle_def)
  obtain x p1 where 1: "with_store H (\<lambda>K. load_record K (path_of rs) (ct_id c)) p = (x, p1)" and p1: "fst p1 = fst p"
    and x: "case stored (path_of rs) (fst p) (ct_id c) of None \<Rightarrow> (\<exists>e. x = Inl e)
      | Some c \<Rightarrow> x = Inr (reconcile_record (disk_alive (fst p)) c)"
    using load_on_disk [OF steady_disk [OF assms(1)], of "path_of rs" "ct_id c" p] by blast
  define rest where "rest rec = andthen (if rec_status rec \<noteq> StatusStopped then
                (if \<not> force
                 then fail (Errorf ''container %q is %s; stop it first or pass --force'' [ct_id c, status_text (rec_status rec)])
                 else stop_container H (rec_pid rec))
              else ret ()) (\<lambda>_.
     andthen (if rec_cgroup_path rec \<noteq> []
              then quietly (with_cgroup H (\<lambda>K. cg_cleanup K \<lparr>cg_path = rec_cgroup_path rec, cg_disabled = False\<rparr>))
              else ret ()) (\<lambda>_.
     andthen (case ct_spec c of
                None \<Rightarrow> ret ()
              | Some spec \<Rightarrow>
                  (case spec_hooks spec of
                     None \<Rightarrow> ret ()
                   | Some hooks \<Rightarrow>
                       with_hooks H (\<lambda>K.
                         run_poststop_hooks K (hs_environ hs) (hooks_poststop hooks) (to_oci (hs_version hs) rec)))) (\<lambda>_.
     with_store H (\<lambda>K. delete_record K (path_of rs) (ct_id c)))))" for rec :: container_record
  have run: "(case x of Inl e \<Rightarrow> (Inl e, p1) | Inr rec \<Rightarrow> rest rec p1) = (r, q)"
  proof -
    have "delete_container H hs c force = andthen (with_store H (\<lambda>K. load_record K (path_of rs) (ct_id c))) rest"
      by (simp only: delete_container_def h(3) rest_def [abs_def])
    then show ?thesis using assms(3) 1 by (simp add: andthen_def)
  qed
  have removes: "settles (path_of rs) (\<lambda>m m'. m' = m(ct_id c := None)) (with_store H (\<lambda>K. delete_record K (path_of rs) (ct_id c)))"
    using delete_on_disk [OF steady_disk [OF assms(1)] h(1,2,4)] unfolding settles_def by (metis (mono_tags, lifting) Pair_inject sum.simps(6))
  have settles: "settles (path_of rs) (\<lambda>m m'. m' = m(ct_id c := None)) (rest rec)" for rec
    unfolding rest_def
    by (intro settles_then [OF assms(1)] removes) (intro aloof_intros aloof_stop traced_intros | assumption)+
  show ?thesis
  proof (cases x)
    case (Inl e)
    then show ?thesis using run p1 by auto
  next
    case (Inr rec)
    then have rest: "rest rec p1 = (r, q)" using run by simp
    have guard: "r = Inr () \<Longrightarrow> force \<or> rec_status rec = StatusStopped"
      using rest by (cases force) (auto simp: rest_def andthen_Inr fail_def simp del: split_paired_Ex split: if_splits)
    from settlesD [OF settles rest] show ?thesis
      using x Inr p1 guard by (cases r) (auto split: option.splits)
  qed
qed

subsection \<open>Property\<close>


fun demo_host :: "disk host" where
  "demo_host (StoreCall c) d =
     (case disk_world c d of (Inl e, d') \<Rightarrow> (Inl e, d') | (Inr v, d') \<Rightarrow> (Inr (StoreAnswer v), d'))"
| "demo_host (StartInit flags) d = (Inr (Started 41), d)"
| "demo_host _ d = (Inr Done, d)"

definition demo_setting :: host_setting where
  "demo_setting = \<lparr>hs_root = ''/run/lightpod'', hs_uid = 0, hs_gid = 0, hs_read_file = (\<lambda>_. Inl (Errno ENOENT)),
     hs_lookup_id = (\<lambda>_. None), hs_environ = [], hs_version = ''1.0'', hs_error_text = (\<lambda>_. [])\<rparr>"

definition bare_spec :: spec where
  "bare_spec = \<lparr>spec_version = ''1.2.0'', spec_process = None, spec_root = None, spec_hostname = [], spec_domainname = [],
     spec_mounts = [], spec_hooks = None, spec_annotations = [], spec_linux = None\<rparr>"

definition web_handle :: container where
  "web_handle = \<lparr>ct_id = ''web'', ct_bundle = ''/b'', ct_rootfs = ''/b/r'', ct_spec = Some bare_spec,
     ct_mode = ModeRootfull, ct_no_cgroup = True\<rparr>"

definition created_disk :: disk where
  "created_disk = saved_disk (path_of [''run'', ''lightpod'']) (web_record\<lparr>rec_status := StatusCreated\<rparr>) empty_disk"

lemma created_disk_stored:
  "stored (path_of [''run'', ''lightpod'']) created_disk = [''web'' \<mapsto> stamp (web_record\<lparr>rec_status := StatusCreated\<rparr>)]"
proof -
  have "stored (path_of [''run'', ''lightpod'']) empty_disk = Map.empty"
    by (simp add: fun_eq_iff stored_def empty_disk_def)
  moreover have "wf_record (web_record\<lparr>rec_status := StatusCreated\<rparr>)"
    using web_ok(2) by (simp add: wf_record_def status_of_text_def)
  ultimately show ?thesis
    using stored_saved [of "[''run'', ''lightpod'']" "web_record\<lparr>rec_status := StatusCreated\<rparr>" empty_disk] web_ok
    by (simp add: created_disk_def) (simp add: web_record_def)
qed

lemma demo_host_ok: "steady demo_host" "gives_pids demo_host" "proper_handle [''run'', ''lightpod''] demo_setting web_handle bare_spec"
proof -
  have "dk_files (snd (demo_host c d)) = dk_files d" if "elsewhere c" for c d
    using that by (cases c) auto
  then show "steady demo_host" by (auto simp: steady_def has_disk_def split: prod.split sum.split)
  show "gives_pids demo_host" unfolding gives_pids_def by (intro allI exI [of _ 41]) simp
  show "proper_handle [''run'', ''lightpod''] demo_setting web_handle bare_spec"
    by (simp add: proper_handle_def demo_setting_def web_handle_def bare_spec_def normal_def validate_id_def contains_any_def)
qed


end
