(* ===== verification/Scripts.thy ===== *)
theory Scripts
  imports Effects Handshake
begin

section \<open>Programs that follow a script\<close>

text \<open>
  Both sides of the handshake are programs whose calls are to be those of a script, action by action.
  A side is given by which calls belong to the work of a stage and which calls perform an action; all
  it promises is that the work of a stage is any number of calls that belong to it. What is proved of a
  side here, it is proved of the host side and of the container side.
\<close>

locale script_side =
  fixes belongs :: "stage \<Rightarrow> 'c \<Rightarrow> bool"
    and performs :: "action \<Rightarrow> ('c \<times> (errno + 'v)) list \<Rightarrow> bool"
  assumes performs_work: "performs (Work w) es \<longleftrightarrow> list_all (belongs w \<circ> fst) es"
begin

definition does :: "action list \<Rightarrow> ('c, 'v, 'k, 'a) prog \<Rightarrow> bool" where
  "does as m \<longleftrightarrow> (\<forall>p x q. m p = (Inr x, q) \<longrightarrow>
     (\<exists>segs. snd q = snd p @ concat segs \<and> list_all2 performs as segs))"

lemma does_run:
  assumes "does as m" "m p = (Inr x, q)"
  obtains segs where "snd q = snd p @ concat segs" "list_all2 performs as segs"
  using assms unfolding does_def by blast

lemma does_both:
  assumes "does as m" "\<And>x. does bs (f x)"
  shows "does (as @ bs) (andthen m f)"
  unfolding does_def
proof (intro allI impI)
  fix p y q
  assume "andthen m f p = (Inr y, q)"
  then obtain x p1 where 1: "m p = (Inr x, p1)" and 2: "f x p1 = (Inr y, q)" by (auto simp: andthen_Inr simp del: split_paired_Ex)
  obtain s where s: "snd p1 = snd p @ concat s" "list_all2 performs as s" using assms(1) 1 by (rule does_run)
  obtain t where t: "snd q = snd p1 @ concat t" "list_all2 performs bs t" using assms(2) 2 by (rule does_run)
  show "\<exists>segs. snd q = snd p @ concat segs \<and> list_all2 performs (as @ bs) segs"
    using s t by (intro exI [of _ "s @ t"]) (simp add: list_all2_appendI)
qed

lemma does_work: "only (belongs w) m \<Longrightarrow> does [Work w] m"
  unfolding does_def
proof (intro allI impI)
  fix p x q
  assume "only (belongs w) m" "m p = (Inr x, q)"
  then obtain new where "snd q = snd p @ new" "list_all (belongs w \<circ> fst) new" using only_log by blast
  then show "\<exists>segs. snd q = snd p @ concat segs \<and> list_all2 performs [Work w] segs"
    by (intro exI [of _ "[new]"]) (simp add: performs_work)
qed

text \<open>The work of a stage may be done in several parts.\<close>

lemma join_work:
  assumes "list_all2 performs (as @ [Work w]) s" "list_all2 performs (Work w # bs) t"
  shows "\<exists>u. concat u = concat s @ concat t \<and> list_all2 performs (as @ Work w # bs) u"
proof -
  obtain s1 a where s: "s = s1 @ [a]" "list_all2 performs as s1" "performs (Work w) a"
    using assms(1) by (auto simp: list_all2_append1 list_all2_Cons1)
  obtain b t1 where t: "t = b # t1" "performs (Work w) b" "list_all2 performs bs t1"
    using assms(2) by (auto simp: list_all2_Cons1)
  show ?thesis using s t by (intro exI [of _ "s1 @ (a @ b) # t1"]) (simp add: list_all2_appendI performs_work)
qed

lemma does_more:
  assumes "does (as @ [Work w]) m" "\<And>x. does (Work w # bs) (f x)"
  shows "does (as @ Work w # bs) (andthen m f)"
  unfolding does_def
proof (intro allI impI)
  fix p y q
  assume "andthen m f p = (Inr y, q)"
  then obtain x p1 where 1: "m p = (Inr x, p1)" and 2: "f x p1 = (Inr y, q)" by (auto simp: andthen_Inr simp del: split_paired_Ex)
  obtain s where s: "snd p1 = snd p @ concat s" "list_all2 performs (as @ [Work w]) s" using assms(1) 1 by (rule does_run)
  obtain t where t: "snd q = snd p1 @ concat t" "list_all2 performs (Work w # bs) t" using assms(2) 2 by (rule does_run)
  obtain u where "concat u = concat s @ concat t" "list_all2 performs (as @ Work w # bs) u"
    using join_work [OF s(2) t(2)] by blast
  then show "\<exists>segs. snd q = snd p @ concat segs \<and> list_all2 performs (as @ Work w # bs) segs"
    using s t by (intro exI [of _ u]) simp
qed

lemma does_join: "does [Work w] m \<Longrightarrow> (\<And>x. does (Work w # bs) (f x)) \<Longrightarrow> does (Work w # bs) (andthen m f)"
  using does_more [of "[]" w m bs f] by simp

lemma does_step: "does [a] m \<Longrightarrow> (\<And>x. does bs (f x)) \<Longrightarrow> does (a # bs) (andthen m f)"
  using does_both [of "[a]" m bs f] by simp

end

end
