(* ===== verification/Container_Safety.thy ===== *)
theory Container_Safety
  imports Lifecycle Scripts
begin

section \<open>What the container operations guarantee\<close>

text \<open>
  Create follows the host's script of the handshake, step by step, and undoes itself when it fails,
  in the one order that works.
\<close>

subsection \<open>The host's side of the script\<close>

type_synonym entries = "(host_call \<times> (errno + host_answer)) list"

fun belongs :: "stage \<Rightarrow> host_call \<Rightarrow> bool" where
  "belongs Identity (NsCall c) = True"
| "belongs Identity (CgCall c) = True"
| "belongs HostHooks (HookCall c) = True"
| "belongs SaveCreated TimeNow = True"
| "belongs SaveCreated (StoreCall c) = True"
| "belongs _ _ = False"

fun performs :: "action \<Rightarrow> entries \<Rightarrow> bool" where
  "performs PutConfig es \<longleftrightarrow> (\<exists>cfg a. es = [(SendConfig cfg, Inr a)])"
| "performs (Send t) es \<longleftrightarrow> (\<exists>a. es = [(SendMessage (plain t), Inr a)])"
| "performs (Await t) es \<longleftrightarrow> (\<exists>m. es = [(RecvMessage, Inr (Message m))] \<and> msg_type m = t)"
| "performs (Work w) es \<longleftrightarrow> list_all (belongs w \<circ> fst) es"
| "performs TakeConfig es \<longleftrightarrow> False"

interpretation host_side: script_side belongs performs
  by unfold_locales simp

lemma does_await: "host_side.does [Await t] (await_sync H t)"
  unfolding host_side.does_def
proof (intro allI impI)
  fix p x q
  assume run: "await_sync H t p = (Inr x, q)"
  then obtain a p1 where 1: "syscall H RecvMessage p = (Inr a, p1)"
    and 2: "(case a of Message m \<Rightarrow> lift (await_message t m) | _ \<Rightarrow> fail (await_eof t)) p1 = (Inr x, q)"
    by (auto simp: await_sync_def andthen_Inr wrap_eff_Inr simp del: split_paired_Ex)
  then obtain m where "a = Message m" "await_message t m = Inr x" "q = p1"
    by (cases a) (auto simp: fail_def lift_Inr)
  moreover have "msg_type m = t" using calculation(2) by (auto simp: await_message_def split: if_splits)
  ultimately show "\<exists>segs. snd q = snd p @ concat segs \<and> list_all2 performs [Await t] segs"
    using syscall_Inr_log [OF 1] by (intro exI [of _ "[[(RecvMessage, Inr (Message m))]]"]) simp
qed

lemma does_send: "host_side.does [Send t] (send_sync H t)"
  unfolding host_side.does_def
proof (intro allI impI)
  fix p x q
  assume "send_sync H t p = (Inr x, q)"
  then obtain a where 1: "syscall H (SendMessage (plain t)) p = (Inr a, q)"
    by (auto simp: send_sync_def andthen_Inr wrap_eff_Inr ret_Inr simp del: split_paired_Ex)
  then show "\<exists>segs. snd q = snd p @ concat segs \<and> list_all2 performs [Send t] segs"
    using syscall_Inr_log [OF 1] by (intro exI [of _ "[[(SendMessage (plain t), Inr a)]]"]) simp
qed

lemma does_put: "host_side.does [PutConfig] (wrap_eff s a (syscall H (SendConfig cfg)))"
  unfolding host_side.does_def
proof (intro allI impI)
  fix p x q
  assume "wrap_eff s a (syscall H (SendConfig cfg)) p = (Inr x, q)"
  then have 1: "syscall H (SendConfig cfg) p = (Inr x, q)" by (simp add: wrap_eff_Inr)
  show "\<exists>segs. snd q = snd p @ concat segs \<and> list_all2 performs [PutConfig] segs"
    using syscall_Inr_log [OF 1] by (intro exI [of _ "[[(SendConfig cfg, Inr x)]]"]) simp
qed

lemma does_reporting: "host_side.does as m \<Longrightarrow> host_side.does as (reporting H hs m)"
  unfolding host_side.does_def
proof (intro allI impI)
  fix p x q
  assume does: "\<forall>p x q. m p = (Inr x, q) \<longrightarrow> (\<exists>segs. snd q = snd p @ concat segs \<and> list_all2 performs as segs)"
    and run: "reporting H hs m p = (Inr x, q)"
  obtain r p1 where 1: "m p = (r, p1)" by (meson surj_pair)
  have "\<exists>u. r = Inr u \<and> q = p1"
  proof (cases r)
    case (Inl e)
    then show ?thesis using run 1
      by (auto simp: reporting_def andthen_Inr attempt_Inr fail_Inr simp del: split_paired_Ex)
  next
    case (Inr u)
    then show ?thesis using run 1 by (simp add: reporting_def andthen_def attempt_def ret_def)
  qed
  then show "\<exists>segs. snd q = snd p @ concat segs \<and> list_all2 performs as segs"
    using does 1 by blast
qed

lemma does_cgroup: "(\<And>K. traced K (m K)) \<Longrightarrow> host_side.does [Work Identity] (with_cgroup H m)"
  by (rule host_side.does_work, rule only_with_cgroup) simp_all

lemma does_ns: "(\<And>K. traced K (m K)) \<Longrightarrow> host_side.does [Work Identity] (with_ns H m)"
  by (rule host_side.does_work, rule only_with_ns) simp_all

lemma identity_does: "host_side.does [PutConfig, Await NsReady, Work Identity] (create_identity H hs c spec pid)"
  unfolding create_identity_def Let_def case_prod_beta
  by (rule host_side.does_step, rule does_put, rule host_side.does_step, rule does_await, rule host_side.does_join)
    (rule does_ns does_cgroup, intro traced_intros)+

lemma handshake_does:
  "host_side.does [Work Identity, Send MapsReady, Await HookPoint, Work HostHooks, Send HooksDone, Await ProcReady, Work SaveCreated]
     (create_handshake H hs c spec pid cg)"
proof -
  have apply_cg: "host_side.does [Work Identity] (with_cgroup H (\<lambda>K. cg_apply K cg pid))"
    by (rule does_cgroup) (intro traced_intros)
  have limits: "host_side.does [Work Identity] (case spec_linux spec of None \<Rightarrow> ret ()
      | Some l \<Rightarrow> with_cgroup H (\<lambda>K. set_resources K cg (lx_resources l)))"
    by (rule host_side.does_work) (intro only_intros only_with_cgroup traced_intros | simp)+
  have hooks: "host_side.does [Work HostHooks] (reporting H hs (with_hooks H (\<lambda>K. run_hooks K (hs_environ hs) hook_list st)))"
    for hook_list st
    by (rule does_reporting, rule host_side.does_work, rule only_with_hooks) (intro traced_intros | simp)+
  have both: "host_side.does [Work HostHooks] (case spec_hooks spec of None \<Rightarrow> ret ()
      | Some hooks \<Rightarrow>
          andthen (reporting H hs (with_hooks H (\<lambda>K.
                     run_hooks K (hs_environ hs) (hooks_prestart hooks) (creating_state c spec pid)))) (\<lambda>_.
          reporting H hs (with_hooks H (\<lambda>K.
                     run_hooks K (hs_environ hs) (hooks_create_runtime hooks) (creating_state c spec pid)))))"
  proof (cases "spec_hooks spec")
    case None
    then show ?thesis by (simp add: host_side.does_work only_ret)
  next
    case (Some h)
    then show ?thesis by (simp only: option.case) (rule host_side.does_join, rule hooks, rule hooks)
  qed
  have save: "host_side.does [Work SaveCreated] (andthen (the_time H) (\<lambda>now. with_store H (\<lambda>K. save_record K (hs_root hs) (r now))))" for r
    unfolding the_time_def by (rule host_side.does_work) (intro only_intros only_with_store traced_intros | simp)+
  show ?thesis
    unfolding create_handshake_def
    by (rule host_side.does_join [OF apply_cg], rule host_side.does_step [OF limits], rule host_side.does_step [OF does_send],
        rule host_side.does_step [OF does_await], rule host_side.does_step [OF both], rule host_side.does_step [OF does_send],
        rule host_side.does_step [OF does_await], rule save)
qed

text \<open>The set-up starts one process, and only at its end.\<close>

abbreviation starts_none :: "host_call \<Rightarrow> bool" where
  "starts_none c \<equiv> \<forall>flags. c \<noteq> StartInit flags"

lemma setup_log:
  assumes "create_setup H hs c spec p = (r, q)"
  shows "\<exists>new. snd q = snd p @ new \<and>
    (case r of
       Inl e \<Rightarrow> \<forall>flags v. (StartInit flags, Inr v) \<notin> set new
     | Inr pid \<Rightarrow> \<exists>before flags a. new = before @ [(StartInit flags, Inr a)] \<and> list_all (starts_none \<circ> fst) before \<and>
         clone_flags spec = Inr flags \<and> pid = (case a of Started n \<Rightarrow> n | _ \<Rightarrow> 0))"
proof -
  define first where "first = andthen (make_fifo H (fifo_path hs c)) (\<lambda>_.
     andthen (wrap_eff ''opening start FIFO: %w'' [] (syscall H (OpenFifo (fifo_path hs c)))) (\<lambda>_.
     andthen (wrap_eff ''creating config pipe: %w'' [] (syscall H MakePipe)) (\<lambda>_.
     andthen (wrap_eff ''creating sync socket pair: %w'' [] (syscall H MakeSockets)) (\<lambda>_.
     lift (clone_flags spec)))))"
  define start where "start flags = wrap_eff ''starting container init process: %w'' [] (syscall H (StartInit flags))" for flags
  have only: "only starts_none first"
    unfolding first_def make_fifo_def by (intro only_intros) simp_all
  have assoc: "create_setup H hs c spec = andthen first (\<lambda>flags. andthen (start flags) (\<lambda>a. ret (case a of Started pid \<Rightarrow> pid | _ \<Rightarrow> 0)))"
    unfolding create_setup_def first_def start_def
    by (simp add: fun_eq_iff andthen_def split: prod.split sum.split)
  obtain x p1 where 1: "first p = (x, p1)" by (meson surj_pair)
  obtain b where b: "snd p1 = snd p @ b" "list_all (starts_none \<circ> fst) b" using only_log [OF only 1] by blast
  show ?thesis
  proof (cases x)
    case (Inl e)
    then show ?thesis using assms assoc 1 b by (fastforce simp: andthen_def list_all_iff)
  next
    case (Inr flags)
    have fl: "clone_flags spec = Inr flags"
      using 1 Inr unfolding first_def by (auto simp: andthen_Inr lift_Inr simp del: split_paired_Ex)
    obtain y p2 where 2: "syscall H (StartInit flags) p1 = (y, p2)" by (meson surj_pair)
    show ?thesis using assms assoc 1 Inr b fl syscall_log [OF 2] 2
      by (cases y) (fastforce simp: andthen_def start_def wrap_eff_def ewrap_def ret_def list_all_iff)+
  qed
qed

subsection \<open>Undoing\<close>

lemma quietly_log:
  assumes "syscall H c p = (r, p')"
  shows "quietly (syscall H c) p = (Inr (), p') \<and> (\<exists>a. snd p' = snd p @ [(c, a)])"
  using assms syscall_log [OF assms] by (auto simp: quietly_def andthen_def attempt_def ret_def)

definition removes_cgroup :: "cgroup_manager option \<Rightarrow> host_call list" where
  "removes_cgroup cg =
     (case cg of None \<Rightarrow> []
      | Some m \<Rightarrow> if cg_disabled m \<or> cg_path m = [] then [] else [CgCall (CgRemove (cg_path m))])"

definition kills :: "int option \<Rightarrow> host_call list" where
  "kills pid = (case pid of None \<Rightarrow> [] | Some n \<Rightarrow> [KillInit n, WaitInit n])"

lemma kills_log:
  "\<exists>k p1. (case pid of None \<Rightarrow> ret ()
     | Some n \<Rightarrow> andthen (quietly (syscall H (KillInit n))) (\<lambda>_. quietly (syscall H (WaitInit n)))) p = (Inr (), p1) \<and>
     snd p1 = snd p @ k \<and> map fst k = kills pid"
proof (cases pid)
  case None
  then show ?thesis by (simp add: ret_def kills_def)
next
  case (Some n)
  obtain r1 p1 where 1: "syscall H (KillInit n) p = (r1, p1)" by (meson surj_pair)
  obtain r2 p2 where 2: "syscall H (WaitInit n) p1 = (r2, p2)" by (meson surj_pair)
  note q = quietly_log [OF 1] quietly_log [OF 2]
  then show ?thesis using Some by (auto simp: andthen_def kills_def)
qed

lemma cleanup_log:
  "\<exists>g p1. (case cg of None \<Rightarrow> ret () | Some m \<Rightarrow> quietly (with_cgroup H (\<lambda>K. cg_cleanup K m))) p = (Inr (), p1) \<and>
     snd p1 = snd p @ g \<and> map fst g = removes_cgroup cg"
proof (cases cg)
  case None
  then show ?thesis by (simp add: ret_def removes_cgroup_def)
next
  case (Some m)
  let ?K = "sub_world CgCall cg_out H"
  obtain r q where run: "with_cgroup H (\<lambda>K. cg_cleanup K m) p = (r, q)" by (meson surj_pair)
  obtain k' l where l: "cg_cleanup ?K m (fst p, []) = (r, (k', l))" "q = (k', snd p @ map cg_part.lift_entry l)"
    using run unfolding with_cgroup_def by (rule cg_part.embed_run)
  have "map fst l = (if cg_disabled m \<or> cg_path m = [] then [] else [CgRemove (cg_path m)])"
  proof (cases "cg_disabled m \<or> cg_path m = []")
    case True
    then show ?thesis using l(1) by (auto simp: cg_cleanup_def ret_def)
  next
    case False
    obtain x p1 where x: "syscall ?K (CgRemove (cg_path m)) (fst p, []) = (x, p1)" by (meson surj_pair)
    then have "l = snd p1" using l(1) False
      by (cases x) (auto simp: cg_cleanup_def andthen_def attempt_def ret_def fail_def split: if_splits)
    then show ?thesis using syscall_log [OF x] False by auto
  qed
  then have "map fst (map cg_part.lift_entry l) = removes_cgroup cg"
    using Some by (cases l) (auto simp: removes_cgroup_def cg_part.lift_entry_def split: if_splits prod.splits)
  then show ?thesis using run l(2) Some by (auto simp: quietly_def andthen_def attempt_def ret_def)
qed

text \<open>The last entries are those of a deletion of the record.\<close>

definition deletion :: "'k host \<Rightarrow> string \<Rightarrow> string \<Rightarrow> entries \<Rightarrow> bool" where
  "deletion H root cid s \<longleftrightarrow> (\<exists>k r k' l. delete_record (sub_world StoreCall store_out H) root cid (k, []) = (r, (k', l)) \<and>
     s = map store_part.lift_entry l)"

lemma deletion_run:
  "\<exists>r s q. with_store H (\<lambda>K. delete_record K root cid) p = (r, q) \<and> snd q = snd p @ s \<and> deletion H root cid s"
proof -
  obtain r q where run: "with_store H (\<lambda>K. delete_record K root cid) p = (r, q)" by (meson surj_pair)
  obtain k' l where l: "delete_record (sub_world StoreCall store_out H) root cid (fst p, []) = (r, (k', l))"
    "q = (k', snd p @ map store_part.lift_entry l)"
    using run unfolding with_store_def by (rule store_part.embed_run)
  then have "deletion H root cid (map store_part.lift_entry l)" unfolding deletion_def by blast
  then show ?thesis using run l(2) by auto
qed

lemma delete_log:
  "\<exists>s q. quietly (with_store H (\<lambda>K. delete_record K root cid)) p = (Inr (), q) \<and> snd q = snd p @ s \<and> deletion H root cid s"
  using deletion_run [of H root cid p] by (auto simp: quietly_def andthen_def attempt_def ret_def)

lemma undo_log:
  "\<exists>k g s. snd (snd (undo_create H hs c pid cg p)) = snd p @ k @ g @ s \<and> map fst k = kills pid \<and>
     map fst g = removes_cgroup cg \<and> deletion H (hs_root hs) (ct_id c) s"
proof -
  obtain k p1 where 1: "(case pid of None \<Rightarrow> ret ()
     | Some n \<Rightarrow> andthen (quietly (syscall H (KillInit n))) (\<lambda>_. quietly (syscall H (WaitInit n)))) p = (Inr (), p1)"
    "snd p1 = snd p @ k" "map fst k = kills pid" using kills_log by blast
  obtain g p2 where 2: "(case cg of None \<Rightarrow> ret () | Some m \<Rightarrow> quietly (with_cgroup H (\<lambda>K. cg_cleanup K m))) p1 = (Inr (), p2)"
    "snd p2 = snd p1 @ g" "map fst g = removes_cgroup cg" using cleanup_log by blast
  obtain s p3 where 3: "quietly (with_store H (\<lambda>K. delete_record K (hs_root hs) (ct_id c))) p2 = (Inr (), p3)"
    "snd p3 = snd p2 @ s" "deletion H (hs_root hs) (ct_id c) s" using delete_log by blast
  have "undo_create H hs c pid cg p = (Inr (), p3)"
    unfolding undo_create_def by (rule run_then, rule 1(1), rule run_then, rule 2(1), rule 3(1))
  then show ?thesis using 1 2 3 by auto
qed

lemma identity_starts_none: "only starts_none (create_identity H hs c spec pid)"
proof -
  have "only starts_none (case a of Message m \<Rightarrow> lift (await_message t m) | _ \<Rightarrow> fail (await_eof t))" for a t
    by (cases a) (auto intro!: only_intros)
  then show ?thesis
    unfolding create_identity_def await_sync_def Let_def case_prod_beta
    by (intro only_intros only_with_ns only_with_cgroup traced_intros) simp_all
qed

lemma handshake_starts_none: "only starts_none (create_handshake H hs c spec pid cg)"
proof -
  have "only starts_none (case a of Message m \<Rightarrow> lift (await_message t m) | _ \<Rightarrow> fail (await_eof t))" for a t
    by (cases a) (auto intro!: only_intros)
  then show ?thesis
    unfolding create_handshake_def await_sync_def send_sync_def reporting_def the_time_def
    by (intro only_intros only_with_store only_with_hooks only_with_cgroup traced_intros) simp_all
qed

subsection \<open>Properties of create\<close>

lemma claimed_script:
  assumes "create_claimed H hs c spec p = (Inr pid, q)"
  shows "\<exists>before flags a segs. snd q = snd p @ before @ (StartInit flags, Inr a) # concat segs \<and>
    clone_flags spec = Inr flags \<and> list_all (starts_none \<circ> fst) before \<and> list_all2 performs host_script segs"
proof -
  obtain n p1 cg p2 u where 1: "create_setup H hs c spec p = (Inr n, p1)"
    and 2: "create_identity H hs c spec n p1 = (Inr cg, p2)" and 3: "create_handshake H hs c spec n cg p2 = (Inr u, q)"
    using assms by (auto simp: create_claimed_def split: prod.splits sum.splits)
  obtain before flags a where b: "snd p1 = snd p @ before @ [(StartInit flags, Inr a)]" "list_all (starts_none \<circ> fst) before"
    "clone_flags spec = Inr flags" using setup_log [OF 1] by auto
  obtain s where s: "snd p2 = snd p1 @ concat s" "list_all2 performs ([PutConfig, Await NsReady] @ [Work Identity]) s"
    using identity_does 2 by (rule host_side.does_run) simp
  obtain t where t: "snd q = snd p2 @ concat t" "list_all2 performs (Work Identity #
      [Send MapsReady, Await HookPoint, Work HostHooks, Send HooksDone, Await ProcReady, Work SaveCreated]) t"
    using handshake_does 3 by (rule host_side.does_run)
  obtain segs where "concat segs = concat s @ concat t" "list_all2 performs host_script segs"
    using host_side.join_work [OF s(2) t(2)] by (auto simp: host_script_def)
  then show ?thesis using b s(1) t(1)
    by (intro exI [of _ before] exI [of _ flags] exI [of _ a] exI [of _ segs]) simp
qed


fun script_machine :: "nat host" where
  "script_machine (StoreCall (ReadDoc path)) k = (Inl ENOENT, k)"
| "script_machine (StoreCall c) k = (Inr (StoreAnswer Ok), k)"
| "script_machine (StartInit flags) k = (Inr (Started 41), k)"
| "script_machine RecvMessage k =
     (Inr (Message (plain (if k = 0 then NsReady else if k = 1 then HookPoint else ProcReady))), Suc k)"
| "script_machine _ k = (Inr Done, k)"



fun silent_machine :: "unit host" where
  "silent_machine (StartInit flags) k = (Inr (Started 41), k)"
| "silent_machine RecvMessage k = (Inr EndOfStream, k)"
| "silent_machine _ k = (Inr Done, k)"


end
