(* ===== verification/Container_Races.thy ===== *)
theory Container_Races
  imports Container_Safety
begin

section \<open>Stopping, and other processes in between\<close>

text \<open>
  Delete stops a container before it takes anything of it away, within a bounded number of
  calls; then what happens to an operation on a record that another process changes meanwhile, that
  is still being created, or that was adopted without its bundle.
\<close>

subsection \<open>Delete\<close>

lemma wait_log:
  "\<exists>w. snd (snd (wait_for_exit H pid n p)) = snd p @ w \<and> length w \<le> 3 * n \<and>
     list_all (\<lambda>e. fst e = InTime \<or> fst e = Signal pid 0 \<or> fst e = Nap) w \<and> fst (wait_for_exit H pid n p) = Inr ()"
proof (induction n arbitrary: p)
  case 0
  then show ?case by (simp add: ret_def)
next
  case (Suc n)
  obtain r1 p1 where 1: "syscall H InTime p = (r1, p1)" by (meson surj_pair)
  obtain a1 where a1: "snd p1 = snd p @ [(InTime, a1)]" using syscall_log [OF 1] by blast
  show ?case
  proof (cases "r1 = Inr (Flag False)")
    case True
    then show ?thesis using 1 a1 by (simp add: andthen_def attempt_def ret_def)
  next
    case False
    obtain r2 p2 where 2: "syscall H (Signal pid 0) p1 = (r2, p2)" by (meson surj_pair)
    obtain a2 where a2: "snd p2 = snd p1 @ [(Signal pid 0, a2)]" using syscall_log [OF 2] by blast
    show ?thesis
    proof (cases r2)
      case (Inl e)
      then show ?thesis using 1 2 a1 a2 False by (simp add: andthen_def attempt_def ret_def)
    next
      case (Inr v)
      obtain r3 p3 where 3: "syscall H Nap p2 = (r3, p3)" by (meson surj_pair)
      obtain a3 where a3: "snd p3 = snd p2 @ [(Nap, a3)]" "quietly (syscall H Nap) p2 = (Inr (), p3)"
        using quietly_log [OF 3] by blast
      obtain w where "snd (snd (wait_for_exit H pid n p3)) = snd p3 @ w" "length w \<le> 3 * n"
        "list_all (\<lambda>e. fst e = InTime \<or> fst e = Signal pid 0 \<or> fst e = Nap) w" "fst (wait_for_exit H pid n p3) = Inr ()"
        using Suc.IH by blast
      then show ?thesis using 1 2 a1 a2 a3 False Inr
        by (intro exI [of _ "(InTime, a1) # (Signal pid 0, a2) # (Nap, a3) # w"]) (simp add: andthen_def attempt_def)
    qed
  qed
qed

definition stopping :: "int \<Rightarrow> entries \<Rightarrow> bool" where
  "stopping pid es \<longleftrightarrow> (if 0 < pid
     then \<exists>a w. es = (Signal pid SIGKILL, a) # w \<and> length w \<le> 3 * exit_polls \<and>
       list_all (\<lambda>e. fst e = InTime \<or> fst e = Signal pid 0 \<or> fst e = Nap) w
     else es = [])"

lemma stop_log:
  "\<exists>w q. stop_container H pid p = (Inr (), q) \<and> snd q = snd p @ w \<and> stopping pid w"
proof (cases "0 < pid")
  case True
  obtain r1 p1 where 1: "syscall H (Signal pid SIGKILL) p = (r1, p1)" by (meson surj_pair)
  obtain a where a: "snd p1 = snd p @ [(Signal pid SIGKILL, a)]" "quietly (syscall H (Signal pid SIGKILL)) p = (Inr (), p1)"
    using quietly_log [OF 1] by blast
  obtain w where w: "snd (snd (wait_for_exit H pid exit_polls p1)) = snd p1 @ w" "length w \<le> 3 * exit_polls"
    "list_all (\<lambda>e. fst e = InTime \<or> fst e = Signal pid 0 \<or> fst e = Nap) w" "fst (wait_for_exit H pid exit_polls p1) = Inr ()"
    using wait_log by blast
  have "stop_container H pid p = wait_for_exit H pid exit_polls p1"
    using True a(2) by (simp add: stop_container_def andthen_def)
  then show ?thesis using True a(1) w
    by (cases "wait_for_exit H pid exit_polls p1") (auto simp: stopping_def)
qed (simp add: stop_container_def ret_def stopping_def)

lemma poststop_log:
  "\<exists>h q. (case spec of None \<Rightarrow> ret ()
     | Some sp \<Rightarrow> (case spec_hooks sp of None \<Rightarrow> ret ()
         | Some hooks \<Rightarrow> with_hooks H (\<lambda>K. run_poststop_hooks K env (hooks_poststop hooks) st))) p = (Inr (), q) \<and>
     snd q = snd p @ h \<and> list_all (\<lambda>e. \<exists>d. fst e = HookCall d) h"
proof (cases "\<exists>sp hooks. spec = Some sp \<and> spec_hooks sp = Some hooks")
  case True
  then obtain sp hooks where sp: "spec = Some sp" "spec_hooks sp = Some hooks" by blast
  let ?m = "with_hooks H (\<lambda>K. run_poststop_hooks K env (hooks_poststop hooks) st)"
  obtain r q where run: "?m p = (r, q)" by (meson surj_pair)
  have "only (\<lambda>c. \<exists>d. c = HookCall d) ?m" by (intro only_with_hooks traced_intros) blast
  from only_log [OF this run] obtain h where h: "snd q = snd p @ h" "list_all (\<lambda>e. \<exists>d. fst e = HookCall d) h"
    by (auto simp: comp_def)
  have "r = Inr ()"
    using run by (cases p) (auto simp: with_hooks_def embed_def run_poststop_hooks_def andthen_def attempt_def ret_def
        split: prod.splits)
  then show ?thesis using run h sp by auto
next
  case False
  then show ?thesis by (cases spec) (auto simp: ret_def split: option.split)
qed



subsection \<open>A record that changes meanwhile\<close>

text \<open>
  Start does not hold the lock between reading the record and writing it back, and waits at the FIFO
  in between. Whatever has become of the store by then, the record is written as running: a container
  that was deleted while start waited is back in the store, and no create can have its id.
\<close>

theorem start_overwrites_meanwhile:
  assumes "has_disk H" "proper_handle rs hs c spec" "spec_hooks spec = None" "well_filed (stored (path_of rs) (fst p))"
    and "stored (path_of rs) (fst p) (ct_id c) = Some rec" "rec_status rec = StatusCreated"
    and "reconcile_record (disk_alive (fst p)) rec = rec"
    and "H (ReadFifo (fifo_path hs c)) (fst p) = (Inr v, d)"
  shows "\<exists>q. start_container H hs c p = (Inr (), q) \<and>
    stored (path_of rs) (fst q) = (stored (path_of rs) d)(ct_id c \<mapsto> stamp (rec\<lparr>rec_status := StatusRunning\<rparr>))"
proof -
  have h: "list_all normal rs" "rs \<noteq> []" "hs_root hs = path_of rs" "validate_id (ct_id c) = Inr ()" "ct_spec c = Some spec"
    using assms(2) by (simp_all add: proper_handle_def)
  obtain p1 where 1: "with_store H (\<lambda>K. load_record K (hs_root hs) (ct_id c)) p = (Inr rec, p1)" "fst p1 = fst p"
    using load_on_disk [OF assms(1), of "path_of rs" "ct_id c" p] assms(5,7) h(3) by auto
  obtain p2 where 2: "syscall H (ReadFifo (fifo_path hs c)) p1 = (Inr v, p2)" "fst p2 = d"
    using assms(8) 1(2) by (cases p1) (auto simp: syscall_def sys_def)
  have rid: "rec_id rec = ct_id c" using assms(4,5) by (simp add: well_filed_def)
  have wf: "wf_record (rec\<lparr>rec_status := StatusRunning\<rparr>)"
    using stored_wf(1) [OF assms(5)] by (simp add: wf_record_def status_of_text_def)
  obtain p3 where 3: "with_store H (\<lambda>K. save_record K (hs_root hs) (rec\<lparr>rec_status := StatusRunning\<rparr>)) p2 = (Inr (), p3)"
    "stored (path_of rs) (fst p3) = (stored (path_of rs) (fst p2))(ct_id c \<mapsto> stamp (rec\<lparr>rec_status := StatusRunning\<rparr>))"
    using save_on_disk [OF assms(1) h(1,2), of "rec\<lparr>rec_status := StatusRunning\<rparr>" p2] rid h(3,4) wf by auto
  have "start_container H hs c p = (Inr (), p3)"
    using 1(1) 2(1) 3(1) assms(3,6) h(5)
    by (simp add: start_container_def andthen_def wrap_eff_def ret_def Let_def)
  then show ?thesis using 2(2) 3(2) by blast
qed

text \<open>A host on which the container is deleted while start waits at its FIFO.\<close>

fun racing_host :: "disk host" where
  "racing_host (ReadFifo path) d = (Inr Done, snd (disk_world (RemoveTree (dir_of path)) d))"
| "racing_host c d = demo_host c d"

lemma racing_host_disk: "has_disk racing_host"
  by (auto simp: has_disk_def split: prod.split sum.split)

lemma start_overwrites_meanwhile_witness:
  "\<exists>d q. snd (racing_host (ReadFifo (fifo_path demo_setting web_handle)) created_disk) = d \<and>
     stored (path_of [''run'', ''lightpod'']) d ''web'' = None \<and>
     start_container racing_host demo_setting web_handle (created_disk, []) = (Inr (), q) \<and>
     stored (path_of [''run'', ''lightpod'']) (fst q) ''web'' \<noteq> None"
proof -
  let ?d = "snd (racing_host (ReadFifo (fifo_path demo_setting web_handle)) created_disk)"
  have gone: "dk_files ?d (store_path (path_of [''run'', ''lightpod'']) ''web'') = None" by code_simp
  have pids: "dk_pids created_disk = [41]" by code_simp
  have h: "ct_id web_handle = ''web''" by (simp add: web_handle_def)
  have fifo: "racing_host (ReadFifo (fifo_path demo_setting web_handle)) created_disk = (Inr Done, ?d)" by simp
  have filed: "well_filed (stored (path_of [''run'', ''lightpod'']) (fst (created_disk, [] :: entries)))"
    unfolding fst_conv created_disk_stored by (simp add: well_filed_def stamp_def web_record_def)
  obtain q where q: "start_container racing_host demo_setting web_handle (created_disk, []) = (Inr (), q)"
    "stored (path_of [''run'', ''lightpod'']) (fst q) = (stored (path_of [''run'', ''lightpod'']) ?d)
      (ct_id web_handle \<mapsto> stamp (stamp (web_record\<lparr>rec_status := StatusCreated\<rparr>)\<lparr>rec_status := StatusRunning\<rparr>))"
    using start_overwrites_meanwhile [OF racing_host_disk demo_host_ok(3) _ filed _ _ _ , of "stamp (web_record\<lparr>rec_status := StatusCreated\<rparr>)" Done ?d] pids fifo
    unfolding fst_conv created_disk_stored h
    by (auto simp: bare_spec_def stamp_def web_record_def reconcile_record_def disk_alive_def)
  have none: "stored (path_of [''run'', ''lightpod'']) ?d ''web'' = None"
    using gone unfolding stored_def by (simp only: option.case if_cancel)
  have again: "stored (path_of [''run'', ''lightpod'']) (fst q) ''web'' \<noteq> None"
    unfolding q(2) h by (simp only: fun_upd_same option.distinct not_False_eq_True)
  show ?thesis by (rule exI [of _ ?d], rule exI [of _ q]) (intro conjI refl none q(1) again)
qed

subsection \<open>A container that is still being created\<close>

text \<open>
  The record that claims an id has no pid yet, and kill refuses stopped containers only: a kill while
  the container is being created sends the signal to pid 0, which is every process in the process
  group of the caller.
\<close>

theorem kill_creating_signals_own_group:
  assumes "has_disk H" "hs_root hs = path_of rs"
    and "stored (path_of rs) (fst p) (ct_id c) = Some rec" "rec_status rec = StatusCreating" "rec_pid rec = 0"
    and "kill_container H hs c sig p = (r, q)"
  shows "\<exists>log a. snd q = log @ [(Signal 0 sig, a)] \<and> (r = Inr () \<longleftrightarrow> (\<exists>v. a = Inr v))"
proof -
  obtain p1 where 1: "with_store H (\<lambda>K. load_record K (hs_root hs) (ct_id c)) p = (Inr rec, p1)"
    using load_on_disk [OF assms(1), of "path_of rs" "ct_id c" p] assms(2-4) by (auto simp: reconcile_record_def)
  obtain x p2 where 2: "syscall H (Signal 0 sig) p1 = (x, p2)" by (meson surj_pair)
  have "q = p2 \<and> (r = Inr () \<longleftrightarrow> (\<exists>v. x = Inr v))"
    using assms(4-6) 1 2 by (cases x) (auto simp: kill_container_def andthen_def wrap_eff_def ewrap_def ret_def)
  then show ?thesis using syscall_log [OF 2] by (cases x) auto
qed

definition claimed_disk :: disk where
  "claimed_disk = saved_disk (path_of [''run'', ''lightpod'']) (zero_record\<lparr>rec_id := ''web'', rec_status := StatusCreating\<rparr>) empty_disk"

lemma claimed_disk_stored:
  "stored (path_of [''run'', ''lightpod'']) claimed_disk =
     [''web'' \<mapsto> stamp (zero_record\<lparr>rec_id := ''web'', rec_status := StatusCreating\<rparr>)]"
proof -
  have "stored (path_of [''run'', ''lightpod'']) empty_disk = Map.empty"
    by (simp add: fun_eq_iff stored_def empty_disk_def)
  moreover have "wf_record (zero_record\<lparr>rec_id := ''web'', rec_status := StatusCreating\<rparr>)"
    by (simp add: wf_record_def zero_record_def status_of_text_def)
  moreover have "validate_id ''web'' = Inr ()" by (simp add: validate_id_def contains_any_def)
  ultimately show ?thesis
    using stored_saved [of "[''run'', ''lightpod'']" "zero_record\<lparr>rec_id := ''web'', rec_status := StatusCreating\<rparr>" empty_disk]
      web_ok(3,4) by (simp add: claimed_disk_def)
qed

lemma kill_creating_signals_own_group_witness:
  "\<exists>log a. snd (snd (kill_container demo_host demo_setting web_handle 15 (claimed_disk, []))) = log @ [(Signal 0 15, a)]"
proof -
  obtain r q where run: "kill_container demo_host demo_setting web_handle 15 (claimed_disk, []) = (r, q)" by (meson surj_pair)
  have "hs_root demo_setting = path_of [''run'', ''lightpod'']" by (simp add: demo_setting_def)
  moreover have "stored (path_of [''run'', ''lightpod'']) (fst (claimed_disk, [] :: entries)) (ct_id web_handle) =
      Some (stamp (zero_record\<lparr>rec_id := ''web'', rec_status := StatusCreating\<rparr>))"
    unfolding fst_conv claimed_disk_stored by (simp add: web_handle_def)
  ultimately have "\<exists>log a. snd q = log @ [(Signal 0 15, a)] \<and> (r = Inr () \<longleftrightarrow> (\<exists>v. a = Inr v))"
    by (rule kill_creating_signals_own_group [OF steady_disk [OF demo_host_ok(1)] _ _ _ _ run])
      (simp_all add: stamp_def zero_record_def)
  then show ?thesis unfolding run by auto
qed

subsection \<open>An adopted container\<close>

text \<open>
  A container that was adopted because its bundle is gone has no spec, and start looks for the
  poststart hooks of the spec without asking: it releases the container, records it as running, and
  then panics.
\<close>

theorem start_adopted_panics:
  assumes "has_disk H" "list_all normal rs" "rs \<noteq> []" "hs_root hs = path_of rs" "ct_spec c = None"
    and "well_filed (stored (path_of rs) (fst p))"
    and "stored (path_of rs) (fst p) (ct_id c) = Some rec" "rec_status rec = StatusCreated"
    and "reconcile_record (disk_alive (fst p)) rec = rec"
    and "H (ReadFifo (fifo_path hs c)) (fst p) = (Inr v, d)"
  shows "\<exists>q. start_container H hs c p = (Inl nil_dereference, q) \<and>
    stored (path_of rs) (fst q) (ct_id c) = Some (stamp (rec\<lparr>rec_status := StatusRunning\<rparr>))"
proof -
  obtain p1 where 1: "with_store H (\<lambda>K. load_record K (hs_root hs) (ct_id c)) p = (Inr rec, p1)" "fst p1 = fst p"
    using load_on_disk [OF assms(1), of "path_of rs" "ct_id c" p] assms(4,7,9) by auto
  obtain p2 where 2: "syscall H (ReadFifo (fifo_path hs c)) p1 = (Inr v, p2)" "fst p2 = d"
    using assms(10) 1(2) by (cases p1) (auto simp: syscall_def sys_def)
  have rid: "rec_id rec = ct_id c" using assms(6,7) by (simp add: well_filed_def)
  have wf: "wf_record (rec\<lparr>rec_status := StatusRunning\<rparr>)" "validate_id (ct_id c) = Inr ()"
    using stored_wf [OF assms(7)] by (simp_all add: wf_record_def status_of_text_def)
  obtain p3 where 3: "with_store H (\<lambda>K. save_record K (hs_root hs) (rec\<lparr>rec_status := StatusRunning\<rparr>)) p2 = (Inr (), p3)"
    "stored (path_of rs) (fst p3) = (stored (path_of rs) (fst p2))(ct_id c \<mapsto> stamp (rec\<lparr>rec_status := StatusRunning\<rparr>))"
    using save_on_disk [OF assms(1-3), of "rec\<lparr>rec_status := StatusRunning\<rparr>" p2] rid assms(4) wf by auto
  have "start_container H hs c p = (Inl nil_dereference, p3)"
    using 1(1) 2(1) 3(1) assms(5,8)
    by (simp add: start_container_def andthen_def wrap_eff_def fail_def Let_def)
  then show ?thesis using 3(2) by auto
qed

lemma start_adopted_panics_witness:
  "fst (start_container demo_host demo_setting (web_handle\<lparr>ct_spec := None\<rparr>) (created_disk, [])) = Inl nil_dereference"
proof -
  let ?c = "web_handle\<lparr>ct_spec := None\<rparr>"
  have pids: "dk_pids created_disk = [41]" by code_simp
  have root: "hs_root demo_setting = path_of [''run'', ''lightpod'']" by (simp add: demo_setting_def)
  have "stored (path_of [''run'', ''lightpod'']) (fst (created_disk, [] :: entries)) (ct_id ?c) =
      Some (stamp (web_record\<lparr>rec_status := StatusCreated\<rparr>))"
    unfolding fst_conv created_disk_stored by (simp add: web_handle_def)
  moreover have "well_filed (stored (path_of [''run'', ''lightpod'']) (fst (created_disk, [] :: entries)))"
    unfolding fst_conv created_disk_stored by (simp add: well_filed_def stamp_def web_record_def)
  ultimately have "\<exists>q. start_container demo_host demo_setting ?c (created_disk, []) = (Inl nil_dereference, q) \<and>
      stored (path_of [''run'', ''lightpod'']) (fst q) (ct_id ?c) =
        Some (stamp (stamp (web_record\<lparr>rec_status := StatusCreated\<rparr>)\<lparr>rec_status := StatusRunning\<rparr>))"
    using start_adopted_panics [OF steady_disk [OF demo_host_ok(1)] _ _ root, of ?c "(created_disk, [])"
        "stamp (web_record\<lparr>rec_status := StatusCreated\<rparr>)" Done created_disk] pids web_ok(3,4)
    by (simp add: reconcile_record_def disk_alive_def stamp_def web_record_def)
  then show ?thesis by auto
qed

end
