(* ===== verification/Flag_Safety.thy ===== *)
theory Flag_Safety
  imports Run_Flags Cgroups
begin

section \<open>What the shortcuts of run and create do to a spec\<close>

text \<open>
  Sizes: what a number with a suffix is read as, and what reaches the cgroup files from there. The
  frame: which parts of a spec the flags can change at all. Volumes.
\<close>

subsection \<open>Sizes\<close>

text \<open>The suffixes of a size with the factor each stands for.\<close>

definition size_units :: "(string \<times> nat) list" where
  "size_units = [([], 1), (''k'', 2 ^ 10), (''kb'', 2 ^ 10), (''m'', 2 ^ 20), (''mb'', 2 ^ 20), (''g'', 2 ^ 30), (''gb'', 2 ^ 30)]"

text \<open>The characters sizes are written with.\<close>

definition size_char :: "char \<Rightarrow> bool" where
  "size_char c \<longleftrightarrow> digit_val c \<noteq> None \<or> c \<in> set ''kmgb''"

lemma size_char_facts:
  assumes "size_char c"
  shows "lower_char c = c" "\<not> is_space c" "c \<noteq> CHR 0x84" "c \<noteq> CHR 0xB0"
  using assms by (auto simp: size_char_def digit_val_def less_eq_char_def lower_char_def is_space_def split: if_splits)

lemma to_lower_same: "\<forall>c\<in>set s. size_char c \<Longrightarrow> to_lower s = s"
  by (induction s rule: to_lower.induct) (simp_all add: size_char_facts)

lemma dropWhile_none: "\<forall>c\<in>set s. \<not> P c \<Longrightarrow> dropWhile P s = s"
  by (cases s) auto

lemma trim_space_same: "\<forall>c\<in>set s. size_char c \<Longrightarrow> trim_space s = s"
  by (simp add: trim_space_def dropWhile_none size_char_facts)

lemma trim_right_units:
  assumes "set u \<subseteq> set cs" and "\<forall>c\<in>set ds. c \<notin> set cs"
  shows "trim_right (ds @ u) cs = ds"
proof -
  have "dropWhile (\<lambda>c. c \<in> set cs) (rev u @ rev ds) = dropWhile (\<lambda>c. c \<in> set cs) (rev ds)"
    using assms(1) by (intro dropWhile_append2) auto
  also have "\<dots> = rev ds" using assms(2) by (simp add: dropWhile_none)
  finally show ?thesis by (simp add: trim_right_def)
qed

lemma unit_letters_no_digits: "digit_val c \<noteq> None \<Longrightarrow> c \<notin> set ''kmgb''"
  by (auto simp: digit_val_def less_eq_char_def)

lemma size_multiplier_units:
  assumes "(u, k) \<in> set size_units"
  shows "size_multiplier (format_nat n @ u) = of_nat k"
proof -
  obtain xs x where x: "format_nat n = xs @ [x]" by (metis format_nat_not_Nil rev_exhaust)
  then have "digit_val x \<noteq> None" using format_nat_chars [of x n] by simp
  then have "x \<notin> set ''kmgb''" by (rule unit_letters_no_digits)
  with assms show ?thesis
    by (auto simp: size_units_def size_multiplier_def x suffix_to_prefix)
qed

lemma parse_size_units:
  assumes n: "n < 2 ^ 63" and u: "(u, k) \<in> set size_units"
  shows "parse_size (format_nat n @ u) = Inr (of_nat (n * k))"
proof -
  have us: "set u \<subseteq> set ''kmgb''" using u by (auto simp: size_units_def)
  have pl: "\<forall>c\<in>set (format_nat n @ u). size_char c" using us format_nat_chars by (auto simp: size_char_def)
  have "trim_right (format_nat n @ u) ''kmgb'' = format_nat n"
    using us format_nat_chars unit_letters_no_digits by (intro trim_right_units) blast+
  moreover have "parse_int 64 (format_nat n) = Inr (int n)"
    using parse_int_format [of 64 "int n"] n by (simp add: format_int_def)
  ultimately show ?thesis
    by (simp add: parse_size_def to_lower_same [OF pl] trim_space_same [OF pl] size_multiplier_units [OF u])
qed

subsection \<open>The stages\<close>

lemma set_append_unique [simp]: "set (append_unique xs x) = insert x (set xs)"
  by (auto simp: append_unique_def)

definition held_caps :: "process \<Rightarrow> linux_capabilities" where
  "held_caps pr = (case proc_capabilities pr of None \<Rightarrow> empty_capabilities | Some c \<Rightarrow> c)"

text \<open>Capabilities \<open>names\<close> added to the three sets a grant goes to, and nothing else changed.\<close>

definition granted :: "string set \<Rightarrow> process \<Rightarrow> process \<Rightarrow> bool" where
  "granted names pr pr' \<longleftrightarrow>
     pr' = pr\<lparr>proc_capabilities := proc_capabilities pr'\<rparr> \<and>
     (names = {} \<longrightarrow> proc_capabilities pr' = proc_capabilities pr) \<and>
     caps_inheritable (held_caps pr') = caps_inheritable (held_caps pr) \<and>
     caps_ambient (held_caps pr') = caps_ambient (held_caps pr) \<and>
     set (caps_bounding (held_caps pr')) = set (caps_bounding (held_caps pr)) \<union> names \<and>
     set (caps_effective (held_caps pr')) = set (caps_effective (held_caps pr)) \<union> names \<and>
     set (caps_permitted (held_caps pr')) = set (caps_permitted (held_caps pr)) \<union> names"

lemma granted_one: "granted {capability_name n} pr (add_capability n pr)"
  by (simp add: granted_def add_capability_def Let_def held_caps_def)

lemma granted_trans: "granted A p q \<Longrightarrow> granted B q r \<Longrightarrow> granted (A \<union> B) p r"
proof -
  assume g: "granted A p q" "granted B q r"
  have "r = p\<lparr>proc_capabilities := proc_capabilities r\<rparr>"
    using g unfolding granted_def by (metis process.surjective process.update_convs(8))
  then show "granted (A \<union> B) p r" using g by (auto simp: granted_def)
qed

lemma granted_fold: "granted (capability_name ` set ns) pr (fold add_capability ns pr)"
proof (induction ns arbitrary: pr)
  case Nil
  then show ?case by (simp add: granted_def)
next
  case (Cons n ns)
  have "granted ({capability_name n} \<union> capability_name ` set ns) pr (fold add_capability ns (add_capability n pr))"
    by (rule granted_trans [OF granted_one Cons.IH])
  then show ?case by simp
qed

text \<open>The user a flag names: its number, and its group, which is the same number unless given.\<close>

definition user_named :: "string \<Rightarrow> process \<Rightarrow> process \<Rightarrow> bool" where
  "user_named u pr pr' \<longleftrightarrow>
     (if u = [] then pr' = pr
      else \<exists>uid gid. pr' = pr\<lparr>proc_user := (proc_user pr)\<lparr>user_uid := of_nat uid, user_gid := of_nat gid\<rparr>\<rparr> \<and>
        uid < 2 ^ 32 \<and> gid < 2 ^ 32 \<and> parse_uint 32 (fst (cut CHR '':'' u)) = Inr uid \<and>
        (if CHR '':'' \<in> set u then parse_uint 32 (fst (snd (cut CHR '':'' u))) = Inr gid else gid = uid))"

lemma cut_flag: "snd (snd (cut c u)) \<longleftrightarrow> c \<in> set u"
  by (cases c u rule: cut_cases) auto

lemma set_user_Inr: "set_user u pr = Inr pr' \<Longrightarrow> user_named u pr pr'"
  using cut_flag [of "CHR '':''" u]
  by (auto simp: set_user_def user_named_def Let_def dest: parse_uint_range split: if_splits prod.splits sum.splits)

definition process_flagged :: "run_flags \<Rightarrow> process \<Rightarrow> process \<Rightarrow> bool" where
  "process_flagged rf pr pr' \<longleftrightarrow>
     (\<exists>p1 p2. p1 = pr\<lparr>proc_env := append_env (proc_env pr) (rf_env rf),
                     proc_cwd := (if rf_workdir rf = [] then proc_cwd pr else rf_workdir rf)\<rparr> \<and>
        (rf_workdir rf = [] \<or> has_prefix (rf_workdir rf) ''/'') \<and>
        user_named (rf_user rf) p1 p2 \<and> granted (capability_name ` set (rf_add_caps rf)) p2 pr')"

lemma apply_process_flags_Inr:
  assumes "apply_process_flags s rf = Inr s'"
  shows "\<exists>pr pr'. spec_process s = Some pr \<and> s' = s\<lparr>spec_process := Some pr'\<rparr> \<and> process_flagged rf pr pr'"
proof -
  from assms obtain pr where pr: "spec_process s = Some pr" by (auto simp: apply_process_flags_def split: option.splits)
  define p1 where "p1 = pr\<lparr>proc_env := append_env (proc_env pr) (rf_env rf),
    proc_cwd := (if rf_workdir rf = [] then proc_cwd pr else rf_workdir rf)\<rparr>"
  from assms pr obtain p2 where p2: "set_user (rf_user rf) p1 = Inr p2"
    and s': "s' = s\<lparr>spec_process := Some (fold add_capability (rf_add_caps rf) p2)\<rparr>"
    and dir: "rf_workdir rf = [] \<or> has_prefix (rf_workdir rf) ''/''"
    by (auto simp: apply_process_flags_def Let_def p1_def result_iffs split: if_splits)
  with pr p1_def set_user_Inr [OF p2] granted_fold [of "rf_add_caps rf" p2] show ?thesis
    unfolding process_flagged_def by blast
qed

text \<open>A mount a size was set on: only its options differ, and only if it is the one of \<^verbatim>\<open>/dev/shm\<close>.\<close>

definition maybe_sized :: "mount \<Rightarrow> mount \<Rightarrow> bool" where
  "maybe_sized m m' \<longleftrightarrow> m' = m \<or> (mnt_destination m = ''/dev/shm'' \<and> (\<exists>bytes. m' = sized bytes m))"

lemma maybe_sized_refl: "list_all2 maybe_sized xs xs"
  by (simp add: list_all2_refl maybe_sized_def)

lemma resize_mounts_Inr: "resize_mounts b ms = Inr ms' \<Longrightarrow> list_all2 maybe_sized ms ms'"
proof (induction ms arbitrary: ms')
  case (Cons m ms)
  then show ?case by (auto simp: result_iffs maybe_sized_def [of m] maybe_sized_refl split: if_splits)
qed simp

lemma add_volumes_Inr:
  "each (\<lambda>v s. ebind (parse_volume v) (\<lambda>m. Inr (s\<lparr>spec_mounts := spec_mounts s @ [m]\<rparr>))) vs s = Inr s' \<Longrightarrow>
   \<exists>ms. map parse_volume vs = map Inr ms \<and> s' = s\<lparr>spec_mounts := spec_mounts s @ ms\<rparr>"
proof (induction vs arbitrary: s)
  case (Cons v vs)
  then obtain m where m: "parse_volume v = Inr m"
    and rest: "each (\<lambda>v s. ebind (parse_volume v) (\<lambda>m. Inr (s\<lparr>spec_mounts := spec_mounts s @ [m]\<rparr>))) vs
      (s\<lparr>spec_mounts := spec_mounts s @ [m]\<rparr>) = Inr s'"
    by (auto simp: result_iffs)
  from Cons.IH [OF rest] obtain ms where "map parse_volume vs = map Inr ms"
    and "s' = s\<lparr>spec_mounts := spec_mounts s @ [m] @ ms\<rparr>" by auto
  with m show ?case by (intro exI [of _ "m # ms"]) simp
qed simp

definition share_ipc :: "run_flags \<Rightarrow> spec \<Rightarrow> spec" where
  "share_ipc rf s = (if rf_ipc rf = ''host'' then set_namespace_path IPCNamespace ''/proc/1/ns/ipc'' s else s)"

lemma apply_mount_flags_Inr:
  assumes "apply_mount_flags s rf = Inr s'"
  shows "\<exists>volumes ms. map parse_volume (rf_volumes rf) = map Inr volumes \<and>
    list_all2 maybe_sized (spec_mounts s @ volumes) ms \<and> (rf_ipc rf = [] \<or> rf_ipc rf = ''host'') \<and>
    s' = share_ipc rf (s\<lparr>spec_mounts := ms\<rparr>)"
proof -
  from assms obtain s1 s2 where s1: "each (\<lambda>v s. ebind (parse_volume v) (\<lambda>m. Inr (s\<lparr>spec_mounts := spec_mounts s @ [m]\<rparr>)))
      (rf_volumes rf) s = Inr s1"
    and s2: "(if rf_shm_size rf = [] then Inr s1
      else ebind (ewrap ''--shm-size: %w'' [] (parse_size (rf_shm_size rf))) (\<lambda>bytes. resize_shm bytes s1)) = Inr s2"
    and "(if rf_ipc rf = [] then Inr s2
      else if rf_ipc rf = ''host'' then Inr (set_namespace_path IPCNamespace ''/proc/1/ns/ipc'' s2)
      else Inl (Errorf ''--ipc %q is not supported (only \"host\")'' [rf_ipc rf])) = Inr s'"
    unfolding apply_mount_flags_def ebind_eq_Inr by blast
  then have s': "s' = share_ipc rf s2" "rf_ipc rf = [] \<or> rf_ipc rf = ''host''"
    by (auto simp: share_ipc_def split: if_splits)
  from add_volumes_Inr [OF s1] obtain vs where
    vs: "map parse_volume (rf_volumes rf) = map Inr vs" "s1 = s\<lparr>spec_mounts := spec_mounts s @ vs\<rparr>" by blast
  have "\<exists>ms. list_all2 maybe_sized (spec_mounts s1) ms \<and> s2 = s1\<lparr>spec_mounts := ms\<rparr>"
  proof (cases "rf_shm_size rf = []")
    case True
    then show ?thesis using s2 maybe_sized_refl by (intro exI [of _ "spec_mounts s1"]) simp
  next
    case False
    then show ?thesis using s2 resize_mounts_Inr by (auto simp: resize_shm_def result_iffs)
  qed
  with vs s' show ?thesis by auto
qed

lemma linux_same: "spec_linux s \<noteq> None \<Longrightarrow> s\<lparr>spec_linux := Some (linux_of s)\<rparr> = s"
  by (cases s) (auto simp: linux_of_def)

lemma add_devices_Inr:
  "each (add_device stat) vs s = Inr s' \<Longrightarrow> spec_linux s \<noteq> None \<Longrightarrow>
   \<exists>ds. map (parse_raw_device stat) vs = map Inr ds \<and>
     s' = s\<lparr>spec_linux := Some ((linux_of s)\<lparr>lx_devices := lx_devices (linux_of s) @ ds\<rparr>)\<rparr>"
proof (induction vs arbitrary: s)
  case Nil
  then show ?case by (intro exI [of _ "[]"]) (simp add: linux_same)
next
  case (Cons v vs)
  from Cons.prems(1) obtain s1 where one: "add_device stat v s = Inr s1" and rest: "each (add_device stat) vs s1 = Inr s'"
    by (auto simp: ebind_eq_Inr)
  from one obtain d where d: "parse_raw_device stat v = Inr d"
    and s1: "s1 = s\<lparr>spec_linux := Some ((linux_of s)\<lparr>lx_devices := lx_devices (linux_of s) @ [d]\<rparr>)\<rparr>"
    by (auto simp: result_iffs add_device_def Let_def split: if_splits)
  from Cons.IH [OF rest] s1 obtain ds where "map (parse_raw_device stat) vs = map Inr ds"
    and "s' = s1\<lparr>spec_linux := Some ((linux_of s1)\<lparr>lx_devices := lx_devices (linux_of s1) @ ds\<rparr>)\<rparr>" by auto
  with d s1 show ?case by (intro exI [of _ "d # ds"]) (simp add: linux_of_def)
qed

lemma set_nvidia_env_only_env:
  "set_nvidia_env s gpu = Inr s' \<Longrightarrow>
   \<exists>pr env. spec_process s = Some pr \<and> s' = s\<lparr>spec_process := Some (pr\<lparr>proc_env := env\<rparr>)\<rparr>"
  by (auto simp: set_nvidia_env_def set_env_def Let_def split: option.splits)

lemma apply_device_flags_Inr:
  assumes "apply_device_flags stat s rf = Inr s'" and "spec_linux s \<noteq> None" and pr: "spec_process s = Some pr"
  shows "\<exists>ds env. map (parse_raw_device stat) (rf_devices rf) = map Inr ds \<and> (rf_gpu rf = [] \<longrightarrow> env = proc_env pr) \<and>
    s' = s\<lparr>spec_process := Some (pr\<lparr>proc_env := env\<rparr>),
            spec_linux := Some ((linux_of s)\<lparr>lx_devices := lx_devices (linux_of s) @ ds\<rparr>)\<rparr>"
proof -
  from assms(1) obtain s1 where s1: "each (add_device stat) (rf_devices rf) s = Inr s1"
    and s': "(if rf_gpu rf = [] then Inr s1 else set_nvidia_env s1 (rf_gpu rf)) = Inr s'"
    unfolding apply_device_flags_def linux_same [OF assms(2)] Let_def if_cancel ebind_eq_Inr by blast
  from add_devices_Inr [OF s1 assms(2)] obtain ds where ds: "map (parse_raw_device stat) (rf_devices rf) = map Inr ds"
    "s1 = s\<lparr>spec_linux := Some ((linux_of s)\<lparr>lx_devices := lx_devices (linux_of s) @ ds\<rparr>)\<rparr>" by blast
  show ?thesis
  proof (cases "rf_gpu rf = []")
    case True
    then show ?thesis using ds s' pr by (intro exI [of _ ds] exI [of _ "proc_env pr"]) (cases s; simp)
  next
    case False
    with s' set_nvidia_env_only_env [of s1 "rf_gpu rf" s'] ds pr obtain env where
      "s' = s1\<lparr>spec_process := Some (pr\<lparr>proc_env := env\<rparr>)\<rparr>" by auto
    with ds False show ?thesis by (intro exI [of _ ds] exI [of _ env]) simp
  qed
qed

lemma share_ipc_only:
  "share_ipc rf s = s\<lparr>spec_linux := if rf_ipc rf = ''host''
     then Some ((linux_of s)\<lparr>lx_namespaces := point_namespace IPCNamespace ''/proc/1/ns/ipc'' (lx_namespaces (linux_of s))\<rparr>)
     else spec_linux s\<rparr>"
  by (simp add: share_ipc_def set_namespace_path_def Let_def)

subsection \<open>The frame\<close>

text \<open>The linux section after the flags: resources, devices, one namespace and seccomp may differ.\<close>

definition linux_flagged :: "run_flags \<Rightarrow> linux \<Rightarrow> linux \<Rightarrow> bool" where
  "linux_flagged rf l l' \<longleftrightarrow>
     (\<exists>r ds. l' = l\<lparr>lx_resources := Some r, lx_devices := lx_devices l @ ds,
        lx_namespaces := (if rf_ipc rf = ''host'' then point_namespace IPCNamespace ''/proc/1/ns/ipc'' (lx_namespaces l)
                          else lx_namespaces l),
        lx_seccomp := (if rf_seccomp rf = ''unconfined'' then None else lx_seccomp l)\<rparr> \<and>
        (rf_devices rf = [] \<longrightarrow> ds = []))"

text \<open>The resources the last three flags set, each only if it is given.\<close>

definition limited :: "int64 \<Rightarrow> run_flags \<Rightarrow> linux_resources \<Rightarrow> linux_resources \<Rightarrow> bool" where
  "limited out_of_range rf r r' \<longleftrightarrow>
     res_devices r' = res_devices r \<and>
     (if rf_memory rf = [] then res_memory r' = res_memory r
      else \<exists>bytes mem. parse_size (rf_memory rf) = Inr bytes \<and> res_memory r' = Some mem \<and> mem_limit mem = Some bytes \<and>
        mem_reservation mem = None \<and> mem_swap mem = None) \<and>
     res_cpu r' = (if positive (rf_cpus rf)
       then Some \<lparr>cpu_shares = None, cpu_quota = Some (cpu_quota_of out_of_range (rf_cpus rf)), cpu_period = Some 100000,
                  cpu_cpus = [], cpu_mems = []\<rparr>
       else res_cpu r) \<and>
     res_pids r' = (if 0 <s rf_pids rf then Some \<lparr>pids_limit = rf_pids rf\<rparr> else res_pids r)"

definition resources_of :: "spec \<Rightarrow> linux_resources" where
  "resources_of spec = (case lx_resources (linux_of spec) of None \<Rightarrow> empty_resources | Some r \<Rightarrow> r)"

lemma with_resources_alt:
  "with_resources f s = s\<lparr>spec_linux := Some ((linux_of s)\<lparr>lx_resources := Some (f (resources_of s))\<rparr>)\<rparr>"
  by (simp add: with_resources_def resources_of_def Let_def)

lemma resources_of_linux:
  "resources_of (s\<lparr>spec_linux := Some l\<rparr>) = (case lx_resources l of None \<Rightarrow> empty_resources | Some r \<Rightarrow> r)"
  by (simp add: resources_of_def linux_of_def)

lemma linux_of_update [simp]: "linux_of (s\<lparr>spec_linux := Some l\<rparr>) = l"
  by (simp add: linux_of_def)

lemma limit_flags_Inr:
  assumes "limit_flags oor s rf = Inr s'" and "spec_linux s \<noteq> None" and r: "lx_resources (linux_of s) = Some r"
  shows "\<exists>r'. limited oor rf r r' \<and>
    s' = s\<lparr>spec_linux := Some ((linux_of s)\<lparr>lx_resources := Some r',
      lx_seccomp := (if rf_seccomp rf = ''unconfined'' then None else lx_seccomp (linux_of s))\<rparr>)\<rparr>"
proof -
  define l where "l = linux_of s"
  then have "l\<lparr>lx_resources := Some r\<rparr> = l" using r by (cases l) simp
  then have same: "s\<lparr>spec_linux := Some (l\<lparr>lx_resources := Some r\<rparr>)\<rparr> = s"
    using linux_same [OF assms(2)] by (simp add: l_def)
  define r1 where "r1 = (if rf_memory rf = [] then r
    else case parse_size (rf_memory rf) of Inl _ \<Rightarrow> r | Inr b \<Rightarrow> limit_memory b r)"
  define r2 where "r2 = (if positive (rf_cpus rf) then limit_cpu (cpu_quota_of oor (rf_cpus rf)) r1 else r1)"
  define r3 where "r3 = (if 0 <s rf_pids rf then r2\<lparr>res_pids := Some \<lparr>pids_limit = rf_pids rf\<rparr>\<rparr> else r2)"
  let ?s = "\<lambda>r. s\<lparr>spec_linux := Some (l\<lparr>lx_resources := Some r\<rparr>)\<rparr>"
  have w: "with_resources f (?s x) = ?s (f x)" for f x
    by (simp add: with_resources_alt resources_of_linux)
  have ws: "with_resources f s = ?s (f r)" for f using w [of f r] unfolding same .
  let ?m = "if rf_memory rf = [] then Inr s else ebind (ewrap ''--memory: %w'' [] (parse_size (rf_memory rf)))
      (\<lambda>b. Inr (with_resources (limit_memory b) s))"
  obtain s1 where s1: "?m = Inr s1"
    using assms(1) unfolding limit_flags_def by (cases ?m) simp_all
  have "?m = Inr (?s r1) \<and> (rf_memory rf \<noteq> [] \<longrightarrow> (\<exists>b. parse_size (rf_memory rf) = Inr b))"
  proof (cases "rf_memory rf = []")
    case True
    then have "?s r1 = s" using same by (simp add: r1_def)
    with True show ?thesis by simp
  next
    case False
    with s1 obtain b where b: "parse_size (rf_memory rf) = Inr b"
      by (cases "parse_size (rf_memory rf)") (simp_all add: ewrap_def)
    with False show ?thesis by (simp add: r1_def ws ewrap_def)
  qed
  then have mem: "?m = Inr (?s r1)" and parsed: "rf_memory rf \<noteq> [] \<longrightarrow> (\<exists>b. parse_size (rf_memory rf) = Inr b)"
    by simp_all
  have "s' = s\<lparr>spec_linux := Some (l\<lparr>lx_resources := Some r3,
      lx_seccomp := (if rf_seccomp rf = ''unconfined'' then None else lx_seccomp l)\<rparr>)\<rparr>"
    using assms(1) unfolding limit_flags_def mem
    by (simp add: Let_def w r2_def r3_def split: if_splits)
  moreover have "limited oor rf r r3"
    using parsed by (auto simp: limited_def r1_def r2_def r3_def limit_memory_def limit_cpu_def)
  ultimately show ?thesis unfolding l_def by blast
qed

lemma basic_flags_alt:
  "basic_flags s rf = s\<lparr>spec_linux := Some ((linux_of s)\<lparr>lx_resources := Some (resources_of s)\<rparr>),
     spec_hostname := (if rf_hostname rf = [] then spec_hostname s else rf_hostname rf),
     spec_root := map_option (\<lambda>r. r\<lparr>root_readonly := root_readonly r \<or> rf_readonly rf\<rparr>) (spec_root s)\<rparr>"
  by (cases s; cases "spec_root s") (auto simp: basic_flags_def with_resources_alt Let_def)

lemma apply_run_flags_Inr:
  assumes "apply_run_flags oor stat spec rf = Inr spec'"
  shows "\<exists>pr pr' env ms volumes l'.
    spec' = spec\<lparr>spec_process := Some (pr'\<lparr>proc_env := env\<rparr>),
      spec_root := map_option (\<lambda>r. r\<lparr>root_readonly := root_readonly r \<or> rf_readonly rf\<rparr>) (spec_root spec),
      spec_hostname := (if rf_hostname rf = [] then spec_hostname spec else rf_hostname rf),
      spec_mounts := ms, spec_linux := Some l'\<rparr> \<and>
    spec_process spec = Some pr \<and> process_flagged rf pr pr' \<and> (rf_gpu rf = [] \<longrightarrow> env = proc_env pr') \<and>
    map parse_volume (rf_volumes rf) = map Inr volumes \<and> list_all2 maybe_sized (spec_mounts spec @ volumes) ms \<and>
    linux_flagged rf (linux_of spec) l' \<and> limited oor rf (resources_of spec) (resources_of spec')"
proof -
  define s1 where "s1 = basic_flags spec rf"
  note s1' = s1_def [unfolded basic_flags_alt]
  from assms obtain s2 s3 s4 where s2: "apply_process_flags s1 rf = Inr s2"
    and s3: "apply_mount_flags s2 rf = Inr s3" and s4: "apply_device_flags stat s3 rf = Inr s4"
    and s5: "limit_flags oor s4 rf = Inr spec'"
    unfolding apply_run_flags_def Let_def s1_def [symmetric] by (auto simp: ebind_eq_Inr split: if_splits)
  from apply_process_flags_Inr [OF s2] obtain pr pr' where p: "spec_process s1 = Some pr"
    "s2 = s1\<lparr>spec_process := Some pr'\<rparr>" "process_flagged rf pr pr'" by blast
  from apply_mount_flags_Inr [OF s3] obtain volumes ms where m: "map parse_volume (rf_volumes rf) = map Inr volumes"
    "list_all2 maybe_sized (spec_mounts s2 @ volumes) ms" "s3 = share_ipc rf (s2\<lparr>spec_mounts := ms\<rparr>)" by blast
  have l3: "spec_linux s3 \<noteq> None" and p3: "spec_process s3 = Some pr'"
    by (simp_all add: m(3) p(2) s1' share_ipc_only)
  from apply_device_flags_Inr [OF s4 l3 p3] obtain ds env where d: "map (parse_raw_device stat) (rf_devices rf) = map Inr ds"
    "rf_gpu rf = [] \<longrightarrow> env = proc_env pr'"
    "s4 = s3\<lparr>spec_process := Some (pr'\<lparr>proc_env := env\<rparr>),
       spec_linux := Some ((linux_of s3)\<lparr>lx_devices := lx_devices (linux_of s3) @ ds\<rparr>)\<rparr>" by blast
  have r4: "lx_resources (linux_of s4) = Some (resources_of spec)"
    by (simp add: d(3) m(3) p(2) s1' share_ipc_only linux_of_def)
  have l4: "spec_linux s4 \<noteq> None" by (simp add: d(3))
  from limit_flags_Inr [OF s5 l4 r4] obtain r' where r: "limited oor rf (resources_of spec) r'"
    "spec' = s4\<lparr>spec_linux := Some ((linux_of s4)\<lparr>lx_resources := Some r',
      lx_seccomp := (if rf_seccomp rf = ''unconfined'' then None else lx_seccomp (linux_of s4))\<rparr>)\<rparr>" by blast
  define l' where "l' = (linux_of s4)\<lparr>lx_resources := Some r',
      lx_seccomp := (if rf_seccomp rf = ''unconfined'' then None else lx_seccomp (linux_of s4))\<rparr>"
  have l': "l' = (linux_of spec)\<lparr>lx_resources := Some r', lx_devices := lx_devices (linux_of spec) @ ds,
      lx_namespaces := (if rf_ipc rf = ''host'' then point_namespace IPCNamespace ''/proc/1/ns/ipc'' (lx_namespaces (linux_of spec))
                        else lx_namespaces (linux_of spec)),
      lx_seccomp := (if rf_seccomp rf = ''unconfined'' then None else lx_seccomp (linux_of spec))\<rparr>"
    unfolding l'_def d(3) m(3) p(2) s1' share_ipc_only
    by (cases "rf_ipc rf = ''host''"; cases "rf_seccomp rf = ''unconfined''") (simp_all add: linux_of_def)
  have at_last: "spec' = s4\<lparr>spec_linux := Some l'\<rparr>" by (simp only: r(2) l'_def)
  have "spec' = spec\<lparr>spec_process := Some (pr'\<lparr>proc_env := env\<rparr>),
      spec_root := map_option (\<lambda>r. r\<lparr>root_readonly := root_readonly r \<or> rf_readonly rf\<rparr>) (spec_root spec),
      spec_hostname := (if rf_hostname rf = [] then spec_hostname spec else rf_hostname rf),
      spec_mounts := ms, spec_linux := Some l'\<rparr>"
    unfolding at_last d(3) m(3) p(2) s1' share_ipc_only by simp
  moreover have "spec_process spec = Some pr" using p(1) by (simp add: s1')
  moreover have "list_all2 maybe_sized (spec_mounts spec @ volumes) ms" using m(2) by (simp add: p(2) s1')
  moreover have "linux_flagged rf (linux_of spec) l'" unfolding linux_flagged_def l' using d(1)
    by (intro exI [of _ r'] exI [of _ ds]) auto
  moreover have "limited oor rf (resources_of spec) (resources_of spec')"
    using r by (simp add: resources_of_linux)
  ultimately show ?thesis using p(3) d(2) m(1) by blast
qed

lemma apply_run_flags_limited:
  "apply_run_flags oor stat spec rf = Inr spec' \<Longrightarrow> limited oor rf (resources_of spec) (resources_of spec')"
  using apply_run_flags_Inr by blast


text \<open>A container with a memory limit, a volume, a user and one more capability.\<close>

definition camera_flags :: run_flags where
  "camera_flags = no_flags\<lparr>rf_rootfs := ''/srv/app'', rf_memory := ''64m'', rf_readonly := True,
     rf_user := ''7:44'', rf_volumes := [''/srv/models:/models:ro''], rf_add_caps := [''sys_nice'']\<rparr>"

definition no_nodes :: "string \<Rightarrow> node_stat result" where
  "no_nodes p = Inl (Errorf ''no such file or directory'' [])"

lemma parse_64m: "parse_size ''64m'' = Inr 67108864"
proof -
  have "format_nat 64 = ''64''" by code_simp
  with parse_size_units [of 64 "''m''" "2 ^ 20"] show ?thesis by (simp add: size_units_def)
qed

lemma is_ok_ebind: "is_ok m \<Longrightarrow> (\<And>x. is_ok (f x)) \<Longrightarrow> is_ok (ebind m f)"
  by (auto simp: is_ok_iff ebind_eq_Inr)

lemma camera_flags_fields [simp]:
  "rf_tty camera_flags = False" "rf_env camera_flags = []" "rf_workdir camera_flags = []" "rf_user camera_flags = ''7:44''"
  "rf_add_caps camera_flags = [''sys_nice'']" "rf_volumes camera_flags = [''/srv/models:/models:ro'']"
  "rf_shm_size camera_flags = []" "rf_ipc camera_flags = []" "rf_devices camera_flags = []" "rf_gpu camera_flags = []"
  "rf_memory camera_flags = ''64m''" "rf_cpus camera_flags = Float False 0 0" "rf_pids camera_flags = 0"
  "rf_seccomp camera_flags = []" "rf_readonly camera_flags = True" "rf_hostname camera_flags = []"
  by (simp_all add: camera_flags_def no_flags_def)

lemma camera_flags_apply:
  assumes "is_ok (parse_size size_text)"
  shows "is_ok (apply_run_flags 0 no_nodes gpu_spec (camera_flags\<lparr>rf_memory := size_text\<rparr>))"
    (is "is_ok (apply_run_flags 0 no_nodes gpu_spec ?rf)")
proof -
  have u: "is_ok (set_user ''7:44'' pr)" for pr
    by (simp add: set_user_def parse_uint_def digit_val_def less_eq_char_def)
  have pr: "\<exists>pr. spec_process (basic_flags gpu_spec ?rf) = Some pr"
    by (simp add: basic_flags_alt gpu_spec_def)
  have "is_ok (apply_process_flags (basic_flags gpu_spec ?rf) ?rf)"
    using pr u by (auto simp: apply_process_flags_def Let_def intro!: is_ok_ebind)
  moreover have "is_ok (apply_mount_flags s ?rf)" for s
    by (simp add: apply_mount_flags_def parse_volume_def)
  moreover have "is_ok (apply_device_flags no_nodes s ?rf)" for s
    by (simp add: apply_device_flags_def)
  moreover have "is_ok (limit_flags 0 s ?rf)" for s
    using assms by (auto simp: limit_flags_def ewrap_def Let_def is_ok_iff)
  ultimately show ?thesis unfolding apply_run_flags_def Let_def by (auto intro!: is_ok_ebind)
qed


subsection \<open>The memory limit\<close>

lemma signed_take_bit_high:
  fixes k :: int
  assumes "2 ^ 63 \<le> k" and "k < 2 ^ 64"
  shows "signed_take_bit 63 k = k - 2 ^ 64"
proof -
  have "signed_take_bit 63 k = signed_take_bit 63 (k - 2 ^ 64)"
    unfolding signed_take_bit_eq_iff_take_bit_eq by (simp add: take_bit_eq_mod)
  also have "\<dots> = k - 2 ^ 64" using assms by (intro signed_take_bit_int_eq_self) simp_all
  finally show ?thesis .
qed

lemma sint_of_nat_mod:
  "sint (of_nat m :: int64) =
     (if m mod 2 ^ 64 < 2 ^ 63 then int (m mod 2 ^ 64) else int (m mod 2 ^ 64) - 2 ^ 64)"
proof -
  have "uint (of_nat m :: int64) = int (m mod 2 ^ 64)"
    by (simp add: unsigned_of_nat take_bit_eq_mod zmod_int)
  then have s: "sint (of_nat m :: int64) = signed_take_bit 63 (int (m mod 2 ^ 64))"
    by (simp add: sint_uint)
  have "m mod 2 ^ 64 < 2 ^ 64" by (rule mod_less_divisor) simp
  then have lt: "int (m mod 2 ^ 64) < 2 ^ 64" by (simp only: of_nat_pow2_iffs)
  show ?thesis
  proof (cases "m mod 2 ^ 64 < 2 ^ 63")
    case True
    then have "int (m mod 2 ^ 64) < 2 ^ 63" by (simp only: of_nat_pow2_iffs)
    then have "signed_take_bit 63 (int (m mod 2 ^ 64)) = int (m mod 2 ^ 64)"
      by (intro signed_take_bit_int_eq_self) (simp_all add: order.trans [where b = 0])
    with s True show ?thesis by simp
  next
    case False
    then have "\<not> int (m mod 2 ^ 64) < 2 ^ 63" by (simp only: of_nat_pow2_iffs) simp
    with signed_take_bit_high [OF _ lt] s False show ?thesis by simp
  qed
qed

lemma format_limit_of_nat:
  "format_limit (of_nat m) = (let w = m mod 2 ^ 64 in if 0 < w \<and> w < 2 ^ 63 then format_nat w else ''max'')"
  by (simp add: format_limit_def word_sle_eq sint_of_nat_mod Let_def format_int_def)

text \<open>
  C19. What \<^verbatim>\<open>--memory\<close> with a decimal number and a unit does. The number is multiplied in wrapping 64-bit
  arithmetic: below \<open>2 ^ 63\<close> bytes the spec holds exactly the amount and \<^verbatim>\<open>memory.max\<close> is written with
  it, but beyond, the product is taken modulo \<open>2 ^ 64\<close> without an error, and a remainder of zero or one with
  the sign bit set is written as \<^verbatim>\<open>max\<close>: the container runs without the limit that was asked for.
\<close>

theorem memory_flag_limit:
  assumes ok: "apply_run_flags oor stat spec rf = Inr spec'" and mem: "rf_memory rf = format_nat n @ u"
    and n: "n < 2 ^ 63" and u: "(u, k) \<in> set size_units"
  shows "\<exists>mem l. res_memory (resources_of spec') = Some mem \<and> mem_limit mem = Some l \<and>
    (n * k < 2 ^ 63 \<longrightarrow> sint l = int (n * k)) \<and>
    format_limit l =
      (let w = n * k mod 2 ^ 64 in if 0 < w \<and> w < 2 ^ 63 then format_nat w else ''max'')"
proof -
  from mem have "rf_memory rf \<noteq> []" by simp
  with apply_run_flags_limited [OF ok] mem parse_size_units [OF n u] obtain mem where
    m: "res_memory (resources_of spec') = Some mem" "mem_limit mem = Some (of_nat (n * k))"
    unfolding limited_def by auto
  have "sint (of_nat (n * k) :: int64) = int (n * k)" if "n * k < 2 ^ 63"
  proof -
    from that have "n * k < 2 ^ 64" by simp
    then have "n * k mod 2 ^ 64 = n * k" by (rule mod_less)
    with that show ?thesis unfolding sint_of_nat_mod by simp
  qed
  with m format_limit_of_nat [of "n * k"] show ?thesis by blast
qed

theorem memory_flag_limit_witness:
  "\<exists>spec' mem l. apply_run_flags 0 no_nodes gpu_spec (camera_flags\<lparr>rf_memory := format_nat 17179869184 @ ''g''\<rparr>) = Inr spec' \<and>
     res_memory (resources_of spec') = Some mem \<and> mem_limit mem = Some l \<and> format_limit l = ''max''"
proof -
  have u: "(''g'', 2 ^ 30) \<in> set size_units" by (simp add: size_units_def)
  have n: "(17179869184 :: nat) < 2 ^ 63" by simp
  have "is_ok (parse_size (format_nat 17179869184 @ ''g''))"
    using parse_size_units [OF n u] by simp
  then obtain spec' where s:
    "apply_run_flags 0 no_nodes gpu_spec (camera_flags\<lparr>rf_memory := format_nat 17179869184 @ ''g''\<rparr>) = Inr spec'"
    using camera_flags_apply by (auto simp: is_ok_iff)
  from memory_flag_limit [OF s _ n u] s show ?thesis by (auto simp: Let_def)
qed

subsection \<open>Volumes\<close>

lemma split_on_three:
  "split_on c v = [a, b] \<longleftrightarrow> v = a @ c # b \<and> c \<notin> set a \<and> c \<notin> set b"
  "split_on c v = [a, b, d] \<longleftrightarrow> v = a @ c # b @ c # d \<and> c \<notin> set a \<and> c \<notin> set b \<and> c \<notin> set d"
proof -
  have j: "v = join_with [c] xs" if "split_on c v = xs" for xs using join_split_on [of c v] that by simp
  have p: "\<forall>x\<in>set xs. c \<notin> set x" if "split_on c v = xs" for xs using split_on_parts [of _ c v] that by blast
  show "split_on c v = [a, b] \<longleftrightarrow> v = a @ c # b \<and> c \<notin> set a \<and> c \<notin> set b"
    using j [of "[a, b]"] p [of "[a, b]"] by (auto simp: split_on_append_sep split_on_no_sep)
  show "split_on c v = [a, b, d] \<longleftrightarrow> v = a @ c # b @ c # d \<and> c \<notin> set a \<and> c \<notin> set b \<and> c \<notin> set d"
    using j [of "[a, b, d]"] p [of "[a, b, d]"] by (auto simp: split_on_append_sep split_on_no_sep)
qed

text \<open>
  C39. \<^verbatim>\<open>-v\<close> accepts exactly the texts \<^verbatim>\<open>host:container\<close>, with \<^verbatim>\<open>:ro\<close> or \<^verbatim>\<open>:rw\<close> behind or not, whose two
  paths are absolute and hold no colon, and makes the recursive bind mount of the one at the other out of
  them: \<^verbatim>\<open>nosuid\<close> and \<^verbatim>\<open>nodev\<close> always among the options, \<^verbatim>\<open>ro\<close> exactly when it is asked for.
\<close>

theorem parse_volume_exact:
  "parse_volume v = Inr m \<longleftrightarrow>
     (\<exists>host inside mode. v = host @ '':'' @ inside @ mode \<and> mode \<in> {[], '':rw'', '':ro''} \<and>
        has_prefix host ''/'' \<and> has_prefix inside ''/'' \<and> CHR '':'' \<notin> set host \<and> CHR '':'' \<notin> set inside \<and>
        m = mk_mount inside ''none'' host ([''rbind'', ''nosuid'', ''nodev''] @ (if mode = '':ro'' then [''ro''] else [])))"
    (is "?l = ?r")
proof
  assume ?l
  then have "length (split_on CHR '':'' v) = 2 \<or> length (split_on CHR '':'' v) = 3"
    by (auto simp: parse_volume_def Let_def split: if_splits)
  then consider (two) a b where "split_on CHR '':'' v = [a, b]" | (three) a b d where "split_on CHR '':'' v = [a, b, d]"
    by (auto simp: length_Suc_conv numeral_2_eq_2 numeral_3_eq_3)
  then show ?r
  proof cases
    case two
    then have v: "v = a @ '':'' @ b" "CHR '':'' \<notin> set a" "CHR '':'' \<notin> set b" by (simp_all add: split_on_three)
    have "has_prefix a ''/''" "has_prefix b ''/''" "m = mk_mount b ''none'' a [''rbind'', ''nosuid'', ''nodev'']"
      using \<open>?l\<close> by (auto simp: parse_volume_def two Let_def mk_mount_def split: if_splits)
    with v show ?thesis by (intro exI [of _ a] exI [of _ b] exI [of _ "[]"]) simp
  next
    case three
    then have v: "v = a @ '':'' @ b @ '':'' @ d" "CHR '':'' \<notin> set a" "CHR '':'' \<notin> set b"
      by (simp_all add: split_on_three)
    have "has_prefix a ''/''" "has_prefix b ''/''" "d = ''rw'' \<or> d = ''ro''"
      "m = mk_mount b ''none'' a ([''rbind'', ''nosuid'', ''nodev''] @ (if d = ''ro'' then [''ro''] else []))"
      using \<open>?l\<close> by (auto simp: parse_volume_def three Let_def mk_mount_def split: if_splits)
    with v show ?thesis by (intro exI [of _ a] exI [of _ b] exI [of _ "'':'' @ d"]) auto
  qed
next
  assume ?r
  then obtain host inside mode where v: "v = host @ '':'' @ inside @ mode" "mode \<in> {[], '':rw'', '':ro''}"
    "has_prefix host ''/''" "has_prefix inside ''/''" "CHR '':'' \<notin> set host" "CHR '':'' \<notin> set inside"
    and m: "m = mk_mount inside ''none'' host ([''rbind'', ''nosuid'', ''nodev''] @ (if mode = '':ro'' then [''ro''] else []))"
    by blast
  have "split_on CHR '':'' v = host # inside # (if mode = [] then [] else [drop 1 mode])"
    using v by (auto simp: split_on_append_sep split_on_no_sep)
  with v(2-4) m show ?l by (auto simp: parse_volume_def mk_mount_def)
qed

subsection \<open>The CPU limit\<close>

lemma round_quotient_le: "round_quotient n d \<le> n div d + 1"
  by (simp add: round_quotient_def Let_def)

text \<open>
  A positive number of CPUs below \<open>2 ^ (- 17)\<close>, about seven millionths, becomes a quota of zero
  microseconds, and that quota is written as \<^verbatim>\<open>max\<close>: the smallest limits are no limits.
\<close>

theorem tiny_cpus_lose_limit:
  assumes "0 < m" "m < 2 ^ 53" and "e \<le> - 70"
  shows "positive (Float False m e) \<and> cpu_quota_of oor (Float False m e) = 0 \<and>
    format_limit (cpu_quota_of oor (Float False m e)) = ''max''"
proof -
  define n where "n = m * 100000"
  define s where "s = bit_length n - 53"
  have "n < 2 ^ 70 - 2 ^ 53 * 2"
    using assms(2) by (simp add: n_def)
  have "round_quotient n (2 ^ s) * 2 ^ s \<le> n + 2 ^ s"
  proof -
    have "round_quotient n (2 ^ s) * 2 ^ s \<le> (n div 2 ^ s + 1) * 2 ^ s" by (intro mult_le_mono1 round_quotient_le)
    also have "\<dots> \<le> n + 2 ^ s" by (simp add: add_mult_distrib div_times_less_eq_dividend)
    finally show ?thesis .
  qed
  moreover have "bit_length k \<le> b" if "k < 2 ^ b" for k b
    using that
  proof (induction b arbitrary: k)
    case 0
    then show ?case by (simp add: bit_length.simps)
  next
    case (Suc b)
    then have "k div 2 < 2 ^ b" by simp
    then have "bit_length (k div 2) \<le> b" by (rule Suc.IH)
    then show ?case by (subst bit_length.simps) simp
  qed
  then have "bit_length n \<le> 70" using \<open>n < 2 ^ 70 - 2 ^ 53 * 2\<close> by simp
  then have "s \<le> 17" by (simp add: s_def)
  then have "2 ^ s \<le> (2 :: nat) ^ 17" by (intro power_increasing) simp_all
  ultimately have "round_quotient n (2 ^ s) * 2 ^ s < 2 ^ 70" using \<open>n < 2 ^ 70 - 2 ^ 53 * 2\<close> by simp
  moreover have "(2 :: nat) ^ 70 \<le> 2 ^ nat (- (e + int s)) * 2 ^ s"
  proof -
    have "70 \<le> nat (- (e + int s)) + s" using assms(3) by linarith
    then have "(2 :: nat) ^ 70 \<le> 2 ^ (nat (- (e + int s)) + s)" by (intro power_increasing) simp_all
    then show ?thesis by (simp add: power_add)
  qed
  ultimately have "round_quotient n (2 ^ s) * 2 ^ s < 2 ^ nat (- (e + int s)) * 2 ^ s" by linarith
  then have lt: "round_quotient n (2 ^ s) < 2 ^ nat (- (e + int s))" by simp
  have "e + int s < 0" using assms(3) \<open>s \<le> 17\<close> by linarith
  then have "scaled m e = 0" using lt by (simp add: scaled_def Let_def flip: n_def s_def)
  then show ?thesis using assms(1) by (simp add: positive_def cpu_quota_of_def format_limit_def)
qed

end
