(* ===== verification/Command_Safety.thy ===== *)
theory Command_Safety
  imports Commands Container_Races Flag_Safety
begin

section \<open>What the commands do\<close>

text \<open>
  Properties of the command line: signals by name, which calls \<^verbatim>\<open>prune\<close> and the other commands can make,
  how \<^verbatim>\<open>run\<close> ends, and two things that go wrong before a container operation is reached.
\<close>

interpretation host_cmd: host_part OnHost host_of HostAnswer
  by unfold_locales simp_all

interpretation shim_cmd: host_part OnShim shim_of ShimAnswer
  by unfold_locales simp_all

subsection \<open>Signals\<close>

text \<open>
  Every signal in the table is found by its name with and without \<^verbatim>\<open>SIG\<close>, in lower case too, and any
  number is itself.
\<close>

theorem parse_signal_names:
  "(\<forall>(name, sig) \<in> set signal_names. parse_signal name = Inr sig \<and> parse_signal (''SIG'' @ name) = Inr sig \<and>
      parse_signal (to_lower name) = Inr sig \<and> parse_signal (''sig'' @ to_lower name) = Inr sig) \<and>
   (- (2 ^ 63) \<le> n \<and> n < 2 ^ 63 \<longrightarrow> parse_signal (format_int n) = Inr n)"
proof -
  have "list_all (\<lambda>(name, sig). parse_signal name = Inr sig) signal_names" by code_simp
  moreover have "list_all (\<lambda>(name, sig). parse_signal (''SIG'' @ name) = Inr sig) signal_names" by code_simp
  moreover have "list_all (\<lambda>(name, sig). parse_signal (to_lower name) = Inr sig) signal_names" by code_simp
  moreover have "list_all (\<lambda>(name, sig). parse_signal (''sig'' @ to_lower name) = Inr sig) signal_names" by code_simp
  ultimately show ?thesis
    using parse_int_format [of 64 n] by (auto simp: list_all_iff parse_signal_def [of "format_int n"] atoi_def)
qed

subsection \<open>Which calls a command makes\<close>

lemma only_on_host:
  assumes "\<And>H. only P (m H)" and "\<And>d. P d \<Longrightarrow> Q (OnHost d)"
  shows "only Q (on_host W m)"
  unfolding on_host_def by (rule only_mono [OF host_cmd.only_embed [OF assms(1)]]) (auto simp: assms(2))

lemma only_observe [only_intros]: "only P (observe f)"
  by (simp add: only_def observe_def)

lemma only_case_prod [only_intros]: "(\<And>a b. x = (a, b) \<Longrightarrow> only P (f a b)) \<Longrightarrow> only P (case x of (a, b) \<Rightarrow> f a b)"
  by (cases x) simp

lemma only_case_list [only_intros]:
  "(xs = [] \<Longrightarrow> only P m) \<Longrightarrow> (\<And>y ys. xs = y # ys \<Longrightarrow> only P (f y ys)) \<Longrightarrow> only P (case xs of [] \<Rightarrow> m | y # ys \<Rightarrow> f y ys)"
  by (cases xs) simp_all

text \<open>Looking at the store, and cleaning up after a container that is gone.\<close>

fun looking :: "cmd_call \<Rightarrow> bool" where
  "looking (MakeDirs p m) \<longleftrightarrow> True"
| "looking (OnHost (StoreCall (ReadDoc p))) \<longleftrightarrow> True"
| "looking (OnHost (StoreCall (ReadDirs p))) \<longleftrightarrow> True"
| "looking (OnHost (StoreCall (ProbePid n))) \<longleftrightarrow> True"
| "looking c \<longleftrightarrow> False"

fun cleaning :: "cmd_call \<Rightarrow> bool" where
  "cleaning (MakeDirs p m) \<longleftrightarrow> True"
| "cleaning (OnHost (StoreCall d)) \<longleftrightarrow> True"
| "cleaning (OnHost (CgCall d)) \<longleftrightarrow> (\<exists>path. d = CgRemove path)"
| "cleaning (OnHost (HookCall d)) \<longleftrightarrow> True"
| "cleaning c \<longleftrightarrow> False"

fun store_looking :: "store_call \<Rightarrow> bool" where
  "store_looking (ReadDoc p) \<longleftrightarrow> True"
| "store_looking (ReadDirs p) \<longleftrightarrow> True"
| "store_looking (ProbePid n) \<longleftrightarrow> True"
| "store_looking c \<longleftrightarrow> False"

lemma only_with_store_P:
  assumes "\<And>K. only P (m K)" and "\<And>d. P d \<Longrightarrow> Q (StoreCall d)"
  shows "only Q (with_store H m)"
  unfolding with_store_def by (rule only_mono [OF store_part.only_embed [OF assms(1)]]) (auto simp: assms(2))

lemma only_with_cgroup_P:
  assumes "\<And>K. only P (m K)" and "\<And>d. P d \<Longrightarrow> Q (CgCall d)"
  shows "only Q (with_cgroup H m)"
  unfolding with_cgroup_def by (rule only_mono [OF cg_part.only_embed [OF assms(1)]]) (auto simp: assms(2))

lemma load_looking: "only store_looking (load_record K root cid)"
  unfolding load_record_def process_alive_def by (intro only_intros) simp_all

lemma load_all_looking: "only store_looking (load_all K root names)"
  by (induction names) (auto intro!: only_intros load_looking)

lemma list_looking: "only store_looking (list_records K root)"
  unfolding list_records_def
  by (intro only_intros load_all_looking | simp split: store_answer.split | intro conjI allI impI)+

lemma open_looking: "only looking (open_store W cs opts)"
  unfolding open_store_def Let_def by (intro only_intros) simp_all

lemma store_load_looking: "only looking (on_host W (\<lambda>H. with_store H (\<lambda>K. load_record K root cid)))"
proof (rule only_on_host)
  show "only (\<lambda>c. \<exists>d. c = StoreCall d \<and> store_looking d) (with_store H (\<lambda>K. load_record K root cid))" for H
    by (rule only_with_store_P [OF load_looking]) blast
  show "looking (OnHost c)" if "\<exists>d. c = StoreCall d \<and> store_looking d" for c
    using that by (auto elim: store_looking.elims)
qed

lemma store_list_looking: "only looking (on_host W (\<lambda>H. with_store H (\<lambda>K. list_records K root)))"
proof (rule only_on_host)
  show "only (\<lambda>c. \<exists>d. c = StoreCall d \<and> store_looking d) (with_store H (\<lambda>K. list_records K root))" for H
    by (rule only_with_store_P [OF list_looking]) blast
  show "looking (OnHost c)" if "\<exists>d. c = StoreCall d \<and> store_looking d" for c
    using that by (auto elim: store_looking.elims)
qed

lemma load_container_looking: "only looking (load_container W cs opts cid)"
  unfolding load_container_def load_bundle_def make_container_def
  by (intro only_intros open_looking store_load_looking)

lemma looking_cleaning: "looking c \<Longrightarrow> cleaning c"
  by (cases c rule: looking.cases) auto

lemma cleanup_only_removes: "only (\<lambda>c. \<exists>path. c = CgRemove path) (cg_cleanup K m)"
  unfolding cg_cleanup_def by (intro only_intros) auto

lemma delete_cleaning: "only cleaning (on_host W (\<lambda>H. delete_container H hs c False))"
proof (rule only_on_host)
  show "only (\<lambda>c. cleaning (OnHost c)) (delete_container H hs c False)" for H
    unfolding delete_container_def not_False_eq_True if_True
    by (intro only_intros only_with_store only_with_hooks only_with_cgroup_P [OF cleanup_only_removes] traced_intros)
      auto
qed

lemma prune_each_cleaning: "only cleaning (prune_each W cs opts dry rs)"
  by (induction rs) (auto intro!: only_intros only_mono [OF load_container_looking looking_cleaning] delete_cleaning)

lemma prune_each_dry: "only looking (prune_each W cs opts True rs)"
  by (induction rs) (auto intro!: only_intros)



subsection \<open>A container whose root file system is gone\<close>

lemma observe_run: "f (fst p) = r \<Longrightarrow> observe f p = (r, p)"
  by (simp add: observe_def)

lemma load_container_refused:
  assumes "open_store W cs opts p = (Inr (hs, mode), p1)"
    and "on_host W (\<lambda>H. with_store H (\<lambda>K. load_record K (hs_root hs) cid)) p1 = (Inr r, p2)"
    and "load_spec (cs_read cs (fst p2)) (cs_unmarshal cs) (rec_bundle r) = Inr spec"
    and "new_container (cs_cwd cs) (cs_is_dir cs (fst p2)) cid (rec_bundle r) spec mode = Inl e"
  shows "load_container W cs opts cid p = (Inl e, p2)"
  using assms by (simp add: load_container_def andthen_def attempt_def load_bundle_def make_container_def observe_def)

text \<open>
  C40. A container whose bundle still has its configuration while the root file system is gone can be
  neither killed nor deleted, with \<^verbatim>\<open>--force\<close> or without: rebuilding the handle fails, before anything
  but the store is looked at. (With the configuration gone too, both go through.)
\<close>

theorem lost_rootfs_wedges:
  assumes "open_store W cs opts p = (Inr (hs, mode), p1)"
    and "on_host W (\<lambda>H. with_store H (\<lambda>K. load_record K (hs_root hs) cid)) p1 = (Inr r, p2)"
    and "load_spec (cs_read cs (fst p2)) (cs_unmarshal cs) (rec_bundle r) = Inr spec"
    and "resolve_rootfs (cs_cwd cs) (cs_is_dir cs (fst p2)) spec (rec_bundle r) = Inl e"
    and "validate_id cid = Inr ()" and "\<not> is_flag cid"
  shows "cmd_delete W cs opts [''--force'', cid] p = (Inl e, p2) \<and> cmd_kill W cs opts [cid, ''KILL''] p = (Inl e, p2) \<and>
    (\<exists>new. snd p2 = snd p @ new \<and> list_all (looking \<circ> fst) new)"
proof -
  have "new_container (cs_cwd cs) (cs_is_dir cs (fst p2)) cid (rec_bundle r) spec mode = Inl e"
    using assms(4,5) by (simp add: new_container_def)
  then have l: "load_container W cs opts cid p = (Inl e, p2)" by (rule load_container_refused [OF assms(1-3)])
  have d: "parse_flags (switch_set [''force'', ''f'']) [''--force'', cid] False = Inr (True, [cid])"
    using assms(6) by (simp add: switch_set_def flag_parts_def set_flag_def)
  have k: "parse_flags (switch_set [''all'']) [cid, ''KILL''] False = Inr (False, [cid, ''KILL''])"
    using assms(6) by simp
  have s: "parse_signal ''KILL'' = Inr 9" by code_simp
  have "cmd_delete W cs opts [''--force'', cid] p = (Inl e, p2)"
    unfolding cmd_delete_def d by (rule run_then [OF lift_run [OF refl]]) (simp add: l andthen_def)
  moreover have "cmd_kill W cs opts [cid, ''KILL''] p = (Inl e, p2)"
    unfolding cmd_kill_def k
    by (rule run_then [OF lift_run [OF refl]]) (simp add: s lift_def andthen_def l)
  ultimately show ?thesis using only_log [OF load_container_looking l] by blast
qed

text \<open>A machine with one container, whose root file system is not there any more.\<close>

fun gone_world :: "unit commands" where
  "gone_world (OnHost (StoreCall (ReadDoc p))) k =
     (Inr (HostAnswer (StoreAnswer (Content (Doc (encode_record (stamp web_record)))))), k)"
| "gone_world c k = (Inr Performed, k)"

definition gone_setting :: "unit cmd_setting" where
  "gone_setting = \<lparr>cs_host = demo_setting, cs_euid = 0, cs_getenv = (\<lambda>_. []), cs_cwd = ''/'',
     cs_exists = (\<lambda>_ _. Inr ()), cs_is_dir = (\<lambda>_ _. Inl (Errno ENOENT)), cs_node = (\<lambda>_ _. Inl (Errno ENOENT)),
     cs_read = (\<lambda>_ _. Inr []), cs_look_path = (\<lambda>_ _. Inl (Errno ENOENT)), cs_marshal = (\<lambda>_. Inr []),
     cs_unmarshal = (\<lambda>_. Inr (bundle_spec ''/srv/app'')), cs_out_of_range = 0\<rparr>"

lemma embed_result: "fst (m (fst p, [])) = r \<Longrightarrow> fst (embed tag out into m p) = r"
  by (auto simp: embed_def split: prod.splits)

lemma gone_world_load:
  "\<exists>p2. on_host gone_world (\<lambda>H. with_store H (\<lambda>K. load_record K root ''web'')) p = (Inr (stamp web_record), p2)"
proof -
  let ?K = "sub_world StoreCall store_out (sub_world OnHost host_of gone_world)"
  have K: "?K (ReadDoc path) k = (Inr (Content (Doc (encode_record (stamp web_record)))), k)"
    "?K (ProbePid n) k = (Inr Ok, k)" for path n k
    by (simp_all add: sub_world_def)
  have "validate_id ''web'' = Inr ()" by (simp add: validate_id_def contains_any_def)
  moreover have "read_record ''web'' (Inr (Content (Doc (encode_record (stamp web_record))))) = Inr (stamp web_record)"
    by (rule read_record_encode) (rule web_ok)
  moreover have "rec_status (stamp web_record) = StatusRunning" "rec_pid (stamp web_record) = 41"
    by (simp_all add: stamp_def web_record_def)
  ultimately have "fst (load_record ?K root ''web'' (k, [])) = Inr (stamp web_record)" for k
    by (simp add: load_record_def lift_def andthen_def attempt_def syscall_def sys_def K process_alive_def ret_def)
  then have "fst (on_host gone_world (\<lambda>H. with_store H (\<lambda>K. load_record K root ''web'')) p) = Inr (stamp web_record)"
    unfolding on_host_def with_store_def by (intro embed_result)
  then show ?thesis by (metis prod.collapse)
qed

theorem lost_rootfs_wedges_witness:
  "\<exists>e. fst (cmd_delete gone_world gone_setting (no_options\<lparr>opt_root := ''/run/lightpod''\<rparr>) [''--force'', ''web''] ((), [])) = Inl e"
proof -
  obtain hs mode p1 where o: "open_store gone_world gone_setting (no_options\<lparr>opt_root := ''/run/lightpod''\<rparr>) ((), [])
      = (Inr (hs, mode), p1)"
    by (simp add: open_store_def andthen_def ret_def wrap_eff_def syscall_def sys_def no_options_def)
  obtain p2 where l: "on_host gone_world (\<lambda>H. with_store H (\<lambda>K. load_record K (hs_root hs) ''web'')) p1
      = (Inr (stamp web_record), p2)" using gone_world_load by blast
  have s: "load_spec (cs_read gone_setting (fst p2)) (cs_unmarshal gone_setting) (rec_bundle (stamp web_record))
      = Inr (bundle_spec ''/srv/app'')"
    by (simp add: load_spec_def gone_setting_def bundle_spec_def)
  have r: "\<exists>e. resolve_rootfs (cs_cwd gone_setting) (cs_is_dir gone_setting (fst p2)) (bundle_spec ''/srv/app'') b = Inl e" for b
    by (simp add: resolve_rootfs_def gone_setting_def bundle_spec_def is_abs_def)
  then obtain e where e: "resolve_rootfs (cs_cwd gone_setting) (cs_is_dir gone_setting (fst p2)) (bundle_spec ''/srv/app'')
      (rec_bundle (stamp web_record)) = Inl e" by blast
  have v: "validate_id ''web'' = Inr ()" by (simp add: validate_id_def contains_any_def)
  show ?thesis using lost_rootfs_wedges [OF o l s e v] by auto
qed

subsection \<open>The bundle is written before the id is looked at\<close>

abbreviation any_calls :: "('c, 'v, 'k, 'a) prog \<Rightarrow> bool" where
  "any_calls \<equiv> only (\<lambda>_. True)"

lemma any_embed: "any_calls (embed tag out into m)"
  by (auto simp: only_def embed_def list_all_iff split: prod.split)

lemma any_on_host: "any_calls (on_host W m)" and any_on_shim: "any_calls (on_shim W n)"
  unfolding on_host_def on_shim_def by (rule any_embed)+

lemma any_syscall: "any_calls (syscall K c)"
  by (rule only_syscall) simp

lemma any_save_bundle: "any_calls (save_bundle W cs spec b)"
  unfolding only_def
proof
  fix p
  show "\<exists>new. snd (snd (save_bundle W cs spec b p)) = snd p @ new \<and> list_all ((\<lambda>_. True) \<circ> fst) new"
    using any_syscall [of W "WriteText (join_path [b, config_file]) body 420" for body, unfolded only_def, rule_format, of _ p]
    by (auto simp: save_bundle_def save_spec_def Let_def split: sum.split prod.split) (metis snd_conv)
qed

lemma any_apply_gpu: "any_calls (apply_gpu W cs b cid spec gpu)"
  unfolding apply_gpu_def load_bundle_def Let_def by (intro only_intros any_on_shim any_save_bundle)

lemma log_extends: "any_calls m \<Longrightarrow> \<exists>rest. map fst (snd (snd (m p))) = map fst (snd p) @ rest"
  unfolding only_def by (metis map_append)

lemma any_then: "m p = (Inr x, q) \<Longrightarrow> any_calls (f x) \<Longrightarrow>
    \<exists>rest. map fst (snd (snd (andthen m f p))) = map fst (snd q) @ rest"
  using log_extends [of "f x" q] by (simp add: andthen_def)

lemma performed:
  assumes "\<exists>k'. W c (fst p) = (Inr a, k')"
  obtains q where "syscall W c p = (Inr a, q)" "map fst (snd q) = map fst (snd p) @ [c]"
  using assms by (cases p) (auto simp: syscall_def sys_def)

text \<open>
  C37. \<^verbatim>\<open>create --rootfs\<close> (\<^verbatim>\<open>run\<close> is the same up to here) writes the generated bundle into the directory its id
  names below the store before the id is validated and before it is claimed: the first three calls are
  these, whatever the id is and whatever containers there are. With the id of a running container they
  replace the configuration recorded for it, and with \<open>..\<close> in the id they write outside the store; the
  error comes after.
\<close>

theorem create_writes_before_claim:
  assumes "parse_flags create_flag_set args (no_flags, []) = Inr ((rf, pid_file), cid # command)"
    and "rf_bundle rf = []" and "rf_rootfs rf \<noteq> []" and "command \<noteq> []" and "opt_root opts = root" and "root \<noteq> []"
    and "\<And>k. apply_run_flags (cs_out_of_range cs) (cs_node cs k)
           (default_spec (abs_path (cs_cwd cs) (rf_rootfs rf)) command (detect_privilege_mode (cs_euid cs) = ModeRootless)) rf
           = Inr spec"
    and "cs_marshal cs spec = Inr body"
    and made: "\<And>path m k. \<exists>k'. W (MakeDirs path m) k = (Inr Performed, k')"
    and written: "\<And>path b m k. \<exists>k'. W (WriteText path b m) k = (Inr Performed, k')"
  shows "\<exists>rest. map fst (snd (snd (cmd_create W cs opts args p))) = map fst (snd p) @
    [MakeDirs root 448, MakeDirs (join_path [store_dir root cid, ''bundle'']) 448,
     WriteText (join_path [join_path [store_dir root cid, ''bundle''], ''config.json'']) (body @ [CHR 0x0A]) 420] @ rest"
proof -
  let ?b = "join_path [store_dir root cid, ''bundle'']" and ?hs = "(cs_host cs)\<lparr>hs_root := root\<rparr>"
  let ?mode = "detect_privilege_mode (cs_euid cs)"
  obtain p1 where p1: "syscall W (MakeDirs root 448) p = (Inr Performed, p1)" "map fst (snd p1) = map fst (snd p) @ [MakeDirs root 448]"
    using performed [of W, OF made] by blast
  obtain p2 where p2: "syscall W (MakeDirs ?b 448) p1 = (Inr Performed, p2)" "map fst (snd p2) = map fst (snd p1) @ [MakeDirs ?b 448]"
    using performed [of W, OF made] by blast
  let ?w = "WriteText (join_path [?b, ''config.json'']) (body @ [CHR 0x0A]) 420"
  obtain p3 where p3: "syscall W ?w p2 = (Inr Performed, p3)" "map fst (snd p3) = map fst (snd p2) @ [?w]"
    using performed [of W, OF written] by blast
  have o: "open_store W cs opts p = (Inr (?hs, ?mode), p1)"
    using assms(5,6) p1(1) by (simp add: open_store_def andthen_def ret_def wrap_eff_def Let_def)
  have s: "save_bundle W cs spec ?b p2 = (Inr (), p3)"
    using assms(8) p3(1) by (simp add: save_bundle_def save_spec_def config_file_def)
  have r: "resolve_bundle W cs rf command ?mode (store_dir root cid) p1 = (Inr (?b, spec), p3)"
    using assms(2-4,7) p2(1) s
    by (simp add: resolve_bundle_def run_flags_on_def observe_def andthen_def wrap_eff_def ret_def Let_def)
  have "\<exists>rest. map fst (snd (snd (cmd_create W cs opts args p))) = map fst (snd p3) @ rest"
  proof -
    let ?k = "\<lambda>(hs, c). andthen (on_host W (\<lambda>H. create_container H hs c)) (\<lambda>_.
      if pid_file = [] then ret ()
      else andthen (on_host W (\<lambda>H. container_state H hs c)) (\<lambda>st.
        andthen (wrap_eff ''writing pid file: %w'' [] (syscall W (WriteText pid_file (format_int (st_pid st)) 420))) (\<lambda>_. ret ())))"
    let ?g = "andthen (apply_gpu W cs ?b cid spec (rf_gpu rf)) (\<lambda>spec'.
      andthen (make_container cs cid ?b spec' ?mode) (\<lambda>c. ret (?hs, c\<lparr>ct_no_cgroup := (rf_cgroup rf = ''none'')\<rparr>)))"
    have k: "any_calls (?k x)" for x
      by (intro only_intros any_on_host) simp
    have g: "any_calls ?g"
      unfolding make_container_def by (intro only_intros any_apply_gpu)
    have any: "any_calls (andthen ?g ?k)" by (rule only_andthen [OF g]) (rule k)
    obtain rest where rest: "map fst (snd (snd (andthen ?g ?k p3))) = map fst (snd p3) @ rest"
      using log_extends [OF any] by blast
    have r': "resolve_bundle W cs rf command ?mode (store_dir (hs_root ?hs) cid) p1 = (Inr (?b, spec), p3)"
      using r by simp
    have "new_from_flags W cs opts rf cid command p = ?g p3"
      unfolding new_from_flags_def by (rule run_then, rule o, unfold prod.case, rule run_then, rule r', unfold prod.case, rule refl)
    then have "andthen (new_from_flags W cs opts rf cid command) ?k p = andthen ?g ?k p3"
      by (simp only: andthen_def)
    moreover have "cmd_create W cs opts args p = andthen (new_from_flags W cs opts rf cid command) ?k p"
      unfolding cmd_create_def assms(1) by (rule run_then, rule lift_run, rule refl) (simp add: assms(2,3))
    ultimately show ?thesis using rest by auto
  qed
  then show ?thesis using p1(2) p2(2) p3(2) by auto
qed

text \<open>With \<open>..\<close> as the id, the configuration lands beside the store, in \<^verbatim>\<open>/run/bundle\<close>.\<close>

lemma only_rootfs_applies:
  "\<exists>spec. \<forall>k. apply_run_flags 0 (cs_node gone_setting k) (default_spec r command rootless) (no_flags\<lparr>rf_rootfs := ''/srv/app''\<rparr>)
     = Inr spec"
proof -
  let ?rf = "no_flags\<lparr>rf_rootfs := ''/srv/app''\<rparr>"
  have rf: "rf_tty ?rf = False" "rf_env ?rf = []" "rf_workdir ?rf = []" "rf_user ?rf = []" "rf_add_caps ?rf = []"
    "rf_volumes ?rf = []" "rf_shm_size ?rf = []" "rf_ipc ?rf = []" "rf_devices ?rf = []" "rf_gpu ?rf = []" "rf_memory ?rf = []"
    by (simp_all add: no_flags_def)
  obtain pr where pr: "spec_process (basic_flags (default_spec r command rootless) ?rf) = Some pr"
    by (simp add: basic_flags_alt default_spec_def)
  have "is_ok (apply_process_flags (basic_flags (default_spec r command rootless) ?rf) ?rf)"
    using pr by (simp add: apply_process_flags_def rf set_user_def Let_def)
  moreover have "is_ok (apply_mount_flags s ?rf)" for s
    by (simp add: apply_mount_flags_def rf)
  moreover have "is_ok (apply_device_flags (\<lambda>_. Inl (Errno ENOENT)) s ?rf)" for s
    by (simp add: apply_device_flags_def rf)
  moreover have "is_ok (limit_flags 0 s ?rf)" for s
    by (simp add: limit_flags_def rf Let_def)
  ultimately have "is_ok (apply_run_flags 0 (\<lambda>_. Inl (Errno ENOENT)) (default_spec r command rootless) ?rf)"
    unfolding apply_run_flags_def Let_def rf(1) by (auto intro!: is_ok_ebind)
  then show ?thesis by (auto simp: is_ok_iff gone_setting_def)
qed

theorem create_writes_before_claim_witness:
  "\<exists>rest body. map fst (snd (snd (cmd_create gone_world gone_setting (no_options\<lparr>opt_root := ''/run/lightpod''\<rparr>)
     [''--rootfs'', ''/srv/app'', ''..'', ''sh''] ((), [])))) =
   [MakeDirs ''/run/lightpod'' 448, MakeDirs ''/run/bundle'' 448, WriteText ''/run/bundle/config.json'' body 420] @ rest"
proof -
  let ?rf = "no_flags\<lparr>rf_rootfs := ''/srv/app''\<rparr>"
  have parse: "parse_flags create_flag_set [''--rootfs'', ''/srv/app'', ''..'', ''sh''] (no_flags, []) = Inr ((?rf, []), [''..'', ''sh''])"
    by (simp add: create_flag_set_def flag_parts_def set_flag_def on_flags_def string_flag_def no_flags_def)
  have rf: "rf_bundle ?rf = []" "rf_rootfs ?rf \<noteq> []" "[''sh''] \<noteq> []" by (simp_all add: no_flags_def)
  obtain spec where spec: "\<And>k. apply_run_flags (cs_out_of_range gone_setting) (cs_node gone_setting k)
      (default_spec (abs_path (cs_cwd gone_setting) (rf_rootfs ?rf)) [''sh'']
        (detect_privilege_mode (cs_euid gone_setting) = ModeRootless)) ?rf = Inr spec"
    using only_rootfs_applies by (metis gone_setting_def cmd_setting.select_convs(12))
  have paths: "join_path [store_dir ''/run/lightpod'' ''..'', ''bundle''] = ''/run/bundle''"
    "join_path [''/run/bundle'', ''config.json''] = ''/run/bundle/config.json''"
    by code_simp+
  have m: "cs_marshal gone_setting spec = Inr []" by (simp add: gone_setting_def)
  have w: "\<exists>k'. gone_world (MakeDirs path m) k = (Inr Performed, k')" "\<exists>k'. gone_world (WriteText path b m) k = (Inr Performed, k')"
    for path b m k by simp_all
  have root: "opt_root (no_options\<lparr>opt_root := ''/run/lightpod''\<rparr>) = ''/run/lightpod''" "''/run/lightpod'' \<noteq> []" by simp_all
  from create_writes_before_claim [OF parse rf root spec m w, where p = "((), [])"] show ?thesis by (auto simp: paths)
qed

subsection \<open>Flags that are lost or refused\<close>

text \<open>
  With the toolkit's shim the spec comes back from the disk, so what the flags made of it in memory makes no
  difference; and with \<^verbatim>\<open>--bundle\<close> nothing was written to the disk before. A memory limit, a user or a volume
  given beside \<^verbatim>\<open>--gpu\<close> and \<^verbatim>\<open>--bundle\<close> is silently dropped.
\<close>

theorem gpu_discards_flags:
  "gpu \<noteq> [] \<Longrightarrow> cs_getenv cs ''LIGHTPOD_GPU_MODE'' \<noteq> ''hook'' \<Longrightarrow>
   find_nvidia_runtime (cs_getenv cs) (cs_exists cs (fst p)) (cs_look_path cs (fst p)) = Some path \<Longrightarrow>
   apply_gpu W cs b cid spec gpu p = apply_gpu W cs b cid spec' gpu p"
  by (simp add: apply_gpu_def andthen_def observe_def Let_def)

theorem given_bundle_not_written:
  "rf_bundle rf \<noteq> [] \<Longrightarrow> only (\<lambda>_. False) (resolve_bundle W cs rf command mode work_dir)"
  unfolding resolve_bundle_def load_bundle_def run_flags_on_def Let_def by (auto intro!: only_intros)

text \<open>\<^verbatim>\<open>create\<close> knows half of the flags it is documented to share with \<^verbatim>\<open>run\<close>, and refuses the others.\<close>

definition run_only_flags :: "string list" where
  "run_only_flags = [''v'', ''volume'', ''device'', ''gpu'', ''env'', ''e'', ''cap-add'', ''user'', ''workdir'',
     ''shm-size'', ''ipc'', ''tty'']"

theorem create_refuses_run_flags:
  "set run_only_flags \<subseteq> set (map fst run_flag_set) \<and>
   (\<forall>name \<in> set run_only_flags. parse_flags create_flag_set ((''--'' @ name) # args) v =
      Inl (Errorf ''flag provided but not defined: -%s'' [name]))"
  by (simp add: run_only_flags_def run_flag_set_def create_flag_set_def flag_parts_def)

text \<open>A \<^verbatim>\<open>run\<close> whose start fails stops there: it neither kills nor deletes the container it created.\<close>

theorem run_keeps_created:
  assumes "create_container H hs c p = (Inr pid, p1)" and "start_container H hs c p1 = (Inl e, p2)"
  shows "run_container H hs c p = (Inl e, p2)"
  using assms by (simp add: run_container_def andthen_def)

end
