(* ===== verification/Container_Init.thy ===== *)
theory Container_Init
  imports Container Privileges
begin

section \<open>The container side (pkg/runtime/init.go)\<close>

text \<open>
  The two stages of the init process, composed of the namespaces, the root file system, the hooks and
  the privilege drop, each on its own calls. \<^verbatim>\<open>execve\<close> does not return when it succeeds, so a program
  that ends in one and returns here has become another one: stage 1 has become stage 2, and stage 2 the
  command of the user.
\<close>

datatype init_call =
    SyncSend sync_message
  | SyncReceive
  | ReadConfig
  | ExecSelf
    \<comment> \<open>execve of /proc/self/exe as stage 2\<close>
  | SetHostname string
  | NsPart ns_call
  | FsPart fcall
  | HookPart hook_call
  | OpenStart
    \<comment> \<open>open the FIFO for writing, which blocks until start opens it for reading\<close>
  | WriteStart
  | KernelPart kcall

datatype init_answer =
    InitDone
  | Received sync_message
  | Config init_config
  | InitNs ns_answer
  | InitFs answer
  | InitHook hook_outcome
  | InitKernel int

type_synonym 'k init_world = "(init_call, init_answer, 'k) world"
type_synonym ('k, 'a) init_prog = "(init_call, init_answer, 'k, 'a) prog"

fun init_ns :: "init_answer \<Rightarrow> ns_answer" where
  "init_ns (InitNs a) = a"
| "init_ns _ = NsOk"

fun init_fs :: "init_answer \<Rightarrow> answer" where
  "init_fs (InitFs a) = a"
| "init_fs _ = answer.Done"

fun init_hook :: "init_answer \<Rightarrow> hook_outcome" where
  "init_hook (InitHook a) = a"
| "init_hook _ = HookOk"

fun init_kernel :: "init_answer \<Rightarrow> int" where
  "init_kernel (InitKernel a) = a"
| "init_kernel _ = 0"

definition on_ns :: "'k init_world \<Rightarrow> ('k ns_world \<Rightarrow> ('k, 'a) ns_prog) \<Rightarrow> ('k, 'a) init_prog" where
  "on_ns W m = embed NsPart init_ns InitNs (m (sub_world NsPart init_ns W))"

definition on_fs :: "'k init_world \<Rightarrow> ('k files \<Rightarrow> ('k, 'a) fprog) \<Rightarrow> ('k, 'a) init_prog" where
  "on_fs W m = embed FsPart init_fs InitFs (m (sub_world FsPart init_fs W))"

definition on_hooks :: "'k init_world \<Rightarrow> ('k hook_world \<Rightarrow> ('k, 'a) hook_prog) \<Rightarrow> ('k, 'a) init_prog" where
  "on_hooks W m = embed HookPart init_hook InitHook (m (sub_world HookPart init_hook W))"

definition on_kernel :: "'k init_world \<Rightarrow> ('k kernel \<Rightarrow> ('k, 'a) eff) \<Rightarrow> ('k, 'a) init_prog" where
  "on_kernel W m = embed KernelPart init_kernel InitKernel (m (sub_world KernelPart init_kernel W))"

text \<open>
  What the process knows besides: the machine, the newest capability of its kernel, its environment and
  search path, how a name is found on a path, the iteration order of the map of device links, and the
  text of an error.
\<close>

record init_setting =
  is_arch :: arch
  is_last_cap :: nat
  is_environ :: "string list"
  is_path :: string
  is_look_path :: "string \<Rightarrow> string \<Rightarrow> string result"
  is_links :: "(string \<times> string) list"
  is_error_text :: "goerr \<Rightarrow> string"

subsection \<open>The socket (sync.go)\<close>

definition sync_send :: "'k init_world \<Rightarrow> sync_type \<Rightarrow> ('k, unit) init_prog" where
  "sync_send W t =
     andthen (wrap_eff ''sending sync message %q: %w'' [sync_text t] (syscall W (SyncSend (plain t)))) (\<lambda>_. ret ())"

definition sync_await :: "'k init_world \<Rightarrow> sync_type \<Rightarrow> ('k, unit) init_prog" where
  "sync_await W t =
     andthen (wrap_eff ''waiting for %q: %w'' [sync_text t] (syscall W SyncReceive)) (\<lambda>a.
     case a of Received m \<Rightarrow> lift (await_message t m) | _ \<Rightarrow> fail (await_eof t))"

text \<open>\<^verbatim>\<open>sendError\<close> ignores whether the message went out; once the socket is closed it does not.\<close>

definition send_error :: "'k init_world \<Rightarrow> init_setting \<Rightarrow> goerr \<Rightarrow> ('k, unit) init_prog" where
  "send_error W is e =
     andthen (attempt (syscall W (SyncSend \<lparr>msg_type = SyncError, msg_text = is_error_text is e\<rparr>))) (\<lambda>_. ret ())"

text \<open>An error is sent to the host and returned.\<close>

definition telling :: "'k init_world \<Rightarrow> init_setting \<Rightarrow> ('k, unit) init_prog \<Rightarrow> ('k, unit) init_prog" where
  "telling W is m =
     andthen (attempt m) (\<lambda>r.
     case r of
       Inr _ \<Rightarrow> ret ()
     | Inl e \<Rightarrow> andthen (send_error W is e) (\<lambda>_. fail e))"

subsection \<open>The stages\<close>

definition init_stage1 :: "'k init_world \<Rightarrow> init_setting \<Rightarrow> ('k, unit) init_prog" where
  "init_stage1 W is =
     andthen (sync_send W NsReady) (\<lambda>_.
     andthen (sync_await W MapsReady) (\<lambda>_.
     telling W is (wrap_eff ''re-executing for stage 2: %w'' [] (andthen (syscall W ExecSelf) (\<lambda>_. ret ())))))"

definition exec_process :: "'k init_world \<Rightarrow> init_setting \<Rightarrow> init_config \<Rightarrow> ('k, unit) init_prog" where
  "exec_process W is cfg =
     (case spec_process (ic_spec cfg) of
        None \<Rightarrow> fail nil_dereference
      | Some pr \<Rightarrow>
          on_kernel W (\<lambda>K. exec_user_process K (is_arch is) (is_last_cap is) (is_look_path is) (is_environ is) (is_path is)
            pr (spec_linux (ic_spec cfg))))"

definition container_state_of :: "init_config \<Rightarrow> container_status \<Rightarrow> (string \<times> string) list \<Rightarrow> oci_state" where
  "container_state_of cfg status annotations =
     \<lparr>st_version = spec_version (ic_spec cfg), st_id = ic_id cfg, st_status = status, st_pid = ic_host_pid cfg,
      st_bundle = ic_bundle cfg, st_annotations = annotations\<rparr>"

text \<open>\<^verbatim>\<open>initSetup\<close> up to the last message, and from the FIFO on.\<close>

definition setup_root :: "'k init_world \<Rightarrow> init_setting \<Rightarrow> init_config \<Rightarrow> ('k, unit) init_prog" where
  "setup_root W is cfg =
     andthen (on_ns W (\<lambda>K. join_namespaces K (ic_spec cfg))) (\<lambda>_.
     andthen (if spec_hostname (ic_spec cfg) \<noteq> [] \<and> has_namespace (ic_spec cfg) UTSNamespace
              then wrap_eff ''setting hostname: %w'' [] (andthen (syscall W (SetHostname (spec_hostname (ic_spec cfg)))) (\<lambda>_. ret ()))
              else ret ()) (\<lambda>_.
     on_fs W (\<lambda>K. prepare_rootfs K (is_links is) cfg)))"

definition hand_over :: "'k init_world \<Rightarrow> init_setting \<Rightarrow> init_config \<Rightarrow> ('k, unit) init_prog" where
  "hand_over W is cfg =
     andthen (sync_send W HookPoint) (\<lambda>_.
     andthen (sync_await W HooksDone) (\<lambda>_.
     andthen (case spec_hooks (ic_spec cfg) of
                None \<Rightarrow> ret ()
              | Some hooks \<Rightarrow> on_hooks W (\<lambda>K. run_hooks K (is_environ is) (hooks_create_container hooks)
                  (container_state_of cfg StatusCreating (spec_annotations (ic_spec cfg))))) (\<lambda>_.
     andthen (on_fs W (\<lambda>K. finalize_rootfs K cfg)) (\<lambda>_.
     sync_send W ProcReady))))"

definition wait_start :: "'k init_world \<Rightarrow> init_setting \<Rightarrow> init_config \<Rightarrow> ('k, unit) init_prog" where
  "wait_start W is cfg =
     andthen (wrap_eff ''waiting on start FIFO: %w'' [] (syscall W OpenStart)) (\<lambda>_.
     andthen (wrap_eff ''signalling start FIFO: %w'' [] (syscall W WriteStart)) (\<lambda>_.
     andthen (case spec_hooks (ic_spec cfg) of
                None \<Rightarrow> ret ()
              | Some hooks \<Rightarrow> on_hooks W (\<lambda>K. run_hooks K (is_environ is) (hooks_start_container hooks)
                  (container_state_of cfg StatusCreated []))) (\<lambda>_.
     exec_process W is cfg)))"

definition init_setup :: "'k init_world \<Rightarrow> init_setting \<Rightarrow> init_config \<Rightarrow> ('k, unit) init_prog" where
  "init_setup W is cfg =
     andthen (setup_root W is cfg) (\<lambda>_.
     andthen (hand_over W is cfg) (\<lambda>_.
     wait_start W is cfg))"

definition init_stage2 :: "'k init_world \<Rightarrow> init_setting \<Rightarrow> ('k, unit) init_prog" where
  "init_stage2 W is =
     andthen (wrap_eff ''init: reading config: %w'' [] (syscall W ReadConfig)) (\<lambda>a.
     case a of
       Config cfg \<Rightarrow> telling W is (init_setup W is cfg)
     | _ \<Rightarrow> fail (Errorf ''init: reading config: %w'' []))"

end
