(* ===== verification/Init_Safety.thy ===== *)
theory Init_Safety
  imports Container_Init Scripts Host_Runs
begin

section \<open>What the container side guarantees\<close>

text \<open>
  The two stages follow the container's script of the handshake, and nothing of the privilege drop, the
  command of the user included, happens before start has opened the FIFO.
\<close>

interpretation init_ns_part: host_part NsPart init_ns InitNs
  by unfold_locales simp_all

interpretation init_fs_part: host_part FsPart init_fs InitFs
  by unfold_locales simp_all

interpretation init_hook_part: host_part HookPart init_hook InitHook
  by unfold_locales simp_all

interpretation init_kernel_part: host_part KernelPart init_kernel InitKernel
  by unfold_locales simp_all

lemma embed_any: "only (\<lambda>c. \<exists>d. c = tag d) (embed tag out into m)"
  by (auto simp: only_def embed_def list_all_iff split: prod.split)

lemma only_on_ns: "(\<And>d. P (NsPart d)) \<Longrightarrow> only P (on_ns W m)"
  unfolding on_ns_def by (rule only_mono [OF embed_any]) auto

lemma only_on_fs: "(\<And>d. P (FsPart d)) \<Longrightarrow> only P (on_fs W m)"
  unfolding on_fs_def by (rule only_mono [OF embed_any]) auto

lemma only_on_hooks: "(\<And>d. P (HookPart d)) \<Longrightarrow> only P (on_hooks W m)"
  unfolding on_hooks_def by (rule only_mono [OF embed_any]) auto

lemma only_on_kernel: "(\<And>d. P (KernelPart d)) \<Longrightarrow> only P (on_kernel W m)"
  unfolding on_kernel_def by (rule only_mono [OF embed_any]) auto

lemmas only_init_parts = only_on_ns only_on_fs only_on_hooks only_on_kernel

subsection \<open>The script\<close>

fun init_belongs :: "stage \<Rightarrow> init_call \<Rightarrow> bool" where
  "init_belongs Reexec ExecSelf \<longleftrightarrow> True"
| "init_belongs Setup (NsPart c) \<longleftrightarrow> True"
| "init_belongs Setup (SetHostname h) \<longleftrightarrow> True"
| "init_belongs Setup (FsPart c) \<longleftrightarrow> True"
| "init_belongs ContainerHooks (HookPart c) \<longleftrightarrow> True"
| "init_belongs Pivot (FsPart c) \<longleftrightarrow> True"
| "init_belongs WaitStart OpenStart \<longleftrightarrow> True"
| "init_belongs WaitStart WriteStart \<longleftrightarrow> True"
| "init_belongs WaitStart (HookPart c) \<longleftrightarrow> True"
| "init_belongs WaitStart (KernelPart c) \<longleftrightarrow> True"
| "init_belongs _ _ \<longleftrightarrow> False"

fun init_performs :: "action \<Rightarrow> (init_call \<times> (errno + init_answer)) list \<Rightarrow> bool" where
  "init_performs TakeConfig es \<longleftrightarrow> (\<exists>cfg. es = [(ReadConfig, Inr (Config cfg))])"
| "init_performs (Send t) es \<longleftrightarrow> (\<exists>a. es = [(SyncSend (plain t), Inr a)])"
| "init_performs (Await t) es \<longleftrightarrow> (\<exists>m. es = [(SyncReceive, Inr (Received m))] \<and> msg_type m = t)"
| "init_performs (Work w) es \<longleftrightarrow> list_all (init_belongs w \<circ> fst) es"
| "init_performs PutConfig es \<longleftrightarrow> False"

interpretation init_side: script_side init_belongs init_performs
  by unfold_locales simp

lemma init_sends: "init_side.does [Send t] (sync_send W t)"
  unfolding init_side.does_def
proof (intro allI impI)
  fix p x q
  assume "sync_send W t p = (Inr x, q)"
  then obtain a where 1: "syscall W (SyncSend (plain t)) p = (Inr a, q)"
    by (auto simp: sync_send_def andthen_Inr wrap_eff_Inr ret_Inr simp del: split_paired_Ex)
  then show "\<exists>segs. snd q = snd p @ concat segs \<and> list_all2 init_performs [Send t] segs"
    using syscall_Inr_log [OF 1] by (intro exI [of _ "[[(SyncSend (plain t), Inr a)]]"]) simp
qed

lemma init_awaits: "init_side.does [Await t] (sync_await W t)"
  unfolding init_side.does_def
proof (intro allI impI)
  fix p x q
  assume run: "sync_await W t p = (Inr x, q)"
  then obtain a p1 where 1: "syscall W SyncReceive p = (Inr a, p1)"
    and 2: "(case a of Received m \<Rightarrow> lift (await_message t m) | _ \<Rightarrow> fail (await_eof t)) p1 = (Inr x, q)"
    by (auto simp: sync_await_def andthen_Inr wrap_eff_Inr simp del: split_paired_Ex)
  then obtain m where "a = Received m" "await_message t m = Inr x" "q = p1"
    by (cases a) (auto simp: fail_def lift_Inr)
  moreover have "msg_type m = t" using calculation(2) by (auto simp: await_message_def split: if_splits)
  ultimately show "\<exists>segs. snd q = snd p @ concat segs \<and> list_all2 init_performs [Await t] segs"
    using syscall_Inr_log [OF 1] by (intro exI [of _ "[[(SyncReceive, Inr (Received m))]]"]) simp
qed

text \<open>A step that reports its error makes, when it succeeds, its own calls only.\<close>

lemma telling_Inr: "telling W is m p = (Inr u, q) \<longleftrightarrow> m p = (Inr (), q)"
proof -
  obtain r p1 where m: "m p = (r, p1)" by (meson surj_pair)
  show ?thesis
  proof (cases r)
    case (Inl e)
    then show ?thesis using m by (auto simp: telling_def andthen_Inr attempt_Inr fail_Inr simp del: split_paired_Ex)
  next
    case (Inr v)
    then show ?thesis using m by (auto simp: telling_def andthen_def attempt_def ret_def)
  qed
qed

lemma telling_does: "init_side.does as m \<Longrightarrow> init_side.does as (telling W is m)"
  unfolding init_side.does_def telling_Inr by blast

lemma setup_does:
  "init_side.does [Work Setup, Send HookPoint, Await HooksDone, Work ContainerHooks, Work Pivot, Send ProcReady, Work WaitStart]
     (init_setup W is cfg)"
proof -
  have a: "init_side.does [Work Setup] (setup_root W is cfg)"
    unfolding setup_root_def by (rule init_side.does_work) (intro only_intros only_init_parts | simp)+
  have h: "init_side.does [Work ContainerHooks] (case spec_hooks (ic_spec cfg) of None \<Rightarrow> ret ()
      | Some hooks \<Rightarrow> on_hooks W (\<lambda>K. run_hooks K (is_environ is) (hooks_create_container hooks)
          (container_state_of cfg StatusCreating (spec_annotations (ic_spec cfg)))))"
    by (rule init_side.does_work) (intro only_intros only_init_parts | simp)+
  have f: "init_side.does [Work Pivot] (on_fs W (\<lambda>K. finalize_rootfs K cfg))"
    by (rule init_side.does_work) (intro only_init_parts, simp)
  have b: "init_side.does [Send HookPoint, Await HooksDone, Work ContainerHooks, Work Pivot, Send ProcReady] (hand_over W is cfg)"
    unfolding hand_over_def
    by (rule init_side.does_step [OF init_sends], rule init_side.does_step [OF init_awaits],
        rule init_side.does_step [OF h], rule init_side.does_step [OF f], rule init_sends)
  have c: "init_side.does [Work WaitStart] (wait_start W is cfg)"
    unfolding wait_start_def exec_process_def
    by (rule init_side.does_work) (intro only_intros only_init_parts | simp)+
  have "init_side.does ([Work Setup] @ [Send HookPoint, Await HooksDone, Work ContainerHooks, Work Pivot, Send ProcReady] @
      [Work WaitStart]) (init_setup W is cfg)"
    unfolding init_setup_def by (rule init_side.does_both [OF a], rule init_side.does_both [OF b], rule c)
  then show ?thesis by simp
qed

lemma stage1_does: "init_side.does [Send NsReady, Await MapsReady, Work Reexec] (init_stage1 W is)"
proof -
  have "init_side.does [Work Reexec]
      (telling W is (wrap_eff ''re-executing for stage 2: %w'' [] (andthen (syscall W ExecSelf) (\<lambda>_. ret ()))))"
    by (rule telling_does, rule init_side.does_work) (intro only_intros, simp)
  then show ?thesis
    unfolding init_stage1_def by (intro init_side.does_step [OF init_sends] init_side.does_step [OF init_awaits])
qed

lemma stage2_does:
  "init_side.does (TakeConfig # [Work Setup, Send HookPoint, Await HooksDone, Work ContainerHooks, Work Pivot, Send ProcReady,
     Work WaitStart]) (init_stage2 W is)"
  unfolding init_side.does_def
proof (intro allI impI)
  fix p x q
  assume "init_stage2 W is p = (Inr x, q)"
  then obtain a p1 where 1: "syscall W ReadConfig p = (Inr a, p1)"
    and 2: "(case a of Config cfg \<Rightarrow> telling W is (init_setup W is cfg)
      | _ \<Rightarrow> fail (Errorf ''init: reading config: %w'' [])) p1 = (Inr x, q)"
    by (auto simp: init_stage2_def andthen_Inr wrap_eff_Inr simp del: split_paired_Ex)
  then obtain cfg where a: "a = Config cfg" and "init_setup W is cfg p1 = (Inr (), q)"
    by (cases a) (auto simp: fail_def telling_Inr)
  then obtain segs where "snd q = snd p1 @ concat segs" "list_all2 init_performs
      [Work Setup, Send HookPoint, Await HooksDone, Work ContainerHooks, Work Pivot, Send ProcReady, Work WaitStart] segs"
    using init_side.does_run [OF setup_does] by metis
  then show "\<exists>segs. snd q = snd p @ concat segs \<and> list_all2 init_performs (TakeConfig # [Work Setup, Send HookPoint,
      Await HooksDone, Work ContainerHooks, Work Pivot, Send ProcReady, Work WaitStart]) segs"
    using syscall_Inr_log [OF 1] a by (intro exI [of _ "[(ReadConfig, Inr (Config cfg))] # segs"]) simp
qed


subsection \<open>Nothing before start\<close>

definition started :: "(init_call \<times> (errno + init_answer)) list \<Rightarrow> bool" where
  "started es \<longleftrightarrow> (\<exists>a. (OpenStart, Inr a) \<in> set es) \<and> (\<exists>b. (WriteStart, Inr b) \<in> set es)"

definition guarded :: "('k, 'a) init_prog \<Rightarrow> bool" where
  "guarded m \<longleftrightarrow> (\<forall>p. \<exists>new. snd (snd (m p)) = snd p @ new \<and>
     (\<forall>pre c x post. new = pre @ (KernelPart c, x) # post \<longrightarrow> started pre))"

abbreviation no_kernel :: "init_call \<Rightarrow> bool" where
  "no_kernel c \<equiv> \<forall>k. c \<noteq> KernelPart k"

lemma guarded_only: "only no_kernel m \<Longrightarrow> guarded m"
  unfolding guarded_def only_def by (fastforce simp: list_all_iff)

lemma started_more: "started es \<Longrightarrow> started (es' @ es)"
  by (auto simp: started_def)

lemma guarded_andthen:
  assumes "guarded m" and f: "\<And>x. guarded (f x)"
  shows "guarded (andthen m f)"
  unfolding guarded_def
proof
  fix p
  obtain r p1 where m: "m p = (r, p1)" by (meson surj_pair)
  obtain n1 where n1: "snd p1 = snd p @ n1" "\<And>pre c x post. n1 = pre @ (KernelPart c, x) # post \<Longrightarrow> started pre"
    using assms(1) m unfolding guarded_def by (metis snd_conv)
  show "\<exists>new. snd (snd (andthen m f p)) = snd p @ new \<and> (\<forall>pre c x post. new = pre @ (KernelPart c, x) # post \<longrightarrow> started pre)"
  proof (cases r)
    case (Inl e)
    then show ?thesis using m n1 by (auto simp: andthen_def)
  next
    case (Inr y)
    obtain n2 where n2: "snd (snd (f y p1)) = snd p1 @ n2" "\<And>pre c x post. n2 = pre @ (KernelPart c, x) # post \<Longrightarrow> started pre"
      using f [of y] unfolding guarded_def by blast
    have "started pre" if "n1 @ n2 = pre @ (KernelPart c, x) # post" for pre c x post
    proof -
      consider us where "n1 = pre @ us" "us @ n2 = (KernelPart c, x) # post" | us where "pre = n1 @ us" "n2 = us @ (KernelPart c, x) # post"
        using \<open>n1 @ n2 = pre @ (KernelPart c, x) # post\<close> by (auto simp: append_eq_append_conv2)
      then show ?thesis
      proof cases
        case 1
        then show ?thesis using n1(2) n2(2) [of "[]"] by (cases us) (auto simp: started_def)
      next
        case 2
        then show ?thesis using n2(2) started_more by simp
      qed
    qed
    then show ?thesis using m Inr n1(1) n2(1) by (intro exI [of _ "n1 @ n2"]) (simp add: andthen_def)
  qed
qed

lemma embed_log: "\<exists>new. snd (snd (embed tag out into m p)) = snd p @ new"
  by (auto simp: embed_def split: prod.split)

lemma guarded_wait: "guarded (wait_start W is cfg)"
  unfolding guarded_def
proof
  fix p
  let ?rest = "\<lambda>_. andthen (case spec_hooks (ic_spec cfg) of None \<Rightarrow> ret ()
      | Some hooks \<Rightarrow> on_hooks W (\<lambda>K. run_hooks K (is_environ is) (hooks_start_container hooks)
          (container_state_of cfg StatusCreated []))) (\<lambda>_. exec_process W is cfg)"
  have any: "only (\<lambda>_. True) (?rest u)" for u :: init_answer
    unfolding exec_process_def by (intro only_intros only_init_parts) simp_all
  obtain r p1 where 1: "syscall W OpenStart p = (r, p1)" by (meson surj_pair)
  obtain r' p2 where 2: "syscall W WriteStart p1 = (r', p2)" by (meson surj_pair)
  obtain r'' q where 3: "?rest InitDone p2 = (r'', q)" by (meson surj_pair)
  obtain n where n: "snd q = snd p2 @ n" using only_log [OF any 3] by blast
  have run: "snd (snd (wait_start W is cfg p)) =
      (case r of Inl _ \<Rightarrow> snd p1 | Inr _ \<Rightarrow> (case r' of Inl _ \<Rightarrow> snd p2 | Inr _ \<Rightarrow> snd q))"
    using 1 2 3 by (simp add: wait_start_def andthen_def wrap_eff_def ewrap_def split: sum.split)
  show "\<exists>new. snd (snd (wait_start W is cfg p)) = snd p @ new \<and> (\<forall>pre c x post. new = pre @ (KernelPart c, x) # post \<longrightarrow> started pre)"
  proof (cases "(\<exists>a. r = Inr a) \<and> (\<exists>b. r' = Inr b)")
    case True
    then obtain a b where ab: "r = Inr a" "r' = Inr b" by blast
    have "snd q = snd p @ (OpenStart, Inr a) # (WriteStart, Inr b) # n"
      using syscall_Inr_log [OF 1 [unfolded ab]] syscall_Inr_log [OF 2 [unfolded ab]] n by simp
    moreover have "started pre" if "(OpenStart, Inr a) # (WriteStart, Inr b) # n = pre @ (KernelPart c, x) # post" for pre c x post
      using that by (auto simp: started_def Cons_eq_append_conv)
    ultimately show ?thesis using run ab by auto
  next
    case False
    then show ?thesis using run syscall_log [OF 1] syscall_log [OF 2]
      by (auto simp: Cons_eq_append_conv append_eq_Cons_conv split: sum.splits)
  qed
qed

lemma guarded_telling: "guarded m \<Longrightarrow> guarded (telling W is m)"
proof -
  assume m: "guarded m"
  have "guarded (attempt m)"
    using m by (simp add: guarded_def attempt_def case_prod_beta)
  moreover have "guarded (case r of Inr _ \<Rightarrow> ret () | Inl e \<Rightarrow> andthen (send_error W is e) (\<lambda>_. fail e))" for r :: "unit result"
    unfolding send_error_def by (rule guarded_only) (intro only_intros, simp)
  ultimately show ?thesis unfolding telling_def by (rule guarded_andthen)
qed

lemma guarded_setup: "guarded (init_setup W is cfg)"
proof -
  have "guarded (setup_root W is cfg)"
    unfolding setup_root_def by (rule guarded_only) (intro only_intros only_init_parts | simp)+
  moreover have "only no_kernel (sync_await W t)" for t
  proof -
    have "only no_kernel (case a of Received m \<Rightarrow> lift (await_message t m) | _ \<Rightarrow> fail (await_eof t))" for a
      by (cases a) (auto intro!: only_intros)
    then show ?thesis unfolding sync_await_def by (intro only_intros) simp_all
  qed
  then have "guarded (hand_over W is cfg)"
    unfolding hand_over_def sync_send_def by (intro guarded_only only_intros only_init_parts) simp_all
  ultimately show ?thesis unfolding init_setup_def by (intro guarded_andthen guarded_wait)
qed

lemma guarded_stage2: "guarded (init_stage2 W is)"
proof -
  have "guarded (case a of Config cfg \<Rightarrow> telling W is (init_setup W is cfg) | _ \<Rightarrow> fail (Errorf ''init: reading config: %w'' []))" for a
    by (cases a) (simp_all add: guarded_telling guarded_setup guarded_only only_fail)
  moreover have "guarded (wrap_eff ''init: reading config: %w'' [] (syscall W ReadConfig))"
    by (rule guarded_only) (intro only_intros, simp)
  ultimately show ?thesis unfolding init_stage2_def by (intro guarded_andthen)
qed

text \<open>
  C11. Whatever the system answers, no call of the privilege drop is made, and the command of the user is not
  executed, before the FIFO has been opened by both ends and the byte for start has been written: a created
  container stays what it is until start.
\<close>

theorem nothing_before_start:
  assumes "init_stage2 W is p = (r, q)" and "snd q = snd p @ pre @ (KernelPart c, x) # post"
  shows "\<exists>a b. (OpenStart, Inr a) \<in> set pre \<and> (WriteStart, Inr b) \<in> set pre"
proof -
  obtain new where new: "snd q = snd p @ new" "\<And>pre c x post. new = pre @ (KernelPart c, x) # post \<Longrightarrow> started pre"
    using guarded_stage2 assms(1) unfolding guarded_def by (metis snd_conv)
  have "new = pre @ (KernelPart c, x) # post" using new(1) assms(2) by simp
  then have "started pre" by (rule new(2))
  then show ?thesis by (auto simp: started_def)
qed

subsection \<open>A run to the end\<close>

definition shell :: process where
  "shell = \<lparr>proc_terminal = False, proc_console_size = None,
     proc_user = \<lparr>user_uid = 0, user_gid = 0, user_umask = None, user_additional_gids = [], user_username = []\<rparr>,
     proc_args = [''sh''], proc_command_line = [], proc_env = Some [], proc_cwd = ''/'', proc_capabilities = None,
     proc_rlimits = [], proc_no_new_privileges = True, proc_apparmor_profile = [], proc_oom_score_adj = None,
     proc_selinux_label = []\<rparr>"

definition shell_config :: init_config where
  "shell_config = \<lparr>ic_spec = (bundle_spec ''/r'')\<lparr>spec_process := Some shell, spec_hostname := ''h''\<rparr>, ic_rootfs = ''/r'',
     ic_id = ''web'', ic_bundle = ''/b'', ic_mode = ModeRootfull, ic_host_pid = 41\<rparr>"

definition init_env :: init_setting where
  "init_env = \<lparr>is_arch = arch_example, is_last_cap = 2, is_environ = [], is_path = [], is_look_path = (\<lambda>_ _. Inr ''/bin/sh''),
     is_links = [], is_error_text = (\<lambda>_. [])\<rparr>"

fun init_machine :: "nat init_world" where
  "init_machine SyncReceive k = (Inr (Received (plain (if k = 0 then MapsReady else HooksDone))), Suc k)"
| "init_machine ReadConfig k = (Inr (Config shell_config), k)"
| "init_machine (FsPart (Lstat path)) k = (Inr (InitFs (Kind Directory)), k)"
| "init_machine (FsPart c) k = (Inr (InitFs answer.Done), k)"
| "init_machine (KernelPart c) k = (Inr (InitKernel 0), k)"
| "init_machine c k = (Inr InitDone, k)"

text \<open>The parts of the run, whatever was logged before.\<close>

lemma machine_sets_up: "fst (setup_root init_machine init_env shell_config (1, l)) = Inr ()"
  by code_simp

lemma machine_sets_up_state: "fst (snd (setup_root init_machine init_env shell_config (1, l))) = 1"
  by code_simp

lemma machine_hands_over: "fst (hand_over init_machine init_env shell_config (1, l)) = Inr ()"
  by code_simp

lemma machine_hands_over_state: "fst (snd (hand_over init_machine init_env shell_config (1, l))) = 2"
  by code_simp

lemma machine_starts: "fst (wait_start init_machine init_env shell_config (2, l)) = Inr ()"
  by code_simp

lemma machine_executes:
  "list_ex (\<lambda>e. case fst e of KernelPart c \<Rightarrow> True | _ \<Rightarrow> False) (snd (snd (wait_start init_machine init_env shell_config (2, l))))"
  by (code_simp, simp)

lemma machine_stage1: "fst (init_stage1 init_machine init_env (0, l)) = Inr ()"
  by code_simp

lemma machine_stage1_state: "fst (snd (init_stage1 init_machine init_env (0, l))) = 1"
  by code_simp

lemma machine_stage2:
  "\<exists>k l'. init_stage2 init_machine init_env (1, l) = (Inr (), (k, l')) \<and> (\<exists>c x. (KernelPart c, x) \<in> set l')"
proof -
  let ?l0 = "l @ [(ReadConfig, Inr (Config shell_config))]"
  obtain l1 where 1: "setup_root init_machine init_env shell_config (1, ?l0) = (Inr (), (1, l1))"
    using machine_sets_up [of ?l0] machine_sets_up_state [of ?l0] by (metis prod.collapse)
  obtain l2 where 2: "hand_over init_machine init_env shell_config (1, l1) = (Inr (), (2, l2))"
    using machine_hands_over [of l1] machine_hands_over_state [of l1] by (metis prod.collapse)
  obtain k l3 where 3: "wait_start init_machine init_env shell_config (2, l2) = (Inr (), (k, l3))"
    using machine_starts [of l2] by (metis prod.collapse)
  have x: "\<exists>c x. (KernelPart c, x) \<in> set l3"
  proof -
    obtain e where e: "e \<in> set l3" "case fst e of KernelPart c \<Rightarrow> True | _ \<Rightarrow> False"
      using machine_executes [of l2] unfolding 3 snd_conv list_ex_iff by blast
    then obtain c where "fst e = KernelPart c" by (cases "fst e") simp_all
    then show ?thesis using e(1) by (metis prod.collapse)
  qed
  have "init_setup init_machine init_env shell_config (1, ?l0) = (Inr (), (k, l3))"
    unfolding init_setup_def by (rule run_then, rule 1, rule run_then, rule 2, rule 3)
  then have "init_stage2 init_machine init_env (1, l) = (Inr (), (k, l3))"
    by (simp add: init_stage2_def andthen_def wrap_eff_def syscall_def sys_def telling_Inr)
  then show ?thesis using x by blast
qed


theorem nothing_before_start_witness:
  "\<exists>pre a b. (OpenStart, Inr a) \<in> set pre \<and> (WriteStart, Inr b) \<in> set pre \<and>
     prefix pre (snd (snd (init_stage2 init_machine init_env (1, []))))"
proof -
  obtain k l c x where run: "init_stage2 init_machine init_env (1, []) = (Inr (), (k, l))" and "(KernelPart c, x) \<in> set l"
    using machine_stage2 [of "[]"] by blast
  then obtain pre post where "l = pre @ (KernelPart c, x) # post" by (meson split_list)
  then show ?thesis using nothing_before_start [OF run, of pre c x post] run by (auto simp: prefix_def)
qed

end
