(* ===== verification/Signal_Relay.thy ===== *)
theory Signal_Relay
  imports Go_Prelude
begin

section \<open>Relaying signals to a foreground container (pkg/runtime/tty.go)\<close>

text \<open>
  While \<^verbatim>\<open>Run\<close> waits for its container, a goroutine passes the signals of the operator on. It shares a
  channel with the runtime, which drops a signal that finds the channel full, and a second one with
  \<^verbatim>\<open>Run\<close>, which closes it to stop the relay. When both are ready \<^verbatim>\<open>select\<close> takes either, so the steps
  below are a relation.
\<close>

definition forwarded_signals :: "int list" where
  "forwarded_signals = [15, 2, 3, 1, 10, 12, 28]"

text \<open>The capacity of the channel, and the state: what is in it, whether the runtime still sends to it,
  whether \<^verbatim>\<open>done\<close> is closed, and whether the goroutine has returned.\<close>

definition channel_size :: nat where
  "channel_size = 8"

record relay =
  rl_waiting :: "int list"
  rl_notified :: bool
  rl_stopped :: bool
  rl_returned :: bool

definition forward_signals :: relay where
  "forward_signals = \<lparr>rl_waiting = [], rl_notified = True, rl_stopped = False, rl_returned = False\<rparr>"

datatype relay_event =
    Arrives int
  | Dropped int
  | Relayed int
    \<comment> \<open>\<^verbatim>\<open>proc.Signal\<close>, whose error is ignored\<close>
  | StopNotify
  | CloseDone
  | Returns

inductive relay_step :: "relay \<Rightarrow> relay_event \<Rightarrow> relay \<Rightarrow> bool" where
  arrives: "rl_notified r \<Longrightarrow> s \<in> set forwarded_signals \<Longrightarrow> length (rl_waiting r) < channel_size \<Longrightarrow>
    relay_step r (Arrives s) (r\<lparr>rl_waiting := rl_waiting r @ [s]\<rparr>)"
| dropped: "rl_notified r \<Longrightarrow> s \<in> set forwarded_signals \<Longrightarrow> \<not> length (rl_waiting r) < channel_size \<Longrightarrow>
    relay_step r (Dropped s) r"
| relayed: "\<not> rl_returned r \<Longrightarrow> rl_waiting r = s # rest \<Longrightarrow>
    relay_step r (Relayed s) (r\<lparr>rl_waiting := rest\<rparr>)"
| stop_notify: "rl_notified r \<Longrightarrow> relay_step r StopNotify (r\<lparr>rl_notified := False\<rparr>)"
| close_done: "\<not> rl_notified r \<Longrightarrow> \<not> rl_stopped r \<Longrightarrow> relay_step r CloseDone (r\<lparr>rl_stopped := True\<rparr>)"
| returns: "rl_stopped r \<Longrightarrow> \<not> rl_returned r \<Longrightarrow> relay_step r Returns (r\<lparr>rl_returned := True\<rparr>)"

inductive_cases relay_stepE: "relay_step r e r'"

inductive relay_run :: "relay \<Rightarrow> relay_event list \<Rightarrow> relay \<Rightarrow> bool" where
  at_start: "relay_run r [] r"
| one_more: "relay_run r es r1 \<Longrightarrow> relay_step r1 e r2 \<Longrightarrow> relay_run r (es @ [e]) r2"

inductive_cases relay_runE: "relay_run r es r'"

code_pred relay_step .

text \<open>The signals that came into the channel, that were passed on, and that were lost.\<close>

fun arrived :: "relay_event list \<Rightarrow> int list" where
  "arrived [] = []"
| "arrived (Arrives s # es) = s # arrived es"
| "arrived (e # es) = arrived es"

fun passed_on :: "relay_event list \<Rightarrow> int list" where
  "passed_on [] = []"
| "passed_on (Relayed s # es) = s # passed_on es"
| "passed_on (e # es) = passed_on es"

lemma arrived_append [simp]: "arrived (es @ fs) = arrived es @ arrived fs"
  by (induction es rule: arrived.induct) simp_all

lemma passed_on_append [simp]: "passed_on (es @ fs) = passed_on es @ passed_on fs"
  by (induction es rule: passed_on.induct) simp_all

definition relay_ok :: "relay_event list \<Rightarrow> relay \<Rightarrow> bool" where
  "relay_ok es r \<longleftrightarrow> arrived es = passed_on es @ rl_waiting r \<and> set (arrived es) \<subseteq> set forwarded_signals \<and>
     length (rl_waiting r) \<le> channel_size \<and> (rl_stopped r \<longrightarrow> \<not> rl_notified r)"

lemma relay_step_ok: "relay_step r e r' \<Longrightarrow> relay_ok es r \<Longrightarrow> relay_ok (es @ [e]) r'"
  by (erule relay_stepE) (auto simp: relay_ok_def)

lemma relay_run_ok: "relay_run r es r' \<Longrightarrow> relay_ok [] r \<Longrightarrow> relay_ok es r'"
  by (induction rule: relay_run.induct) (auto intro: relay_step_ok)

lemma relay_ok_start: "relay_ok [] forward_signals"
  by (simp add: relay_ok_def forward_signals_def)

text \<open>
  What is still to happen: after the runtime has been told to stop, every step lowers this, and the
  goroutine can always take one until it has returned.
\<close>

definition relay_left :: "relay \<Rightarrow> nat" where
  "relay_left r = length (rl_waiting r) + (if rl_stopped r then 0 else 1) + (if rl_returned r then 0 else 1)"

lemma relay_stopping:
  assumes "relay_run r es r'" and "\<not> rl_notified r"
  shows "\<not> rl_notified r' \<and> (rl_stopped r \<longrightarrow> rl_stopped r') \<and> arrived es = [] \<and>
    rl_waiting r = passed_on es @ rl_waiting r' \<and> relay_left r' + length es \<le> relay_left r"
  using assms
proof (induction rule: relay_run.induct)
  case (one_more r es r1 e r2)
  then show ?case by (auto simp: relay_left_def elim!: relay_stepE)
qed simp

text \<open>
  C38. The container is sent only signals on the list that were sent to lightpod, in the order they came and
  none twice, and none is lost that found room in the channel while the relay runs. Once the relay
  has been stopped no more come in, at most nine more steps are taken whatever is chosen when, and the
  goroutine can return until it has.
\<close>

theorem relay_faithful:
  assumes run: "relay_run forward_signals es r" and stop: "rl_stopped r" and more: "relay_run r fs r'"
  shows "arrived es = passed_on es @ rl_waiting r \<and> set (arrived es) \<subseteq> set forwarded_signals \<and>
    arrived fs = [] \<and> rl_waiting r = passed_on fs @ rl_waiting r' \<and> length fs \<le> channel_size + 1 \<and>
    (rl_returned r' \<or> (\<exists>q. relay_step r' Returns q \<and> rl_returned q))"
proof -
  have ok: "relay_ok es r" using relay_run_ok [OF run relay_ok_start] .
  then have quiet: "\<not> rl_notified r" using stop by (simp add: relay_ok_def)
  note s = relay_stopping [OF more quiet]
  have "relay_left r \<le> channel_size + 1" using ok stop by (simp add: relay_ok_def relay_left_def)
  then have "length fs \<le> channel_size + 1" using s by simp
  moreover have "rl_returned r' \<or> (\<exists>q. relay_step r' Returns q \<and> rl_returned q)"
    using s stop returns [of r'] by (cases "rl_returned r'") (auto intro: exI [of _ "r'\<lparr>rl_returned := True\<rparr>"])
  ultimately show ?thesis using ok s unfolding relay_ok_def by blast
qed

text \<open>A run in which a signal is still in the channel when the relay is stopped.\<close>

lemma relay_example:
  "relay_run forward_signals [Arrives 15, Arrives 2, Relayed 15, StopNotify, CloseDone]
     \<lparr>rl_waiting = [2], rl_notified = False, rl_stopped = True, rl_returned = False\<rparr>"
proof -
  let ?r = "\<lambda>ws n d. \<lparr>rl_waiting = ws, rl_notified = n, rl_stopped = d, rl_returned = False\<rparr>"
  have "relay_step forward_signals (Arrives 15) (?r [15] True False)"
    "relay_step (?r [15] True False) (Arrives 2) (?r [15, 2] True False)"
    using arrives [of forward_signals 15] arrives [of "?r [15] True False" 2]
    by (simp_all add: forward_signals_def forwarded_signals_def channel_size_def)
  moreover have "relay_step (?r [15, 2] True False) (Relayed 15) (?r [2] True False)"
    "relay_step (?r [2] True False) StopNotify (?r [2] False False)"
    "relay_step (?r [2] False False) CloseDone (?r [2] False True)"
    using relayed [of "?r [15, 2] True False"] stop_notify [of "?r [2] True False"] close_done [of "?r [2] False False"]
    by simp_all
  ultimately have "relay_run forward_signals ([] @ [Arrives 15] @ [Arrives 2] @ [Relayed 15] @ [StopNotify] @ [CloseDone])
      (?r [2] False True)"
    unfolding append_assoc [symmetric] by (meson relay_run.intros)
  then show ?thesis by simp
qed

lemma relay_example_end:
  "relay_run \<lparr>rl_waiting = [2], rl_notified = False, rl_stopped = True, rl_returned = False\<rparr> [Relayed 2, Returns]
     \<lparr>rl_waiting = [], rl_notified = False, rl_stopped = True, rl_returned = True\<rparr>"
proof -
  let ?r = "\<lambda>ws b. \<lparr>rl_waiting = ws, rl_notified = False, rl_stopped = True, rl_returned = b\<rparr>"
  have "relay_step (?r [2] False) (Relayed 2) (?r [] False)" "relay_step (?r [] False) Returns (?r [] True)"
    using relayed [of "?r [2] False"] returns [of "?r [] False"] by simp_all
  then have "relay_run (?r [2] False) (([] @ [Relayed 2]) @ [Returns]) (?r [] True)" by (meson relay_run.intros)
  then show ?thesis by simp
qed

theorem relay_faithful_witness:
  "arrived [Arrives 15, Arrives 2, Relayed 15, StopNotify, CloseDone] =
     passed_on [Arrives 15, Arrives 2, Relayed 15, StopNotify, CloseDone] @ [2] \<and>
   length [Relayed 2, Returns] \<le> channel_size + 1"
  using relay_faithful [OF relay_example _ relay_example_end] by simp

end
