(* ===== verification/Capability_Queries.thy ===== *)
theory Capability_Queries
  imports Privilege_Drop
begin

section \<open>Reading the capabilities back (CurrentBounding and CurrentEffective in capabilities.go)\<close>

text \<open>
  The two queries the tests ask a confined process with, and what they answer after the policy of a
  container has been applied: the names of the policy and of nothing else.
\<close>

fun read_bounding :: "'k kernel \<Rightarrow> nat list \<Rightarrow> cap_set \<Rightarrow> ('k, cap_set) eff" where
  "read_bounding K [] s = ret s"
| "read_bounding K (b # bs) s = (\<lambda>p.
     case sys K (Prctl prCapBSetRead b 0) p of
       (Inl n, p') \<Rightarrow>
         if n = EINVAL then read_bounding K bs s p'
         else (Inl (Wrapf ''reading bounding capability %d: %w'' [format_nat b] (Errno n)), p')
     | (Inr held, p') \<Rightarrow> read_bounding K bs (if held = 1 then cap_add s b else s) p')"

definition current_bounding :: "'k kernel \<Rightarrow> nat \<Rightarrow> ('k, cap_set) eff" where
  "current_bounding K lc = read_bounding K [0..<Suc lc] 0"

text \<open>The argument is what capget(2) answers: the data of the low and of the high word.\<close>

definition current_effective ::
  "((uint32 \<times> uint32 \<times> uint32) \<times> (uint32 \<times> uint32 \<times> uint32)) result \<Rightarrow> cap_set result" where
  "current_effective answer =
     ebind (ewrap ''capget: %w'' [] answer) (\<lambda>((low, _, _), (high, _, _)). Inr (cap_join low high))"

lemma read_bounding_rules:
  assumes "follows_cred_rules lc K view"
  shows "\<forall>b \<in> set bs. b < 64 \<Longrightarrow> \<exists>m q. read_bounding K bs s p = (Inr m, q) \<and> creds view q = creds view p \<and>
    (\<forall>b. cap_has m b \<longleftrightarrow> cap_has s b \<or> b \<in> set bs \<and> b \<le> lc \<and> b \<in> cr_bset (creds view p))"
proof (induction bs arbitrary: s p)
  case Nil
  show ?case by (simp add: ret_def)
next
  case (Cons b bs)
  obtain r p1 where sys: "sys K (Prctl prCapBSetRead b 0) p = (r, p1)" by (meson surj_pair)
  have r: "r = (if lc < b then Inl EINVAL else Inr (if b \<in> cr_bset (creds view p) then 1 else 0))"
    and p1: "creds view p1 = creds view p"
    using sys_creds [OF assms, of "Prctl prCapBSetRead b 0" p] sys by (simp_all add: pr_defs)
  let ?s = "if b \<le> lc \<and> b \<in> cr_bset (creds view p) then cap_add s b else s"
  have step: "read_bounding K (b # bs) s p = read_bounding K bs ?s p1"
    using sys r by auto
  obtain m q where m: "read_bounding K bs ?s p1 = (Inr m, q)" "creds view q = creds view p1"
    "\<forall>c. cap_has m c \<longleftrightarrow> cap_has ?s c \<or> c \<in> set bs \<and> c \<le> lc \<and> c \<in> cr_bset (creds view p1)"
    using Cons.IH [of ?s p1] Cons.prems by auto
  show ?case using m p1 Cons.prems unfolding step by (auto simp: cap_has_add)
qed

text \<open>
  On a kernel that follows capabilities(7), what CurrentBounding answers after the policy was applied is
  what the policy and the process before it have in common, and what CurrentEffective answers is the
  effective set of the policy, when capget answers with the words that were set.
\<close>

theorem policy_reads_back:
  assumes rules: "follows_cred_rules lc K view" and lc: "lc < 64"
    and ok: "apply_capabilities K lc caps p = (Inr (), q)"
  shows "\<exists>w m q'. resolve_capabilities caps = Inr w \<and> current_bounding K lc q = (Inr m, q') \<and>
    (\<forall>b. cap_has m b \<longleftrightarrow> b \<le> lc \<and> b \<in> cr_bset (creds view p) \<and> cap_has (pol_bounding w) b) \<and>
    current_effective (case capset_data w of Capset lo hi \<Rightarrow> Inr (lo, hi)) = Inr (pol_effective w)"
proof -
  obtain w where w: "resolve_capabilities caps = Inr w" "creds view q = policy_creds lc w (creds view p)"
    using apply_capabilities_creds [OF rules ok] by blast
  obtain m q' where m: "read_bounding K [0..<Suc lc] 0 q = (Inr m, q')"
    "\<And>b. cap_has m b \<longleftrightarrow> cap_has 0 b \<or> b \<in> set [0..<Suc lc] \<and> b \<le> lc \<and> b \<in> cr_bset (creds view q)"
    using read_bounding_rules [OF rules, of "[0..<Suc lc]" 0 q] lc by (auto simp del: upt_Suc)
  have bset: "cr_bset (creds view q) = cr_bset (creds view p) - {b. b \<le> lc \<and> \<not> cap_has (pol_bounding w) b}"
    unfolding w(2) policy_creds_def by simp
  have "cap_has m b \<longleftrightarrow> b \<le> lc \<and> b \<in> cr_bset (creds view p) \<and> cap_has (pol_bounding w) b" for b
    unfolding m(2) bset by (auto simp: less_Suc_eq_le simp del: upt_Suc)
  moreover have "current_effective (case capset_data w of Capset lo hi \<Rightarrow> Inr (lo, hi)) = Inr (pol_effective w)"
    by (simp add: current_effective_def capset_data_def cap_join_halves ewrap_def)
  ultimately show ?thesis using w(1) m(1) unfolding current_bounding_def by blast
qed

end
